(* ===== verification/Prelude.thy ===== *)
theory Prelude
  imports Main "HOL-Library.AList" "HOL-Library.Word"
begin

text \<open>
  Shared vocabulary of the development: the model's basic types, the collections that the
  component proofs feed to the simplifier, the string functions of Rust's standard library that
  the sources call, and the hash map every store of the program is built on, as an interface
  (locale \<open>hash_map\<close>) and its implementation by association lists.
\<close>

section \<open>Types and collections\<close>

text \<open>
  A UUID is a 128-bit value. A \<open>DateTime<Utc>\<close> is the number of nanoseconds since the Unix
  epoch; arithmetic on it that can leave chrono's range is a parameter of the definitions that
  use it. Rust's machine integers keep their width wherever the source can overflow.
\<close>

type_synonym uuid = "128 word"
type_synonym datetime = int
type_synonym u8 = "8 word"
type_synonym u16 = "16 word"
type_synonym u32 = "32 word"
type_synonym u64 = "64 word"
type_synonym u128 = "128 word"
type_synonym i16 = "16 word"
type_synonym i64 = "64 word"

named_theorems store_simps \<open>what a lookup returns after an update of a store\<close>
named_theorems ops_simps \<open>unfoldings of accessors and small operations\<close>

text \<open>The errors of \<open>error.rs\<close>. An error that a library reports is one of the transparent cases,
  without the library's payload.\<close>

datatype error =
    Database
  | Conflict
  | Io
  | UrlParse
  | HttpError
  | JsonError
  | YamlError
  | JoinError
  | XrayUri
  | XrayTransport
  | Grpc
  | SerdeUrlEnc
  | Zmq
  | WireguardInterface
  | IpParseError
  | TomlDeError
  | Custom string
  | SerializationError string
  | RkyvSerialize
  | ConvertInfallibleError

datatype sync_error =
    SDatabase error
  | SMemory string
  | SValidation string
  | SZmq
  | SRkyvSerialize
  | InconsistentState string uuid
  | ResourceNotFound string uuid
  | ConcurrentModification string uuid

text \<open>A call either returns, or returns an error, or panics.\<close>

datatype ('e, 'a) outcome = Ret 'a | Err 'e | Panic

text \<open>\<open>e?\<close>: the rest of a function after a call that may fail; \<open>opt.ok_or(Error::Custom(msg))?\<close>;
  and a slice or \<open>unwrap\<close> that may panic.\<close>

definition try_call :: "('e, 'a) outcome \<Rightarrow> ('a \<Rightarrow> ('e, 'b) outcome) \<Rightarrow> ('e, 'b) outcome" where
  "try_call r f = (case r of Ret v \<Rightarrow> f v | Err e \<Rightarrow> Err e | Panic \<Rightarrow> Panic)"

definition ok_or :: "'a option \<Rightarrow> string \<Rightarrow> (error, 'a) outcome" where
  "ok_or opt msg = (case opt of Some v \<Rightarrow> Ret v | None \<Rightarrow> Err (Custom msg))"

definition or_panic :: "'a option \<Rightarrow> ('e, 'a) outcome" where
  "or_panic opt = (case opt of Some v \<Rightarrow> Ret v | None \<Rightarrow> Panic)"

definition of_sum :: "'e + 'a \<Rightarrow> ('e, 'a) outcome" where
  "of_sum r = (case r of Inl e \<Rightarrow> Err e | Inr v \<Rightarrow> Ret v)"

lemma try_call_Ret [simp]: "try_call r f = Ret b \<longleftrightarrow> (\<exists>a. r = Ret a \<and> f a = Ret b)"
  by (cases r) (simp_all add: try_call_def)

lemma try_call_simps [simp]:
  "try_call (Ret a) f = f a" "try_call (Err e) f = Err e" "try_call Panic f = Panic"
  by (simp_all add: try_call_def)

lemma lift_simps [simp]:
  "ok_or opt msg = Ret v \<longleftrightarrow> opt = Some v" "or_panic opt = Ret v \<longleftrightarrow> opt = Some v"
  "of_sum r = Ret v \<longleftrightarrow> r = Inr v" "ok_or (Some v) msg = Ret v" "or_panic (Some v) = Ret v"
  "of_sum (Inr v) = Ret v" "ok_or None msg = Err (Custom msg)" "or_panic None = Panic"
  "of_sum (Inl e) = Err e"
  by (auto simp: ok_or_def or_panic_def of_sum_def split: option.splits sum.splits)

section \<open>Strings\<close>

definition ascii_lower :: "char \<Rightarrow> char" where
  "ascii_lower c = (let n = (of_char c :: nat) in if 65 \<le> n \<and> n \<le> 90 then char_of (n + 32) else c)"

definition ascii_upper :: "char \<Rightarrow> char" where
  "ascii_upper c = (let n = (of_char c :: nat) in if 97 \<le> n \<and> n \<le> 122 then char_of (n - 32) else c)"

definition to_lowercase :: "string \<Rightarrow> string" where
  "to_lowercase s = map ascii_lower s"

definition to_uppercase :: "string \<Rightarrow> string" where
  "to_uppercase s = map ascii_upper s"

definition is_whitespace :: "char \<Rightarrow> bool" where
  "is_whitespace c = (let n = (of_char c :: nat) in n = 32 \<or> (9 \<le> n \<and> n \<le> 13))"

definition trim :: "string \<Rightarrow> string" where
  "trim s = rev (dropWhile is_whitespace (rev (dropWhile is_whitespace s)))"

definition strip_prefix :: "string \<Rightarrow> string \<Rightarrow> string option" where
  "strip_prefix p s = (if take (length p) s = p then Some (drop (length p) s) else None)"

definition starts_with :: "string \<Rightarrow> string \<Rightarrow> bool" where
  "starts_with s p = (take (length p) s = p)"

text \<open>\<open>s.split_once(c)\<close> and \<open>s.split(c)\<close>.\<close>

definition split_once :: "char \<Rightarrow> string \<Rightarrow> (string \<times> string) option" where
  "split_once c s = (case dropWhile (\<lambda>x. x \<noteq> c) s of
     [] \<Rightarrow> None | _ # r \<Rightarrow> Some (takeWhile (\<lambda>x. x \<noteq> c) s, r))"

fun split_on :: "char \<Rightarrow> string \<Rightarrow> string list" where
  "split_on c [] = [[]]"
| "split_on c (x # xs) =
     (if x = c then [] # split_on c xs
      else (case split_on c xs of [] \<Rightarrow> [[x]] | y # ys \<Rightarrow> (x # y) # ys))"

text \<open>\<open>BufReader::lines\<close> and \<open>str::lines\<close>: the text between line feeds, without a carriage return at the end of a
  line; a file that ends in a line feed has no further line.\<close>

definition strip_cr :: "string \<Rightarrow> string" where
  "strip_cr l = (if l \<noteq> [] \<and> last l = CHR 0x0D then butlast l else l)"

definition file_lines :: "string \<Rightarrow> string list" where
  "file_lines f = (let ls = split_on (CHR 0x0A) f in
     map strip_cr (if last ls = [] then butlast ls else ls))"

text \<open>A string of which \<open>to_lowercase\<close> (\<open>to_uppercase\<close>) changes nothing.\<close>

definition is_lower :: "string \<Rightarrow> bool" where
  "is_lower s = (to_lowercase s = s)"

lemma ascii_lower_idem [simp]: "ascii_lower (ascii_lower c) = ascii_lower c"
  by (auto simp: ascii_lower_def Let_def of_char_of)

lemma to_lowercase_idem [simp]: "to_lowercase (to_lowercase s) = to_lowercase s"
  by (simp add: to_lowercase_def)

lemma to_lowercase_append [simp]: "to_lowercase (a @ b) = to_lowercase a @ to_lowercase b"
  by (simp add: to_lowercase_def)

lemma is_lower_to_lowercase [simp]: "is_lower (to_lowercase s)"
  by (simp add: is_lower_def)

lemma is_lowerD: "is_lower s \<Longrightarrow> to_lowercase s = s"
  by (simp add: is_lower_def)

lemma strip_prefix_append [simp]: "strip_prefix p (p @ s) = Some s"
  by (simp add: strip_prefix_def)

lemma strip_prefix_SomeD: "strip_prefix p s = Some r \<Longrightarrow> s = p @ r"
  by (metis append_take_drop_id option.inject option.distinct(1) strip_prefix_def)

lemma starts_with_iff: "starts_with s p \<longleftrightarrow> (\<exists>r. s = p @ r)"
  by (metis append_eq_conv_conj append_take_drop_id starts_with_def)

lemma trim_empty [simp]: "trim [] = []"
  by (simp add: trim_def)

lemma split_on_nonempty [simp]: "split_on c s \<noteq> []"
  by (cases s) (auto split: list.splits)

lemma split_once_append:
  assumes "c \<notin> set a"
  shows "split_once c (a @ c # b) = Some (a, b)"
proof -
  from assms have "\<forall>x\<in>set a. x \<noteq> c" by auto
  then show ?thesis by (simp add: split_once_def takeWhile_append dropWhile_append)
qed

lemma split_once_None: "c \<notin> set s \<Longrightarrow> split_once c s = None"
  by (subst split_once_def, subst dropWhile_eq_Nil_conv [THEN iffD2]) auto

lemma map_filter_iff: "y \<in> set (List.map_filter f xs) \<longleftrightarrow> (\<exists>x\<in>set xs. f x = Some y)"
  by (force simp: List.map_filter_def)

section \<open>Hash maps\<close>

text \<open>
  \<open>std::collections::HashMap\<close>, as its clients use it: lookup, insert (which replaces), remove,
  and iteration over the entries in an order the map does not specify.
\<close>

locale hash_map =
  fixes get :: "'m \<Rightarrow> 'k \<Rightarrow> 'v option"
    and insert :: "'k \<Rightarrow> 'v \<Rightarrow> 'm \<Rightarrow> 'm"
    and remove :: "'k \<Rightarrow> 'm \<Rightarrow> 'm"
    and entries :: "'m \<Rightarrow> ('k \<times> 'v) list"
    and wf :: "'m \<Rightarrow> bool"
  assumes get_insert: "get (insert k v m) j = (if j = k then Some v else get m j)"
    and get_remove: "get (remove k m) j = (if j = k then None else get m j)"
    and wf_insert: "wf m \<Longrightarrow> wf (insert k v m)"
    and wf_remove: "wf m \<Longrightarrow> wf (remove k m)"
    and entries_get: "wf m \<Longrightarrow> (k, v) \<in> set (entries m) \<longleftrightarrow> get m k = Some v"
    and distinct_entries: "wf m \<Longrightarrow> distinct (map fst (entries m))"
begin

lemma get_insert_same: "get (insert k v m) k = Some v"
  by (simp add: get_insert)

lemma get_insert_other: "j \<noteq> k \<Longrightarrow> get (insert k v m) j = get m j"
  by (simp add: get_insert)

lemma find_SomeD:
  assumes "wf m" and "List.find P (entries m) = Some (k, v)"
  shows "get m k = Some v \<and> P (k, v)"
proof -
  from assms(2) have "P (k, v)" and "(k, v) \<in> set (entries m)"
    by (auto simp: find_Some_iff)
  with assms(1) show ?thesis by (simp add: entries_get)
qed

lemma find_None_iff:
  assumes "wf m"
  shows "List.find P (entries m) = None \<longleftrightarrow> (\<forall>k v. get m k = Some v \<longrightarrow> \<not> P (k, v))"
  using assms by (auto simp: List.find_None_iff entries_get [symmetric])

lemma filter_entries_iff:
  assumes "wf m"
  shows "(k, v) \<in> set (filter P (entries m)) \<longleftrightarrow> get m k = Some v \<and> P (k, v)"
  using assms by (simp add: entries_get)

lemma distinct_filter_entries: "wf m \<Longrightarrow> distinct (map fst (filter P (entries m)))"
  by (drule distinct_entries) (simp add: distinct_map_filter)

end

type_synonym ('k, 'v) hmap = "('k \<times> 'v) list"

abbreviation hm_get :: "('k, 'v) hmap \<Rightarrow> 'k \<Rightarrow> 'v option" where
  "hm_get m k \<equiv> map_of m k"

abbreviation hm_insert :: "'k \<Rightarrow> 'v \<Rightarrow> ('k, 'v) hmap \<Rightarrow> ('k, 'v) hmap" where
  "hm_insert k v m \<equiv> AList.update k v m"

abbreviation hm_remove :: "'k \<Rightarrow> ('k, 'v) hmap \<Rightarrow> ('k, 'v) hmap" where
  "hm_remove k m \<equiv> AList.delete k m"

abbreviation hm_wf :: "('k, 'v) hmap \<Rightarrow> bool" where
  "hm_wf m \<equiv> distinct (map fst m)"

text \<open>\<open>if let Some(v) = m.get_mut(k) { *v = f(v) }\<close>.\<close>

definition hm_modify :: "'k \<Rightarrow> ('v \<Rightarrow> 'v) \<Rightarrow> ('k, 'v) hmap \<Rightarrow> ('k, 'v) hmap" where
  "hm_modify k f m = (case hm_get m k of None \<Rightarrow> m | Some v \<Rightarrow> hm_insert k (f v) m)"

interpretation hm: hash_map map_of AList.update AList.delete "\<lambda>m. m" "\<lambda>m. distinct (map fst m)"
proof unfold_locales
  show "map_of (AList.update k v m) j = (if j = k then Some v else map_of m j)"
    for k :: 'a and v :: 'b and m j
    by (simp add: update_conv')
  show "map_of (AList.delete k m) j = (if j = k then None else map_of m j)"
    for k :: 'a and m :: "('a \<times> 'b) list" and j
    by (simp add: delete_conv')
  show "distinct (map fst m) \<Longrightarrow> distinct (map fst (AList.update k v m))"
    for k :: 'a and v :: 'b and m
    by (rule distinct_update)
  show "distinct (map fst m) \<Longrightarrow> distinct (map fst (AList.delete k m))"
    for k :: 'a and m :: "('a \<times> 'b) list"
    by (rule distinct_delete)
qed (auto simp: map_of_eq_Some_iff)

text \<open>Stores are reasoned about through lookups, not through membership in the entry list.\<close>

declare map_of_eq_Some_iff [simp del] Some_eq_map_of_iff [simp del]

lemmas hm_get_update [simp, store_simps] = hm.get_insert hm.get_remove

lemma hm_get_modify [simp, store_simps]:
  "hm_get (hm_modify k f m) j = (if j = k then map_option f (hm_get m k) else hm_get m j)"
  by (auto simp: hm_modify_def split: option.splits)

lemma hm_wf_modify [simp]: "hm_wf m \<Longrightarrow> hm_wf (hm_modify k f m)"
  by (auto simp: hm_modify_def hm.wf_insert split: option.splits)

lemma hm_wf_update [simp]: "hm_wf m \<Longrightarrow> hm_wf (hm_insert k v m)"
  by (rule hm.wf_insert)

lemma hm_wf_delete [simp]: "hm_wf m \<Longrightarrow> hm_wf (hm_remove k m)"
  by (rule hm.wf_remove)

lemma hm_modify_absent: "hm_get m k = None \<Longrightarrow> hm_modify k f m = m"
  by (simp add: hm_modify_def)

section \<open>Transition systems\<close>

text \<open>A property every step keeps holds in all states that are reached from one where it holds.\<close>

locale preserved =
  fixes step :: "'s \<Rightarrow> 's \<Rightarrow> bool"
    and inv :: "'s \<Rightarrow> bool"
  assumes step_inv: "inv s \<Longrightarrow> step s s' \<Longrightarrow> inv s'"
begin

lemma reach_inv: "step\<^sup>*\<^sup>* s s' \<Longrightarrow> inv s \<Longrightarrow> inv s'"
  by (induction rule: rtranclp_induct) (auto intro: step_inv)

end

section \<open>Retrying\<close>

text \<open>A loop that repeats an attempt until it succeeds; \<open>None\<close> where it never ends. The attempt gets its
  number and the state, and says whether it succeeded.\<close>

partial_function (option) retry :: "(nat \<Rightarrow> 's \<Rightarrow> bool \<times> 's) \<Rightarrow> nat \<Rightarrow> 's \<Rightarrow> 's option" where
  "retry f i s = (if fst (f i s) then Some (snd (f i s)) else retry f (Suc i) (snd (f i s)))"

text \<open>Attempts that fail without an effect are repeated until one succeeds.\<close>

lemma retry_idle:
  assumes "\<And>i. \<not> fst (f i s) \<Longrightarrow> snd (f i s) = s" and "fst (f n s)" and "i \<le> n"
  obtains j where "retry f i s = Some (snd (f j s))" and "fst (f j s)"
proof -
  have "\<exists>j. retry f i s = Some (snd (f j s)) \<and> fst (f j s)"
    using assms(3)
  proof (induction "n - i" arbitrary: i)
    case 0
    then have "fst (f i s)" using assms(2) by simp
    then show ?case by (auto simp: retry.simps [of f i s])
  next
    case (Suc k)
    then have "k = n - Suc i" "Suc i \<le> n" by simp_all
    from Suc.hyps(1) [OF this] show ?case
      using assms(1) [of i] by (cases "fst (f i s)") (auto simp: retry.simps [of f i s])
  qed
  with that show thesis by blast
qed

lemma retry_Some:
  assumes "retry f i s = Some s'" and "P s" and "\<And>i s. P s \<Longrightarrow> P (snd (f i s))"
  shows "\<exists>j t. P t \<and> f j t = (True, s') \<and> P s'"
proof -
  have "P s \<longrightarrow> (\<forall>i s. P s \<longrightarrow> P (snd (f i s))) \<longrightarrow> (\<exists>j t. P t \<and> f j t = (True, s') \<and> P s')"
  proof (rule retry.raw_induct [OF _ assms(1)], intro impI)
    fix r f i s s'
    assume IH: "\<And>f i s s'. r f i s = Some s' \<Longrightarrow>
        P s \<longrightarrow> (\<forall>i s. P s \<longrightarrow> P (snd (f i s))) \<longrightarrow> (\<exists>j t. P t \<and> f j t = (True, s') \<and> P s')"
      and r: "(if fst (f i s) then Some (snd (f i s)) else r f (Suc i) (snd (f i s))) = Some s'"
      and P: "P s" "\<forall>i s. P s \<longrightarrow> P (snd (f i s))"
    show "\<exists>j t. P t \<and> f j t = (True, s') \<and> P s'"
    proof (cases "fst (f i s)")
      case True
      with r have "f i s = (True, s')" by (metis option.inject prod.collapse)
      with P show ?thesis by (metis snd_conv)
    next
      case False
      with r IH [of f "Suc i" "snd (f i s)" s'] P show ?thesis by simp
    qed
  qed
  with assms(2,3) show ?thesis by blast
qed

end
