(* ===== verification/Tags.thy ===== *)
theory Tags
  imports Prelude
begin

text \<open>
  The closed vocabularies of the program and their textual forms: protocol tags
  (\<open>memory/tag.rs\<close>), environments (\<open>memory/env.rs\<close>), node status and node type
  (\<open>memory/node.rs\<close>), statistic kinds (\<open>memory/stat.rs\<close>) and the topics of the message bus
  (\<open>zmq/topic.rs\<close>), with what each printer and parser pair preserves.
\<close>

section \<open>Protocol tags\<close>

datatype proto_tag =
    VlessTcpReality | VlessGrpcReality | VlessXhttpReality | Vmess
  | Shadowsocks | Wireguard | Hysteria2 | Mtproto

fun tag_to_string :: "proto_tag \<Rightarrow> string" where
  "tag_to_string VlessTcpReality = ''VlessTcpReality''"
| "tag_to_string VlessGrpcReality = ''VlessGrpcReality''"
| "tag_to_string VlessXhttpReality = ''VlessXhttpReality''"
| "tag_to_string Vmess = ''Vmess''"
| "tag_to_string Shadowsocks = ''Shadowsocks''"
| "tag_to_string Wireguard = ''Wireguard''"
| "tag_to_string Hysteria2 = ''Hysteria2''"
| "tag_to_string Mtproto = ''Mtproto''"

definition tag_from_str :: "string \<Rightarrow> proto_tag option" where
  "tag_from_str s =
    (if s = ''VlessTcpReality'' then Some VlessTcpReality
     else if s = ''VlessGrpcReality'' then Some VlessGrpcReality
     else if s = ''VlessXhttpReality'' then Some VlessXhttpReality
     else if s = ''Vmess'' then Some Vmess
     else if s = ''Shadowsocks'' then Some Shadowsocks
     else if s = ''Wireguard'' then Some Wireguard
     else if s = ''Hysteria2'' then Some Hysteria2
     else if s = ''Mtproto'' then Some Mtproto
     else None)"

lemma tag_from_to: "tag_from_str (tag_to_string t) = Some t"
  by (cases t) (simp_all add: tag_from_str_def)

lemma tag_from_str_SomeD: "tag_from_str s = Some t \<Longrightarrow> s = tag_to_string t"
  by (auto simp: tag_from_str_def split: if_splits)

text \<open>The tags the Xray core serves: what \<open>matches!\<close> tests in the node agent.\<close>

definition is_xray_tag :: "proto_tag \<Rightarrow> bool" where
  "is_xray_tag t =
    (t = VlessTcpReality \<or> t = VlessGrpcReality \<or> t = VlessXhttpReality \<or> t = Vmess)"

section \<open>Environments\<close>

datatype env = Production | Experimental | Dev | Ru | Wl | CustomEnv string

fun env_to_string :: "env \<Rightarrow> string" where
  "env_to_string Dev = ''dev''"
| "env_to_string Ru = ''ru''"
| "env_to_string Wl = ''wl''"
| "env_to_string Experimental = ''experimental''"
| "env_to_string Production = ''production''"
| "env_to_string (CustomEnv name) = ''custom'' @ name"

definition env_from_str :: "string \<Rightarrow> error + env" where
  "env_from_str str = (let s = to_lowercase str in
     if s = ''experimental'' \<or> s = ''exp'' then Inr Experimental
     else if s = ''development'' \<or> s = ''dev'' then Inr Dev
     else if s = ''production'' \<or> s = ''prod'' then Inr Production
     else if s = ''ru'' then Inr Ru
     else if s = ''wl'' then Inr Wl
     else (case strip_prefix ''custom'' s of
             Some name \<Rightarrow> Inr (CustomEnv name)
           | None \<Rightarrow> Inl (Custom ''Wrong Env string'')))"

text \<open>\<open>impl From<&str> for Env\<close>: a string that does not parse is \<open>Experimental\<close>.\<close>

definition env_of_str :: "string \<Rightarrow> env" where
  "env_of_str s = (case env_from_str s of Inr e \<Rightarrow> e | Inl _ \<Rightarrow> Experimental)"

text \<open>What the round trip through text makes of an environment: a custom name is lower-cased.\<close>

fun env_norm :: "env \<Rightarrow> env" where
  "env_norm (CustomEnv name) = CustomEnv (to_lowercase name)"
| "env_norm e = e"

lemma lower_lits [simp]:
  "to_lowercase ''experimental'' = ''experimental''" "to_lowercase ''dev'' = ''dev''"
  "to_lowercase ''production'' = ''production''" "to_lowercase ''ru'' = ''ru''"
  "to_lowercase ''wl'' = ''wl''" "to_lowercase ''custom'' = ''custom''"
  "to_lowercase ''auth'' = ''auth''" "to_lowercase ''metrics'' = ''metrics''"
  "to_lowercase ''updates-'' = ''updates-''" "to_lowercase ''init-'' = ''init-''"
  by code_simp+

lemma to_lowercase_custom: "to_lowercase (''custom'' @ n) = ''custom'' @ to_lowercase n"
  by (simp only: to_lowercase_append lower_lits)

lemma env_from_custom: "env_from_str (''custom'' @ n) = Inr (CustomEnv (to_lowercase n))"
proof -
  have "strip_prefix ''custom'' (''custom'' @ to_lowercase n) = Some (to_lowercase n)"
    by (rule strip_prefix_append)
  then show ?thesis
    by (simp only: env_from_str_def to_lowercase_custom Let_def) simp
qed

lemma env_from_to: "env_from_str (env_to_string e) = Inr (env_norm e)"
proof (cases e)
  case (CustomEnv n)
  then show ?thesis by (simp only: env_to_string.simps env_from_custom env_norm.simps)
qed (simp_all add: env_from_str_def Let_def)

lemma env_of_to: "env_of_str (env_to_string e) = env_norm e"
  by (simp add: env_of_str_def env_from_to)

lemma env_norm_idem [simp]: "env_norm (env_norm e) = env_norm e"
  by (cases e) simp_all

lemma env_norm_id: "(\<forall>n. e = CustomEnv n \<longrightarrow> is_lower n) \<longleftrightarrow> env_norm e = e"
  by (cases e) (auto simp: is_lower_def)

lemma env_from_str_norm: "env_from_str s = Inr e \<Longrightarrow> env_norm e = e"
  by (auto simp: env_from_str_def Let_def strip_prefix_def split: if_splits option.splits)
     (metis append_take_drop_id to_lowercase_append to_lowercase_idem lower_lits(6) append_same_eq
       same_append_eq)

section \<open>Node status and node type\<close>

datatype node_status = Online | Offline

fun node_status_to_string :: "node_status \<Rightarrow> string" where
  "node_status_to_string Online = ''Online''"
| "node_status_to_string Offline = ''Offline''"

definition node_status_from_str :: "string \<Rightarrow> node_status" where
  "node_status_from_str s =
    (if s = ''Online'' then Online else if s = ''Offline'' then Offline else Offline)"

datatype node_type = Common | Premium | Service | Agent

fun node_type_to_string :: "node_type \<Rightarrow> string" where
  "node_type_to_string Common = ''Common''"
| "node_type_to_string Premium = ''Premium''"
| "node_type_to_string Service = ''Service''"
| "node_type_to_string Agent = ''Agent''"

definition node_type_from_str :: "string \<Rightarrow> node_type" where
  "node_type_from_str s =
    (if s = ''Common'' then Common else if s = ''Premium'' then Premium
     else if s = ''Service'' then Service else if s = ''Agent'' then Agent else Common)"

lemma node_status_from_to: "node_status_from_str (node_status_to_string s) = s"
  by (cases s) (simp_all add: node_status_from_str_def)

lemma node_type_from_to: "node_type_from_str (node_type_to_string t) = t"
  by (cases t) (simp_all add: node_type_from_str_def)

section \<open>Statistic kinds\<close>

datatype stat_kind = Uplink | Downlink | OnlineKind | UnknownKind

fun stat_kind_to_string :: "stat_kind \<Rightarrow> string" where
  "stat_kind_to_string Uplink = ''uplink''"
| "stat_kind_to_string Downlink = ''downlink''"
| "stat_kind_to_string OnlineKind = ''online''"
| "stat_kind_to_string UnknownKind = ''unknown''"

text \<open>\<open>path.split('.').next_back()\<close> is the last component of the path; \<open>split\<close> never yields
  an empty sequence, so the source's \<open>else\<close> branch is not reached.\<close>

definition stat_kind_from_path :: "string \<Rightarrow> stat_kind" where
  "stat_kind_from_path path = (let l = last (split_on (CHR ''.'') path) in
     if l = ''uplink'' then Uplink else if l = ''downlink'' then Downlink
     else if l = ''online'' then OnlineKind else UnknownKind)"

datatype stat = ConnStat stat_kind | InboundStat stat_kind | OutboundStat stat_kind

fun stat_to_string :: "stat \<Rightarrow> string" where
  "stat_to_string (ConnStat Uplink) = ''uplink''"
| "stat_to_string (ConnStat Downlink) = ''downlink''"
| "stat_to_string (ConnStat OnlineKind) = ''online''"
| "stat_to_string (InboundStat Uplink) = ''uplink''"
| "stat_to_string (InboundStat Downlink) = ''downlink''"
| "stat_to_string (InboundStat OnlineKind) = ''Not implemented''"
| "stat_to_string (OutboundStat Uplink) = ''uplink''"
| "stat_to_string (OutboundStat Downlink) = ''downlink''"
| "stat_to_string (OutboundStat OnlineKind) = ''Not implemented''"
| "stat_to_string (ConnStat UnknownKind) = ''unknown''"
| "stat_to_string (InboundStat UnknownKind) = ''unknown''"
| "stat_to_string (OutboundStat UnknownKind) = ''unknown''"

lemma split_on_last_append:
  "CHR ''.'' \<notin> set b \<Longrightarrow> last (split_on (CHR ''.'') (a @ CHR ''.'' # b)) = b"
proof (induction a)
  case Nil
  have "CHR ''.'' \<notin> set b \<Longrightarrow> split_on (CHR ''.'') b = [b]"
    by (induction b) auto
  with Nil show ?case by simp
next
  case (Cons x a)
  let ?r = "split_on (CHR ''.'') (a @ CHR ''.'' # b)"
  have len: "length ?r \<noteq> 1"
    by (induction a) (auto split: list.splits)
  from len have "\<exists>y z zs. ?r = y # z # zs"
    by (cases ?r rule: remdups_adj.cases) auto
  with Cons show ?case by auto
qed

section \<open>Topics of the message bus\<close>

datatype topic = AuthTopic | MetricsTopic | Updates env | Init uuid

text \<open>\<open>Display\<close>, \<open>as_string\<close>, \<open>as_str\<close> and \<open>as_bytes\<close> give the same text. How the uuid
  crate prints and parses an identifier is a parameter.\<close>

fun topic_to_string :: "(uuid \<Rightarrow> string) \<Rightarrow> topic \<Rightarrow> string" where
  "topic_to_string uuid_str AuthTopic = ''auth''"
| "topic_to_string uuid_str MetricsTopic = ''metrics''"
| "topic_to_string uuid_str (Updates e) = ''updates-'' @ env_to_string e"
| "topic_to_string uuid_str (Init u) = ''init-'' @ uuid_str u"

definition topic_from_str :: "(string \<Rightarrow> uuid option) \<Rightarrow> string \<Rightarrow> error + topic" where
  "topic_from_str uuid_parse str = (let s = to_lowercase str in
     if s = ''auth'' then Inr AuthTopic
     else if s = ''metrics'' then Inr MetricsTopic
     else (case strip_prefix ''updates-'' s of
         Some env_str \<Rightarrow> (case env_from_str env_str of
             Inl e \<Rightarrow> Inl e
           | Inr e \<Rightarrow> Inr (Updates e))
       | None \<Rightarrow> (case strip_prefix ''init-'' s of
           Some uuid_str \<Rightarrow> (case uuid_parse uuid_str of
               None \<Rightarrow> Inl (Custom ''Invalid UUID in topic'')
             | Some u \<Rightarrow> Inr (Init u))
         | None \<Rightarrow> Inl (Custom (''Unknown topic string: '' @ s)))))"

text \<open>What the uuid crate documents: the printed form is in lower case and parses back.\<close>

definition uuid_laws :: "(uuid \<Rightarrow> string) \<Rightarrow> (string \<Rightarrow> uuid option) \<Rightarrow> bool" where
  "uuid_laws uuid_str uuid_parse =
    (\<forall>u. is_lower (uuid_str u) \<and> uuid_parse (uuid_str u) = Some u)"

fun topic_norm :: "topic \<Rightarrow> topic" where
  "topic_norm (Updates e) = Updates (env_norm e)"
| "topic_norm t = t"

lemma env_to_string_lower: "to_lowercase (env_to_string e) = env_to_string (env_norm e)"
proof (cases e)
  case (CustomEnv n)
  then show ?thesis by (simp only: env_to_string.simps env_norm.simps to_lowercase_custom)
qed simp_all

lemma topic_from_updates: "topic_from_str up (''updates-'' @ s) =
    (case env_from_str (to_lowercase s) of Inl e \<Rightarrow> Inl e | Inr e \<Rightarrow> Inr (Updates e))"
proof -
  have "to_lowercase (''updates-'' @ s) = ''updates-'' @ to_lowercase s"
    by (simp only: to_lowercase_append lower_lits)
  moreover have "strip_prefix ''updates-'' (''updates-'' @ to_lowercase s) = Some (to_lowercase s)"
    by (rule strip_prefix_append)
  ultimately show ?thesis
    by (simp only: topic_from_str_def Let_def) simp
qed

lemma topic_from_init: "topic_from_str up (''init-'' @ s) =
    (case up (to_lowercase s) of None \<Rightarrow> Inl (Custom ''Invalid UUID in topic'')
     | Some u \<Rightarrow> Inr (Init u))"
proof -
  have "to_lowercase (''init-'' @ s) = ''init-'' @ to_lowercase s"
    by (simp only: to_lowercase_append lower_lits)
  moreover have "strip_prefix ''init-'' (''init-'' @ to_lowercase s) = Some (to_lowercase s)"
    by (rule strip_prefix_append)
  moreover have "strip_prefix ''updates-'' (''init-'' @ to_lowercase s) = None"
    by (simp add: strip_prefix_def)
  ultimately show ?thesis
    by (simp only: topic_from_str_def Let_def) simp
qed

lemma topic_from_to:
  assumes "uuid_laws us up"
  shows "topic_from_str up (topic_to_string us t) = Inr (topic_norm t)"
proof (cases t)
  case (Updates e)
  then show ?thesis
    by (simp only: topic_to_string.simps topic_from_updates env_to_string_lower env_from_to)
       simp
next
  case (Init u)
  from assms have "to_lowercase (us u) = us u" and "up (us u) = Some u"
    by (simp_all add: uuid_laws_def is_lower_def)
  with Init show ?thesis
    by (simp only: topic_to_string.simps topic_from_init) simp
qed (simp_all add: topic_from_str_def Let_def)

end
