(* ===== verification/Decimal.thy ===== *)
theory Decimal
  imports Prelude
begin

text \<open>
  Decimal integers as Rust's standard library prints and parses them: \<open>to_string\<close> of an
  unsigned integer and \<open>str::parse\<close> into one, which accepts a leading plus sign and rejects the
  empty string and values above the type's maximum.
\<close>

definition digit_char :: "nat \<Rightarrow> char" where
  "digit_char d = char_of (48 + d)"

definition digit_val :: "char \<Rightarrow> nat option" where
  "digit_val c = (let n = (of_char c :: nat) in if 48 \<le> n \<and> n \<le> 57 then Some (n - 48) else None)"

fun dec_string :: "nat \<Rightarrow> string" where
  "dec_string n = (if n < 10 then [digit_char n] else dec_string (n div 10) @ [digit_char (n mod 10)])"

declare dec_string.simps [simp del]

fun parse_digits :: "nat \<Rightarrow> string \<Rightarrow> nat option" where
  "parse_digits a [] = Some a"
| "parse_digits a (c # cs) =
     (case digit_val c of None \<Rightarrow> None | Some d \<Rightarrow> parse_digits (10 * a + d) cs)"

definition parse_unsigned :: "nat \<Rightarrow> string \<Rightarrow> nat option" where
  "parse_unsigned max_value s =
    (let t = (case s of c # r \<Rightarrow> if c = CHR ''+'' then r else s | [] \<Rightarrow> s) in
     if t = [] then None
     else (case parse_digits 0 t of
             None \<Rightarrow> None
           | Some n \<Rightarrow> if n \<le> max_value then Some n else None))"

lemma digit_val_char [simp]: "d < 10 \<Longrightarrow> digit_val (digit_char d) = Some d"
  by (simp add: digit_val_def digit_char_def Let_def)

lemma digit_char_neq: "d < 10 \<Longrightarrow> digit_val c = None \<Longrightarrow> digit_char d \<noteq> c"
  by auto

lemma parse_digits_append:
  "parse_digits a (xs @ ys) =
    (case parse_digits a xs of None \<Rightarrow> None | Some b \<Rightarrow> parse_digits b ys)"
  by (induction xs arbitrary: a) (auto split: option.splits)

lemma dec_string_nonempty [simp]: "dec_string n \<noteq> []"
  by (subst dec_string.simps) simp

lemma parse_digits_dec_string: "parse_digits 0 (dec_string n) = Some n"
proof (induction n rule: dec_string.induct)
  case (1 n)
  show ?case
  proof (cases "n < 10")
    case True
    then show ?thesis by (simp add: dec_string.simps [of n])
  next
    case False
    with "1.IH" show ?thesis
      by (simp add: dec_string.simps [of n] parse_digits_append)
  qed
qed

lemma dec_string_digits: "c \<in> set (dec_string n) \<Longrightarrow> \<exists>d < 10. c = digit_char d"
proof (induction n rule: dec_string.induct)
  case (1 n)
  show ?case
  proof (cases "n < 10")
    case True
    with "1.prems" show ?thesis by (auto simp: dec_string.simps [of n])
  next
    case False
    with "1.prems" have "c \<in> set (dec_string (n div 10)) \<or> c = digit_char (n mod 10)"
      by (auto simp: dec_string.simps [of n])
    with "1.IH" [OF False] show ?thesis by (auto intro: exI [of _ "n mod 10"])
  qed
qed

lemma dec_string_no: "digit_val c = None \<Longrightarrow> c \<notin> set (dec_string n)"
  by (metis dec_string_digits digit_val_char option.distinct(1))

lemma digit_val_separators [simp]:
  "digit_val (CHR ''+'') = None" "digit_val (CHR ''.'') = None" "digit_val (CHR ''/'') = None"
  "digit_val (CHR '','') = None" "digit_val (CHR '':'') = None"
  by (simp_all add: digit_val_def)

lemma parse_unsigned_dec_string: "n \<le> m \<Longrightarrow> parse_unsigned m (dec_string n) = Some n"
proof -
  assume le: "n \<le> m"
  obtain c r where cr: "dec_string n = c # r" by (cases "dec_string n") auto
  then have "c \<noteq> CHR ''+''" using dec_string_no [of "CHR ''+''" n] by auto
  then have "parse_unsigned m (dec_string n) =
      (case parse_digits 0 (dec_string n) of None \<Rightarrow> None
       | Some n \<Rightarrow> if n \<le> m then Some n else None)"
    by (simp add: parse_unsigned_def cr)
  with le show ?thesis by (simp add: parse_digits_dec_string)
qed

lemma parse_unsigned_le: "parse_unsigned m s = Some n \<Longrightarrow> n \<le> m"
  by (auto simp: parse_unsigned_def Let_def split: if_splits option.splits)

lemma dec_string_head_nonzero: "0 < n \<Longrightarrow> hd (dec_string n) \<noteq> digit_char 0"
proof (induction n rule: dec_string.induct)
  case (1 n)
  show ?case
  proof (cases "n < 10")
    case True
    with "1.prems" have "digit_char n \<noteq> digit_char 0"
      by (metis digit_val_char option.inject zero_less_numeral less_irrefl)
    with True show ?thesis by (simp add: dec_string.simps [of n])
  next
    case False
    then have "0 < n div 10" by (simp add: div_greater_zero_iff)
    with "1.IH" [OF False] False show ?thesis by (simp add: dec_string.simps [of n])
  qed
qed

lemma length_dec_string_le: "n < 10 ^ k \<Longrightarrow> 0 < k \<Longrightarrow> length (dec_string n) \<le> k"
proof (induction n arbitrary: k rule: dec_string.induct)
  case (1 n)
  show ?case
  proof (cases "n < 10")
    case True
    with "1.prems" show ?thesis by (simp add: dec_string.simps [of n])
  next
    case False
    then obtain j where k: "k = Suc j" and j: "0 < j"
      using "1.prems" by (cases k; cases "k = 1") auto
    from "1.prems" k have "n div 10 < 10 ^ j" by (simp add: div_less_iff_less_mult mult.commute)
    with "1.IH" [OF False] j have "length (dec_string (n div 10)) \<le> j" by blast
    with False k show ?thesis by (simp add: dec_string.simps [of n])
  qed
qed

end
