(* ===== verification/Addresses.thy ===== *)
theory Addresses
  imports Decimal
begin

unbundle bit_operations_syntax

text \<open>
  Addresses and key material of WireGuard (\<open>memory/connection/wireguard.rs\<close>): IP addresses with
  a CIDR prefix length, the network arithmetic on them, their textual form, and the derivation of
  a public key. Integer operations follow the release profile the repository builds with
  (wrapping arithmetic, shift amounts reduced modulo the width).
\<close>

section \<open>Data\<close>

datatype ip_addr = V4 u32 | V6 u128

record ip_addr_mask =
  address :: ip_addr
  cidr :: u8

record wg_keys =
  privkey :: string

record wg_param =
  keys :: wg_keys
  wg_address :: ip_addr_mask

definition new_mask :: "ip_addr \<Rightarrow> u8 \<Rightarrow> ip_addr_mask" where
  "new_mask a c = \<lparr>address = a, cidr = c\<rparr>"

definition host :: "ip_addr \<Rightarrow> ip_addr_mask" where
  "host a = \<lparr>address = a, cidr = (case a of V4 _ \<Rightarrow> 32 | V6 _ \<Rightarrow> 128)\<rparr>"

definition as_ipv4 :: "ip_addr_mask \<Rightarrow> u32 option" where
  "as_ipv4 m = (case address m of V4 ip \<Rightarrow> Some ip | V6 _ \<Rightarrow> None)"

text \<open>\<open>u32::checked_add(1)\<close>.\<close>

definition increment_ipv4 :: "u32 \<Rightarrow> u32 option" where
  "increment_ipv4 ip = (if unat ip + 1 < 2 ^ 32 then Some (ip + 1) else None)"

definition first_ipv4 :: "ip_addr_mask \<Rightarrow> u32 option" where
  "first_ipv4 m = (case as_ipv4 m of None \<Rightarrow> None | Some base \<Rightarrow> increment_ipv4 base)"

definition last_ipv4 :: "ip_addr_mask \<Rightarrow> u32 option" where
  "last_ipv4 m = as_ipv4 m"

text \<open>The netmask \<open>u32::MAX << (32 - cidr)\<close>, and the same at 128 bits.\<close>

definition netmask4 :: "u8 \<Rightarrow> u32" where
  "netmask4 c = (if c = 0 then 0 else push_bit (unat (32 - c) mod 32) (-1))"

definition netmask6 :: "u8 \<Rightarrow> u128" where
  "netmask6 c = (if c = 0 then 0 else push_bit (unat (128 - c) mod 128) (-1))"

definition contains_ipv4 :: "ip_addr_mask \<Rightarrow> u32 \<Rightarrow> bool" where
  "contains_ipv4 m ip = (case address m of
      V4 base \<Rightarrow> (base AND netmask4 (cidr m)) = (ip AND netmask4 (cidr m))
    | V6 _ \<Rightarrow> False)"

definition first_peer_ip :: "ip_addr_mask \<Rightarrow> u32 option" where
  "first_peer_ip m = (case first_ipv4 m of
      None \<Rightarrow> None
    | Some base \<Rightarrow> (case increment_ipv4 base of
        None \<Rightarrow> None
      | Some ip \<Rightarrow> if contains_ipv4 m ip then Some ip else None))"

definition broadcast :: "ip_addr_mask \<Rightarrow> ip_addr" where
  "broadcast m = (case address m of
      V4 ip \<Rightarrow> V4 (ip OR (if 32 \<le> cidr m then 0 else drop_bit (unat (cidr m)) (-1)))
    | V6 ip \<Rightarrow> V6 (ip OR (if 128 \<le> cidr m then 0 else drop_bit (unat (cidr m)) (-1))))"

definition net_mask :: "ip_addr_mask \<Rightarrow> ip_addr" where
  "net_mask m = (case address m of
      V4 _ \<Rightarrow> V4 (netmask4 (cidr m))
    | V6 _ \<Rightarrow> V6 (netmask6 (cidr m)))"

definition is_host :: "ip_addr_mask \<Rightarrow> bool" where
  "is_host m = (case address m of V4 _ \<Rightarrow> cidr m = 32 | V6 _ \<Rightarrow> cidr m = 128)"

section \<open>Network arithmetic\<close>

lemma unat_bound: "unat (w :: 'a::len word) < 2 ^ LENGTH('a)"
  by (rule unsigned_less)

lemma increment_ipv4_Some: "increment_ipv4 a = Some b \<Longrightarrow> unat b = unat a + 1"
  by (auto simp: increment_ipv4_def unat_word_ariths split: if_splits)

lemma increment_ipv4_None: "increment_ipv4 a = None \<longleftrightarrow> a = -1"
proof -
  have "unat (-1 :: u32) = 2 ^ 32 - 1"
    by (simp add: unsigned_minus_1_eq_mask mask_eq_exp_minus_1)
  then show ?thesis
    using unat_bound [of a] by (auto simp: increment_ipv4_def word_unat_eq_iff)
qed

text \<open>The overflow test on the word itself, for evaluation.\<close>

lemma increment_ipv4_code [code]: "increment_ipv4 ip = (if ip = - 1 then None else Some (ip + 1))"
  using increment_ipv4_None [of ip] by (auto simp: increment_ipv4_def split: if_splits)

lemma unat_sub_cidr:
  assumes "c \<le> (32 :: u8)"
  shows "unat (32 - c) = 32 - unat c"
  using assms by (simp add: unat_sub)

lemma netmask4_eq:
  assumes "c \<le> 32" and "c \<noteq> 0"
  shows "netmask4 c = push_bit (32 - unat c) (-1)"
proof -
  have "0 < unat c" using assms(2) by (simp add: unat_gt_0)
  then have "(32 - unat c) mod 32 = 32 - unat c" by simp
  with assms show ?thesis by (simp add: netmask4_def unat_sub_cidr)
qed

lemma and_netmask_eq_iff:
  fixes a b :: "'a::len word"
  shows "(a AND push_bit n (-1) = b AND push_bit n (-1)) \<longleftrightarrow> drop_bit n a = drop_bit n b"
proof
  assume eq: "a AND push_bit n (-1) = b AND push_bit n (-1)"
  show "drop_bit n a = drop_bit n b"
  proof (rule bit_word_eqI)
    fix k assume "k < LENGTH('a)"
    from eq have "bit (a AND push_bit n (-1)) (n + k) = bit (b AND push_bit n (-1)) (n + k)"
      by simp
    then show "bit (drop_bit n a) k = bit (drop_bit n b) k"
      by (auto simp: bit_simps dest: bit_imp_le_length)
  qed
next
  assume eq: "drop_bit n a = drop_bit n b"
  show "a AND push_bit n (-1) = b AND push_bit n (-1)"
  proof (rule bit_word_eqI)
    fix k assume k: "k < LENGTH('a)"
    from eq have "bit (drop_bit n a) (k - n) = bit (drop_bit n b) (k - n)" by simp
    then show "bit (a AND push_bit n (-1)) k = bit (b AND push_bit n (-1)) k"
      by (cases "n \<le> k") (simp_all add: bit_simps)
  qed
qed

text \<open>Membership is equality of the first \<open>cidr\<close> bits.\<close>

lemma contains_ipv4_prefix:
  assumes "cidr m \<le> 32" and "address m = V4 base"
  shows "contains_ipv4 m ip \<longleftrightarrow> drop_bit (32 - unat (cidr m)) base = drop_bit (32 - unat (cidr m)) ip"
proof (cases "cidr m = 0")
  case True
  have "drop_bit 32 (x :: u32) = 0" for x
    by (rule bit_word_eqI) (auto simp: bit_simps dest: bit_imp_le_length)
  with True assms show ?thesis by (simp add: contains_ipv4_def netmask4_def)
next
  case False
  then have "netmask4 (cidr m) = push_bit (32 - unat (cidr m)) (-1)"
    by (rule netmask4_eq [OF assms(1)])
  with assms show ?thesis
    by (simp only: contains_ipv4_def and_netmask_eq_iff ip_addr.case)
qed

lemma unat_split_bits: "unat (w :: 'a::len word) = 2 ^ n * unat (drop_bit n w) + unat w mod 2 ^ n"
  by (simp only: unat_drop_bit_eq) (simp add: drop_bit_eq_div)

lemma or_low_mask_eq:
  fixes a :: "'a::len word"
  assumes "c \<le> LENGTH('a)"
  shows "a OR drop_bit c (-1) = a OR mask (LENGTH('a) - c)"
  by (rule bit_word_eqI) (use assms in \<open>auto simp: bit_simps\<close>)

lemma drop_bit_or_mask: "drop_bit n (a OR mask n) = drop_bit n (a :: 'a::len word)"
  by (rule bit_word_eqI) (auto simp: bit_simps)

lemma take_bit_or_mask: "take_bit n (a OR mask n) = (mask n :: 'a::len word)"
  by (rule bit_word_eqI) (auto simp: bit_simps)

lemma unat_mod_eq_take_bit: "unat (w :: 'a::len word) mod 2 ^ n = unat (take_bit n w)"
  by (simp only: unsigned_take_bit_eq) (simp add: take_bit_eq_mod)

lemma unat_mask_word: "n \<le> LENGTH('a) \<Longrightarrow> unat (mask n :: 'a::len word) = 2 ^ n - 1"
proof -
  assume "n \<le> LENGTH('a)"
  then have "unat (take_bit n (-1) :: 'a word) = take_bit n (mask (LENGTH('a)))"
    by (simp only: unsigned_take_bit_eq unsigned_minus_1_eq_mask)
  also have "\<dots> = mask n"
    using \<open>n \<le> LENGTH('a)\<close> by (intro bit_eqI) (auto simp: bit_simps)
  finally show ?thesis by (simp add: mask_eq_exp_minus_1)
qed

lemma unat_or_mask:
  assumes "n \<le> LENGTH('a)"
  shows "unat (a OR mask n :: 'a::len word) = 2 ^ n * unat (drop_bit n a) + (2 ^ n - 1)"
  by (subst unat_split_bits [of _ n])
     (simp only: drop_bit_or_mask unat_mod_eq_take_bit take_bit_or_mask unat_mask_word assms)

lemma unat_and_netmask:
  "unat (a AND push_bit n (-1) :: 'a::len word) = 2 ^ n * unat (drop_bit n a)"
proof -
  have "drop_bit n (a AND push_bit n (-1)) = drop_bit n a"
    by (rule bit_word_eqI) (auto simp: bit_simps dest: bit_imp_le_length)
  moreover have "take_bit n (a AND push_bit n (-1)) = 0"
    by (rule bit_word_eqI) (auto simp: bit_simps)
  ultimately have "unat (a AND push_bit n (-1)) = 2 ^ n * unat (drop_bit n a) + unat (0 :: 'a word)"
    by (metis unat_split_bits unat_mod_eq_take_bit)
  then show ?thesis by simp
qed

lemma interval_iff_div:
  fixes x y k :: nat
  assumes "0 < k"
  shows "k * (x div k) \<le> y \<and> y \<le> k * (x div k) + (k - 1) \<longleftrightarrow> x div k = y div k"
proof
  assume r: "k * (x div k) \<le> y \<and> y \<le> k * (x div k) + (k - 1)"
  then have "y < k * (x div k) + k" using assms by linarith
  with r assms show "x div k = y div k"
    by (metis div_nat_eqI mult.commute mult_Suc_right add.commute)
next
  assume eq: "x div k = y div k"
  have "k * (y div k) + y mod k = y" by simp
  moreover have "y mod k \<le> k - 1" using mod_less_divisor [OF assms, of y] by linarith
  ultimately have "k * (y div k) \<le> y \<and> y \<le> k * (y div k) + (k - 1)" by linarith
  with eq show "k * (x div k) \<le> y \<and> y \<le> k * (x div k) + (k - 1)" by simp
qed

section \<open>Textual form\<close>

definition ipv4_octet :: "nat \<Rightarrow> u32 \<Rightarrow> nat" where
  "ipv4_octet i ip = (unat ip div 256 ^ i) mod 256"

text \<open>The same arithmetic on the binary integers, for evaluation.\<close>

lemma ipv4_octet_code [code]: "ipv4_octet i ip = nat ((uint ip div 256 ^ i) mod 256)"
proof -
  have "uint ip = int (unat ip)" by simp
  then have "(uint ip div 256 ^ i) mod 256 = int (ipv4_octet i ip)"
    by (simp only: ipv4_octet_def zdiv_int zmod_int of_nat_power of_nat_numeral)
  then show ?thesis by simp
qed

definition ipv4_to_string :: "u32 \<Rightarrow> string" where
  "ipv4_to_string ip =
     dec_string (ipv4_octet 3 ip) @ ''.'' @ dec_string (ipv4_octet 2 ip) @ ''.'' @
     dec_string (ipv4_octet 1 ip) @ ''.'' @ dec_string (ipv4_octet 0 ip)"

text \<open>An octet has one to three digits, no leading zero and a value of at most 255.\<close>

definition parse_octet :: "string \<Rightarrow> nat option" where
  "parse_octet s =
    (if s = [] \<or> 3 < length s \<or> (1 < length s \<and> hd s = CHR ''0'') then None
     else (case parse_digits 0 s of
             None \<Rightarrow> None
           | Some n \<Rightarrow> if n \<le> 255 then Some n else None))"

definition ipv4_from_str :: "string \<Rightarrow> u32 option" where
  "ipv4_from_str s = (case map parse_octet (split_on (CHR ''.'') s) of
      [Some a, Some b, Some c, Some d] \<Rightarrow>
        Some (of_nat (a * 256 ^ 3 + b * 256 ^ 2 + c * 256 + d))
    | _ \<Rightarrow> None)"

lemma ipv4_from_str_code [code]:
  "ipv4_from_str s = (case map parse_octet (split_on (CHR ''.'') s) of
      [Some a, Some b, Some c, Some d] \<Rightarrow>
        Some (word_of_int (int a * 256 ^ 3 + int b * 256 ^ 2 + int c * 256 + int d))
    | _ \<Rightarrow> None)"
proof -
  have "(of_nat (a * 256 ^ 3 + b * 256 ^ 2 + c * 256 + d) :: u32) =
      word_of_int (int a * 256 ^ 3 + int b * 256 ^ 2 + int c * 256 + int d)" for a b c d
    by (simp only: of_nat_add of_nat_mult of_nat_power of_nat_numeral of_int_add of_int_mult
        of_int_power of_int_numeral of_int_of_nat_eq)
  then show ?thesis by (simp only: ipv4_from_str_def)
qed

text \<open>The colon form of IPv6 addresses is a pair of parameters, printer and parser.\<close>

definition ip_to_string :: "(u128 \<Rightarrow> string) \<Rightarrow> ip_addr \<Rightarrow> string" where
  "ip_to_string v6_str a = (case a of V4 ip \<Rightarrow> ipv4_to_string ip | V6 ip \<Rightarrow> v6_str ip)"

definition ip_from_str :: "(string \<Rightarrow> u128 option) \<Rightarrow> string \<Rightarrow> ip_addr option" where
  "ip_from_str v6_parse s = (case ipv4_from_str s of
      Some ip \<Rightarrow> Some (V4 ip)
    | None \<Rightarrow> map_option V6 (v6_parse s))"

definition mask_to_string :: "(u128 \<Rightarrow> string) \<Rightarrow> ip_addr_mask \<Rightarrow> string" where
  "mask_to_string v6_str m = ip_to_string v6_str (address m) @ ''/'' @ dec_string (unat (cidr m))"

text \<open>\<open>impl FromStr for IpAddrMask\<close>; \<open>None\<close> is \<open>IpAddrParseError\<close>.\<close>

definition mask_from_str :: "(string \<Rightarrow> u128 option) \<Rightarrow> string \<Rightarrow> ip_addr_mask option" where
  "mask_from_str v6_parse s = (case split_once (CHR ''/'') s of
      Some (left, right) \<Rightarrow> (case ip_from_str v6_parse left of
          None \<Rightarrow> None
        | Some ip \<Rightarrow> (case parse_unsigned 255 right of
            None \<Rightarrow> None
          | Some c \<Rightarrow>
              if (case ip of V4 _ \<Rightarrow> 32 | V6 _ \<Rightarrow> 128) < c then None
              else Some \<lparr>address = ip, cidr = of_nat c\<rparr>))
    | None \<Rightarrow> (case ip_from_str v6_parse s of
          None \<Rightarrow> None
        | Some ip \<Rightarrow> Some \<lparr>address = ip, cidr = (case ip of V4 _ \<Rightarrow> 32 | V6 _ \<Rightarrow> 128)\<rparr>))"

text \<open>The object form of a deserialised mask: the fields as they come, the last one wins.\<close>

datatype mask_field = AddressField ip_addr | CidrField u8 | OtherField string

fun visit_map :: "ip_addr option \<Rightarrow> u8 option \<Rightarrow> mask_field list \<Rightarrow> string + ip_addr_mask" where
  "visit_map a c (AddressField x # fs) = visit_map (Some x) c fs"
| "visit_map a c (CidrField x # fs) = visit_map a (Some x) fs"
| "visit_map a c (OtherField _ # fs) = visit_map a c fs"
| "visit_map None c [] = Inl ''address''"
| "visit_map (Some a) None [] = Inl ''cidr''"
| "visit_map (Some a) (Some c) [] = Inr \<lparr>address = a, cidr = c\<rparr>"

definition mask_default :: "ip_addr_mask" where
  "mask_default = \<lparr>address = V4 (of_nat (10 * 256 ^ 3)), cidr = 8\<rparr>"

text \<open>What the standard library documents of the IPv6 form: it parses back, it is not a dotted
  quad and it has no slash.\<close>

definition v6_laws :: "(u128 \<Rightarrow> string) \<Rightarrow> (string \<Rightarrow> u128 option) \<Rightarrow> bool" where
  "v6_laws v6_str v6_parse = (\<forall>a. v6_parse (v6_str a) = Some a \<and>
     ipv4_from_str (v6_str a) = None \<and> CHR ''/'' \<notin> set (v6_str a))"

definition cidr_ok :: "ip_addr_mask \<Rightarrow> bool" where
  "cidr_ok m = (cidr m \<le> (case address m of V4 _ \<Rightarrow> 32 | V6 _ \<Rightarrow> 128))"

lemma digit_char_0: "digit_char 0 = CHR ''0''"
  by code_simp

lemma parse_octet_dec_string:
  assumes "n \<le> 255"
  shows "parse_octet (dec_string n) = Some n"
proof -
  have len: "length (dec_string n) \<le> 3"
    using length_dec_string_le [of n 3] assms by simp
  have "\<not> (1 < length (dec_string n) \<and> hd (dec_string n) = CHR ''0'')"
  proof (cases "n = 0")
    case True
    then show ?thesis by (simp add: dec_string.simps)
  next
    case False
    then show ?thesis using dec_string_head_nonzero [of n] by (simp add: digit_char_0)
  qed
  with len assms show ?thesis by (simp add: parse_octet_def parse_digits_dec_string)
qed

lemma split_on_no: "c \<notin> set s \<Longrightarrow> split_on c s = [s]"
  by (induction s) auto

lemma split_on_append: "c \<notin> set a \<Longrightarrow> split_on c (a @ c # b) = a # split_on c b"
  by (induction a) auto

lemma split_on_ipv4:
  "split_on (CHR ''.'') (ipv4_to_string ip) =
     map dec_string [ipv4_octet 3 ip, ipv4_octet 2 ip, ipv4_octet 1 ip, ipv4_octet 0 ip]"
  by (simp add: ipv4_to_string_def split_on_append split_on_no dec_string_no)

lemma ipv4_octets_sum:
  "ipv4_octet 3 ip * 256 ^ 3 + ipv4_octet 2 ip * 256 ^ 2 + ipv4_octet 1 ip * 256 + ipv4_octet 0 ip
     = unat ip"
proof -
  let ?n = "unat ip"
  have d: "?n div 256 ^ 2 = ?n div 256 div 256" "?n div 256 ^ 3 = ?n div 256 div 256 div 256"
    by (simp_all add: div_mult2_eq [symmetric])
  have "?n div 256 ^ 3 < 256"
    using unat_bound [of ip] by (simp add: div_less_iff_less_mult)
  then have top: "ipv4_octet 3 ip = ?n div 256 div 256 div 256"
    by (simp add: ipv4_octet_def d)
  have "256 * (?n div 256) + ?n mod 256 = ?n"
    and "256 * (?n div 256 div 256) + ?n div 256 mod 256 = ?n div 256"
    and "256 * (?n div 256 div 256 div 256) + ?n div 256 div 256 mod 256 = ?n div 256 div 256"
    by simp_all
  moreover have "ipv4_octet 2 ip = ?n div 256 div 256 mod 256"
    by (simp only: ipv4_octet_def d)
  moreover have "ipv4_octet 1 ip = ?n div 256 mod 256" and "ipv4_octet 0 ip = ?n mod 256"
    by (simp_all add: ipv4_octet_def)
  ultimately show ?thesis using top by (simp only: power3_eq_cube power2_eq_square)
qed

lemma ipv4_from_to: "ipv4_from_str (ipv4_to_string ip) = Some ip"
proof -
  have oct: "parse_octet (dec_string (ipv4_octet i ip)) = Some (ipv4_octet i ip)" for i
  proof (rule parse_octet_dec_string)
    have "ipv4_octet i ip < 256" by (simp add: ipv4_octet_def)
    then show "ipv4_octet i ip \<le> 255" by simp
  qed
  then have "ipv4_from_str (ipv4_to_string ip) = Some (of_nat (ipv4_octet 3 ip * 256 ^ 3
      + ipv4_octet 2 ip * 256 ^ 2 + ipv4_octet 1 ip * 256 + ipv4_octet 0 ip))"
    by (simp only: ipv4_from_str_def split_on_ipv4 list.map) simp
  then show ?thesis by (simp only: ipv4_octets_sum) simp
qed

lemma ipv4_no_slash: "CHR ''/'' \<notin> set (ipv4_to_string ip)"
  by (simp add: ipv4_to_string_def dec_string_no)

lemma ip_from_to:
  assumes "v6_laws v6_str v6_parse"
  shows "ip_from_str v6_parse (ip_to_string v6_str a) = Some a"
  using assms by (cases a) (auto simp: ip_from_str_def ip_to_string_def ipv4_from_to v6_laws_def)

lemma ip_no_slash: "v6_laws v6_str v6_parse \<Longrightarrow> CHR ''/'' \<notin> set (ip_to_string v6_str a)"
  by (cases a) (auto simp: ip_to_string_def ipv4_no_slash v6_laws_def)

lemma mask_from_to:
  assumes "v6_laws v6_str v6_parse" and "cidr_ok m"
  shows "mask_from_str v6_parse (mask_to_string v6_str m) = Some m"
proof -
  have c: "unat (cidr m) \<le> 255" using unat_bound [of "cidr m"] by simp
  have split: "split_once (CHR ''/'') (mask_to_string v6_str m) =
      Some (ip_to_string v6_str (address m), dec_string (unat (cidr m)))"
    by (simp add: mask_to_string_def split_once_append ip_no_slash [OF assms(1)])
  have ok: "\<not> (case address m of V4 _ \<Rightarrow> 32 | V6 _ \<Rightarrow> 128) < unat (cidr m)"
    using assms(2) by (cases "address m") (simp_all add: cidr_ok_def word_le_nat_alt)
  show ?thesis
    using ok by (simp add: mask_from_str_def split ip_from_to [OF assms(1)]
        parse_unsigned_dec_string [OF c])
qed

text \<open>Every mask that parses has a prefix length in range; the object form does not check it.\<close>

lemma mask_from_str_cidr_ok: "mask_from_str v6_parse s = Some m \<Longrightarrow> cidr_ok m"
proof -
  assume a: "mask_from_str v6_parse s = Some m"
  have w: "n \<le> k \<Longrightarrow> k < 256 \<Longrightarrow> (of_nat n :: u8) \<le> of_nat k" for n k
    by (simp add: word_le_nat_alt unat_of_nat)
  from a show ?thesis
    using w [of _ 32] w [of _ 128]
    by (auto simp: mask_from_str_def cidr_ok_def split: option.splits if_splits prod.splits ip_addr.splits)
qed

section \<open>Keys\<close>

text \<open>\<open>Keys::derive_pubkey\<close>. Base64 and the X25519 base point multiplication are parameters; a
  base64 error carries the crate's message.\<close>

definition derive_pubkey ::
    "(string \<Rightarrow> string + u8 list) \<Rightarrow> (u8 list \<Rightarrow> string) \<Rightarrow> (u8 list \<Rightarrow> u8 list) \<Rightarrow> string
     \<Rightarrow> error + string" where
  "derive_pubkey b64_decode b64_encode x25519 private_key =
    (case b64_decode private_key of
       Inl e \<Rightarrow> Inl (Custom (''invalid base64 private key: '' @ e))
     | Inr bytes \<Rightarrow>
         if length bytes \<noteq> 32 then Inl (Custom ''Private key must be exactly 32 bytes'')
         else Inr (b64_encode (x25519 bytes)))"

definition pubkey ::
    "(string \<Rightarrow> string + u8 list) \<Rightarrow> (u8 list \<Rightarrow> string) \<Rightarrow> (u8 list \<Rightarrow> u8 list) \<Rightarrow> wg_keys
     \<Rightarrow> error + string" where
  "pubkey b64_decode b64_encode x25519 k = derive_pubkey b64_decode b64_encode x25519 (privkey k)"

end
