(* ===== verification/Conn.thy ===== *)
theory Conn
  imports Tags Addresses
begin

text \<open>
  Connections (\<open>memory/connection/{proto,conn,base}.rs\<close>), the accessors both connection types
  implement (\<open>operation/{base,api}.rs\<close>) as an interface with two implementations, and the
  messages a connection is announced by (\<open>zmq/message.rs\<close>).
\<close>

section \<open>Protocol parameters\<close>

datatype proto =
    ProtoWireguard wg_param
  | ProtoShadowsocks string
  | ProtoXray proto_tag
  | ProtoHysteria2 uuid
  | ProtoMtproto string

fun proto_tag_of :: "proto \<Rightarrow> proto_tag" where
  "proto_tag_of (ProtoWireguard _) = Wireguard"
| "proto_tag_of (ProtoShadowsocks _) = Shadowsocks"
| "proto_tag_of (ProtoHysteria2 _) = Hysteria2"
| "proto_tag_of (ProtoXray tag) = tag"
| "proto_tag_of (ProtoMtproto _) = Mtproto"

fun proto_token :: "proto \<Rightarrow> uuid option" where
  "proto_token (ProtoHysteria2 token) = Some token"
| "proto_token _ = None"

fun proto_password :: "proto \<Rightarrow> string option" where
  "proto_password (ProtoShadowsocks password) = Some password"
| "proto_password _ = None"

fun proto_wireguard :: "proto \<Rightarrow> wg_param option" where
  "proto_wireguard (ProtoWireguard param) = Some param"
| "proto_wireguard _ = None"

fun is_mtproto :: "proto \<Rightarrow> bool" where
  "is_mtproto (ProtoMtproto _) = True"
| "is_mtproto _ = False"

definition pw_error :: error where
  "pw_error = Custom ''Password update failed: not a Shadowsocks connection''"

section \<open>The two connection types\<close>

record conn =
  c_env :: env
  c_proto :: proto
  c_subscription_id :: "uuid option"
  c_created_at :: datetime
  c_modified_at :: datetime
  c_expires_at :: "datetime option"
  c_is_deleted :: bool

record base =
  b_created_at :: datetime
  b_modified_at :: datetime
  b_expires_at :: "datetime option"
  b_proto :: proto
  b_subscription_id :: "uuid option"
  b_is_deleted :: bool

record conn_patch =
  p_env :: "env option"
  p_proto :: "proto option"
  p_subscription_id :: "uuid option"
  p_created_at :: "datetime option"
  p_modified_at :: "datetime option"
  p_expires_at :: "datetime option"
  p_is_deleted :: "bool option"

text \<open>\<open>Conn::new\<close> and \<open>Base::new\<close>; \<open>now\<close> is what \<open>Utc::now()\<close> returns.\<close>

definition conn_new :: "datetime \<Rightarrow> env \<Rightarrow> uuid option \<Rightarrow> proto \<Rightarrow> datetime option \<Rightarrow> conn" where
  "conn_new now e sub p expires = \<lparr>c_env = e, c_proto = p, c_subscription_id = sub,
     c_created_at = now, c_modified_at = now, c_expires_at = expires, c_is_deleted = False\<rparr>"

definition base_new :: "datetime \<Rightarrow> proto \<Rightarrow> datetime option \<Rightarrow> uuid option \<Rightarrow> base" where
  "base_new now p expires sub = \<lparr>b_created_at = now, b_modified_at = now, b_expires_at = expires,
     b_proto = p, b_subscription_id = sub, b_is_deleted = False\<rparr>"

definition base_of_conn :: "conn \<Rightarrow> base" where
  "base_of_conn c = \<lparr>b_created_at = c_created_at c, b_modified_at = c_modified_at c,
     b_expires_at = c_expires_at c, b_proto = c_proto c,
     b_subscription_id = c_subscription_id c, b_is_deleted = c_is_deleted c\<rparr>"

text \<open>\<open>impl PartialEq for Conn\<close>: timestamps do not count.\<close>

definition conn_eq :: "conn \<Rightarrow> conn \<Rightarrow> bool" where
  "conn_eq a b = (c_subscription_id a = c_subscription_id b \<and> c_proto a = c_proto b \<and>
     c_is_deleted a = c_is_deleted b \<and> c_env a = c_env b \<and> c_is_deleted a = c_is_deleted b)"

lemma conn_eq_equiv: "equivp conn_eq"
  by (rule equivpI) (auto simp: reflp_def symp_def transp_def conn_eq_def)

section \<open>The accessor interface\<close>

text \<open>
  \<open>trait Operations\<close> of \<open>operation/base.rs\<close>: what the storage and the agents rely on, whichever
  connection type they hold. Every getter reads what the last setter of its field wrote and no
  setter touches another field; the protocol's parameters are read off the protocol value.
\<close>

locale conn_ops =
  fixes get_modified_at :: "'c \<Rightarrow> datetime"
    and set_modified_at :: "datetime \<Rightarrow> 'c \<Rightarrow> 'c"
    and get_expires_at :: "'c \<Rightarrow> datetime option"
    and set_expires_at :: "datetime option \<Rightarrow> 'c \<Rightarrow> 'c"
    and get_proto :: "'c \<Rightarrow> proto"
    and set_proto :: "proto \<Rightarrow> 'c \<Rightarrow> 'c"
    and get_deleted :: "'c \<Rightarrow> bool"
    and set_deleted :: "bool \<Rightarrow> 'c \<Rightarrow> 'c"
    and set_password :: "string option \<Rightarrow> 'c \<Rightarrow> error + 'c"
  assumes get_set:
      "get_modified_at (set_modified_at t c) = t" "get_expires_at (set_expires_at x c) = x"
      "get_proto (set_proto p c) = p" "get_deleted (set_deleted d c) = d"
    and frame:
      "get_proto (set_modified_at t c) = get_proto c" "get_proto (set_expires_at x c) = get_proto c"
      "get_proto (set_deleted d c) = get_proto c"
      "get_deleted (set_modified_at t c) = get_deleted c"
      "get_deleted (set_expires_at x c) = get_deleted c" "get_deleted (set_proto p c) = get_deleted c"
      "get_expires_at (set_modified_at t c) = get_expires_at c"
      "get_expires_at (set_deleted d c) = get_expires_at c"
      "get_expires_at (set_proto p c) = get_expires_at c"
      "get_modified_at (set_expires_at x c) = get_modified_at c"
      "get_modified_at (set_deleted d c) = get_modified_at c"
      "get_modified_at (set_proto p c) = get_modified_at c"
    and set_password_spec: "set_password pw c =
      (case (get_proto c, pw) of
         (ProtoShadowsocks _, Some new_pw) \<Rightarrow> Inr (set_proto (ProtoShadowsocks new_pw) c)
       | _ \<Rightarrow> Inl pw_error)"
begin

text \<open>Marking a connection, as deletion and restoration do, leaves its protocol and expiry.\<close>

lemma mark_spec:
  "get_deleted (set_modified_at t (set_deleted d c)) = d"
  "get_proto (set_modified_at t (set_deleted d c)) = get_proto c"
  "get_expires_at (set_modified_at t (set_deleted d c)) = get_expires_at c"
  "get_modified_at (set_modified_at t (set_deleted d c)) = t"
  by (simp_all add: get_set frame)

lemma set_password_Inr:
  assumes "set_password pw c = Inr c'"
  shows "pw \<noteq> None \<and> proto_password (get_proto c') = pw \<and> proto_password (get_proto c) \<noteq> None
     \<and> get_deleted c' = get_deleted c"
  using assms by (auto simp: set_password_spec get_set frame split: proto.splits option.splits)

lemma set_password_Inl_iff:
  "set_password pw c = Inl e \<longleftrightarrow> e = pw_error \<and> (pw = None \<or> proto_password (get_proto c) = None)"
  by (cases "get_proto c"; cases pw) (auto simp: set_password_spec)

end

definition base_set_password :: "string option \<Rightarrow> base \<Rightarrow> error + base" where
  "base_set_password pw b = (case (b_proto b, pw) of
      (ProtoShadowsocks _, Some new_pw) \<Rightarrow> Inr (b\<lparr>b_proto := ProtoShadowsocks new_pw\<rparr>)
    | _ \<Rightarrow> Inl pw_error)"

definition conn_set_password :: "string option \<Rightarrow> conn \<Rightarrow> error + conn" where
  "conn_set_password pw c = (case (c_proto c, pw) of
      (ProtoShadowsocks _, Some new_pw) \<Rightarrow> Inr (c\<lparr>c_proto := ProtoShadowsocks new_pw\<rparr>)
    | _ \<Rightarrow> Inl pw_error)"

definition base_set_modified_at :: "datetime \<Rightarrow> base \<Rightarrow> base" where
  "base_set_modified_at now b = b\<lparr>b_modified_at := now\<rparr>"

definition base_set_expires_at :: "datetime option \<Rightarrow> base \<Rightarrow> base" where
  "base_set_expires_at dt b = b\<lparr>b_expires_at := dt\<rparr>"

definition base_set_proto :: "proto \<Rightarrow> base \<Rightarrow> base" where
  "base_set_proto p b = b\<lparr>b_proto := p\<rparr>"

definition base_set_deleted :: "bool \<Rightarrow> base \<Rightarrow> base" where
  "base_set_deleted v b = b\<lparr>b_is_deleted := v\<rparr>"

definition set_modified_at :: "datetime \<Rightarrow> conn \<Rightarrow> conn" where
  "set_modified_at now c = c\<lparr>c_modified_at := now\<rparr>"

definition set_expires_at :: "datetime option \<Rightarrow> conn \<Rightarrow> conn" where
  "set_expires_at dt c = c\<lparr>c_expires_at := dt\<rparr>"

definition set_proto :: "proto \<Rightarrow> conn \<Rightarrow> conn" where
  "set_proto p c = c\<lparr>c_proto := p\<rparr>"

definition set_deleted :: "bool \<Rightarrow> conn \<Rightarrow> conn" where
  "set_deleted v c = c\<lparr>c_is_deleted := v\<rparr>"

definition set_subscription_id :: "uuid \<Rightarrow> conn \<Rightarrow> conn" where
  "set_subscription_id s c = c\<lparr>c_subscription_id := Some s\<rparr>"

definition set_env :: "env \<Rightarrow> conn \<Rightarrow> conn" where
  "set_env e c = c\<lparr>c_env := e\<rparr>"

lemmas setter_defs [ops_simps] =
  base_set_modified_at_def base_set_expires_at_def base_set_proto_def base_set_deleted_def
  set_modified_at_def set_expires_at_def set_proto_def set_deleted_def
  set_subscription_id_def set_env_def

interpretation base_ops: conn_ops b_modified_at base_set_modified_at b_expires_at
  base_set_expires_at b_proto base_set_proto b_is_deleted base_set_deleted base_set_password
  by unfold_locales (simp_all add: ops_simps base_set_password_def split: proto.split option.split)

interpretation api_ops: conn_ops c_modified_at set_modified_at c_expires_at
  set_expires_at c_proto set_proto c_is_deleted set_deleted conn_set_password
  by unfold_locales (simp_all add: ops_simps conn_set_password_def split: proto.split option.split)

section \<open>Messages\<close>

text \<open>\<open>RkyvDateTime\<close>: whole seconds and the nanoseconds within the second.\<close>

record rkyv_datetime =
  rk_timestamp :: int
  rk_nanos :: nat

definition rkyv_of_datetime :: "datetime \<Rightarrow> rkyv_datetime" where
  "rkyv_of_datetime dt = \<lparr>rk_timestamp = dt div 10 ^ 9, rk_nanos = nat (dt mod 10 ^ 9)\<rparr>"

text \<open>\<open>DateTime::from_timestamp(..).expect(..)\<close>: chrono's constructor is a parameter, \<open>None\<close>
  where the source panics.\<close>

definition datetime_of_rkyv ::
    "(int \<Rightarrow> nat \<Rightarrow> datetime option) \<Rightarrow> rkyv_datetime \<Rightarrow> datetime option" where
  "datetime_of_rkyv from_timestamp r = from_timestamp (rk_timestamp r) (rk_nanos r)"

datatype action = Create | Update | Delete | ResetStat

record message =
  m_conn_id :: uuid
  m_action :: action
  m_tag :: proto_tag
  m_wg :: "wg_param option"
  m_password :: "string option"
  m_token :: "uuid option"
  m_expires_at :: "rkyv_datetime option"
  m_subscription_id :: "uuid option"

definition as_create_message :: "conn \<Rightarrow> uuid \<Rightarrow> message" where
  "as_create_message c conn_id = \<lparr>m_conn_id = conn_id, m_action = Create,
     m_tag = proto_tag_of (c_proto c), m_wg = proto_wireguard (c_proto c),
     m_password = proto_password (c_proto c), m_token = proto_token (c_proto c),
     m_expires_at = map_option rkyv_of_datetime (c_expires_at c),
     m_subscription_id = c_subscription_id c\<rparr>"

definition as_update_message :: "conn \<Rightarrow> uuid \<Rightarrow> message" where
  "as_update_message c conn_id = \<lparr>m_conn_id = conn_id, m_action = Update,
     m_tag = proto_tag_of (c_proto c), m_wg = proto_wireguard (c_proto c),
     m_password = proto_password (c_proto c), m_token = proto_token (c_proto c),
     m_expires_at = map_option rkyv_of_datetime (c_expires_at c),
     m_subscription_id = c_subscription_id c\<rparr>"

definition as_delete_message :: "conn \<Rightarrow> uuid \<Rightarrow> message" where
  "as_delete_message c conn_id = \<lparr>m_conn_id = conn_id, m_action = Delete,
     m_tag = proto_tag_of (c_proto c), m_wg = proto_wireguard (c_proto c),
     m_password = proto_password (c_proto c), m_token = proto_token (c_proto c),
     m_expires_at = map_option rkyv_of_datetime (c_expires_at c),
     m_subscription_id = c_subscription_id c\<rparr>"

lemmas message_defs [ops_simps] = as_create_message_def as_update_message_def as_delete_message_def

text \<open>What chrono documents: the two parts of a representable instant give it back.\<close>

definition timestamp_laws :: "(int \<Rightarrow> nat \<Rightarrow> datetime option) \<Rightarrow> bool" where
  "timestamp_laws from_timestamp = (\<forall>secs nanos. nanos < 10 ^ 9 \<longrightarrow>
     from_timestamp secs nanos = None \<or> from_timestamp secs nanos = Some (secs * 10 ^ 9 + int nanos))"

lemma rkyv_datetime_parts: "rk_timestamp (rkyv_of_datetime dt) * 10 ^ 9 + int (rk_nanos (rkyv_of_datetime dt)) = dt"
  by (simp add: rkyv_of_datetime_def)

lemma datetime_rkyv_roundtrip:
  assumes "timestamp_laws ft" and "datetime_of_rkyv ft (rkyv_of_datetime dt) \<noteq> None"
  shows "datetime_of_rkyv ft (rkyv_of_datetime dt) = Some dt"
proof -
  let ?r = "rkyv_of_datetime dt"
  have "rk_nanos ?r < 10 ^ 9"
    by (simp add: rkyv_of_datetime_def nat_less_iff)
  with assms(1) have "datetime_of_rkyv ft ?r = None \<or>
      datetime_of_rkyv ft ?r = Some (rk_timestamp ?r * 10 ^ 9 + int (rk_nanos ?r))"
    unfolding timestamp_laws_def datetime_of_rkyv_def by blast
  with assms(2) show ?thesis by (simp only: rkyv_datetime_parts) simp
qed

end
