(* ===== verification/ConnStore.thy ===== *)
theory ConnStore
  imports Conn
begin

text \<open>
  The connection storage (\<open>memory/storage/connection.rs\<close>) with its result type
  (\<open>memory/storage/mod.rs\<close>): the operations every holder of connections has and those of the
  API server, on a hash map from identifiers to connections of either type.
\<close>

section \<open>Operation status\<close>

datatype status =
    AlreadyExist uuid
  | NotModified uuid
  | Updated uuid
  | UpdatedStat uuid
  | NotFound uuid
  | BadRequest uuid string
  | Ok uuid
  | DeletedPreviously uuid

type_synonym 'c connections = "(uuid, 'c) hmap"

section \<open>Operations of every storage\<close>

definition conns_add :: "uuid \<Rightarrow> 'c \<Rightarrow> 'c connections \<Rightarrow> status \<times> 'c connections" where
  "conns_add conn_id new_conn m = (case hm_get m conn_id of
      Some _ \<Rightarrow> (AlreadyExist conn_id, m)
    | None \<Rightarrow> (Ok conn_id, hm_insert conn_id new_conn m))"

definition conns_remove :: "uuid \<Rightarrow> 'c connections \<Rightarrow> (error + unit) \<times> 'c connections" where
  "conns_remove conn_id m = (case hm_get m conn_id of
      Some _ \<Rightarrow> (Inr (), hm_remove conn_id m)
    | None \<Rightarrow> (Inl (Custom ''Conn not found''), m))"

text \<open>\<open>validate_token\<close>, over any connection type with a protocol.\<close>

definition validate_token :: "('c \<Rightarrow> proto) \<Rightarrow> uuid \<Rightarrow> 'c connections \<Rightarrow> uuid option" where
  "validate_token get_proto token m =
     map_option fst (List.find (\<lambda>(_, c). get_proto c = ProtoHysteria2 token) m)"

lemma conns_add_get:
  "hm_get (snd (conns_add i c m)) j =
    (if j = i \<and> hm_get m i = None then Some c else hm_get m j)"
  by (simp add: conns_add_def split: option.splits)

lemma conns_add_wf [simp]: "hm_wf m \<Longrightarrow> hm_wf (snd (conns_add i c m))"
  by (simp add: conns_add_def split: option.splits)

lemma conns_add_dom: "dom (hm_get (snd (conns_add i c m))) = insert i (dom (hm_get m))"
  by (auto simp: conns_add_def split: option.splits)

lemma conns_remove_get: "hm_get (snd (conns_remove i m)) j = (if j = i then None else hm_get m j)"
  by (auto simp: conns_remove_def split: option.splits)

lemma conns_remove_wf [simp]: "hm_wf m \<Longrightarrow> hm_wf (snd (conns_remove i m))"
  by (simp add: conns_remove_def split: option.splits)

lemma validate_token_Some:
  assumes "hm_wf m" and "validate_token gp t m = Some i"
  shows "\<exists>c. hm_get m i = Some c \<and> gp c = ProtoHysteria2 t"
  using assms by (auto simp: validate_token_def dest!: hm.find_SomeD [OF assms(1)])

lemma validate_token_None:
  assumes "hm_wf m"
  shows "validate_token gp t m = None \<longleftrightarrow> (\<forall>i c. hm_get m i = Some c \<longrightarrow> gp c \<noteq> ProtoHysteria2 t)"
  using hm.find_None_iff [OF assms, of "\<lambda>(_, c). gp c = ProtoHysteria2 t"]
  by (simp add: validate_token_def)

section \<open>Operations of the API server's storage\<close>

text \<open>One field of a patch: \<open>if let Some(v) = field { if conn has another value { set; changed =
  true } }\<close>.\<close>

definition patch_field ::
    "'a option \<Rightarrow> ('a \<Rightarrow> conn \<Rightarrow> bool) \<Rightarrow> ('a \<Rightarrow> conn \<Rightarrow> conn) \<Rightarrow> conn \<times> bool \<Rightarrow> conn \<times> bool" where
  "patch_field field same set_value st = (case field of
      None \<Rightarrow> st
    | Some v \<Rightarrow> if same v (fst st) then st else (set_value v (fst st), True))"

text \<open>The four fields in the source's order, and \<open>apply_update\<close>, which works on a connection in
  place: the result is the connection afterwards and what the call returns.\<close>

definition patch_fields :: "conn_patch \<Rightarrow> conn \<Rightarrow> conn \<times> bool" where
  "patch_fields patch c =
    (let st = patch_field (p_is_deleted patch) (\<lambda>d c. c_is_deleted c = d) set_deleted (c, False);
         st = patch_field (p_env patch) (\<lambda>e c. c_env c = e) set_env st;
         st = patch_field (p_expires_at patch) (\<lambda>x c. c_expires_at c = Some x)
                (\<lambda>x. set_expires_at (Some x)) st
     in patch_field (p_subscription_id patch) (\<lambda>s c. c_subscription_id c = Some s)
          set_subscription_id st)"

definition apply_update :: "datetime \<Rightarrow> conn \<Rightarrow> conn_patch \<Rightarrow> conn \<times> conn option" where
  "apply_update now c patch =
    (if p_is_deleted patch = None \<and> c_is_deleted c then (c, None)
     else if (case p_proto patch of Some p \<Rightarrow> c_proto c \<noteq> p | None \<Rightarrow> False) then (c, None)
     else if proto_password (c_proto c) \<noteq> None \<and>
        proto_tag_of (c_proto c) \<noteq> Shadowsocks \<and> p_proto patch \<noteq> None then (c, None)
     else (case patch_fields patch c of (c', changed) \<Rightarrow>
       if changed then (set_modified_at now c', Some (set_modified_at now c')) else (c', None)))"

definition get_by_subscription_id :: "uuid \<Rightarrow> conn connections \<Rightarrow> (uuid \<times> conn) list option" where
  "get_by_subscription_id sub_id m =
    (let conns = filter (\<lambda>(_, c). c_subscription_id c = Some sub_id) m in
     if conns = [] then None else Some conns)"

definition get_by_proto :: "proto_tag \<Rightarrow> conn connections \<Rightarrow> (uuid \<times> conn) list option" where
  "get_by_proto tag m =
    (let conns = filter (\<lambda>(_, c). proto_tag_of (c_proto c) = tag) m in
     if conns = [] then None else Some conns)"

text \<open>The key of \<open>max_by_key\<close> in \<open>get_last_wg_addr\<close>, and \<open>Iterator::max_by_key\<close> itself: the
  last of the maximal elements.\<close>

definition wg_key :: "conn \<Rightarrow> u32" where
  "wg_key c = (case proto_wireguard (c_proto c) of
      Some wg \<Rightarrow> (case address (wg_address wg) of V4 ip \<Rightarrow> ip | V6 _ \<Rightarrow> 0)
    | None \<Rightarrow> 0)"

fun max_by_key :: "('a \<Rightarrow> 'k::linorder) \<Rightarrow> 'a list \<Rightarrow> 'a option" where
  "max_by_key f [] = None"
| "max_by_key f (x # xs) = (case max_by_key f xs of
     None \<Rightarrow> Some x
   | Some y \<Rightarrow> if f x \<le> f y then Some y else Some x)"

definition get_last_wg_addr :: "conn connections \<Rightarrow> ip_addr_mask option" where
  "get_last_wg_addr m =
    (case max_by_key (\<lambda>(_, c). wg_key c) (filter (\<lambda>(_, c). proto_tag_of (c_proto c) = Wireguard) m) of
       None \<Rightarrow> None
     | Some (_, c) \<Rightarrow> map_option wg_address (proto_wireguard (c_proto c)))"

subsection \<open>Updating\<close>

lemma patch_field_unchanged:
  "\<not> snd (patch_field f sm st x) \<Longrightarrow> patch_field f sm st x = x"
  by (auto simp: patch_field_def split: option.splits if_splits)

lemma patch_field_keeps:
  "(\<And>v c. g (st v c) = g c) \<Longrightarrow> g (fst (patch_field f sm st x)) = g (fst x)"
  by (auto simp: patch_field_def split: option.splits)

lemma patch_field_sets:
  "(\<And>v c. sm v (st v c)) \<Longrightarrow> f = Some v \<Longrightarrow> sm v (fst (patch_field f sm st x))"
  by (auto simp: patch_field_def)

lemma patch_fields_unchanged: "\<not> snd (patch_fields patch c) \<Longrightarrow> patch_fields patch c = (c, False)"
  unfolding patch_fields_def Let_def by (metis patch_field_unchanged)

lemma patch_fields_frame:
  "c_proto (fst (patch_fields patch c)) = c_proto c"
  "c_created_at (fst (patch_fields patch c)) = c_created_at c"
  by (simp_all add: patch_fields_def Let_def ops_simps patch_field_keeps [of c_proto]
      patch_field_keeps [of c_created_at])

text \<open>Each field of the result is the patch's value where the patch has one.\<close>

lemma patch_fields_value:
  "c_is_deleted (fst (patch_fields patch c)) = case_option (c_is_deleted c) id (p_is_deleted patch)"
  "c_env (fst (patch_fields patch c)) = case_option (c_env c) id (p_env patch)"
  "c_expires_at (fst (patch_fields patch c)) = case_option (c_expires_at c) Some (p_expires_at patch)"
  "c_subscription_id (fst (patch_fields patch c)) =
     case_option (c_subscription_id c) Some (p_subscription_id patch)"
  unfolding patch_fields_def Let_def patch_field_def ops_simps
  by (auto split: option.splits)

lemma apply_update_None: "apply_update now c patch = (c', None) \<Longrightarrow> c' = c"
  using patch_fields_unchanged [of patch c]
  by (auto simp: apply_update_def split: if_splits prod.splits)

lemma apply_update_Some:
  "apply_update now c patch = (c', Some r) \<Longrightarrow>
     r = c' \<and> c' = set_modified_at now (fst (patch_fields patch c))"
  by (auto simp: apply_update_def split: if_splits prod.splits)

lemma apply_update_frame:
  "c_proto (fst (apply_update now c patch)) = c_proto c"
  "c_created_at (fst (apply_update now c patch)) = c_created_at c"
  using patch_fields_frame [of patch c]
  by (auto simp: apply_update_def set_modified_at_def split: prod.splits)

subsection \<open>Selection\<close>

lemma get_by_subscription_id_Some:
  assumes "hm_wf m" and "get_by_subscription_id s m = Some cs"
  shows "(i, c) \<in> set cs \<longleftrightarrow> hm_get m i = Some c \<and> c_subscription_id c = Some s"
  using assms hm.filter_entries_iff [OF assms(1), of i c "\<lambda>(_, c). c_subscription_id c = Some s"]
  by (auto simp: get_by_subscription_id_def Let_def split: if_splits)

lemma get_by_subscription_id_distinct:
  "hm_wf m \<Longrightarrow> get_by_subscription_id s m = Some cs \<Longrightarrow> distinct (map fst cs)"
  by (auto simp: get_by_subscription_id_def Let_def hm.distinct_filter_entries split: if_splits)

lemma get_by_subscription_id_None:
  assumes "hm_wf m"
  shows "get_by_subscription_id s m = None \<longleftrightarrow>
    (\<forall>i c. hm_get m i = Some c \<longrightarrow> c_subscription_id c \<noteq> Some s)"
  using assms by (auto simp: get_by_subscription_id_def Let_def filter_empty_conv map_of_eq_Some_iff)

lemma max_by_key_mem: "max_by_key f xs = Some x \<Longrightarrow> x \<in> set xs"
  by (induction xs arbitrary: x) (auto split: option.splits if_splits)

lemma max_by_key_None: "max_by_key f xs = None \<longleftrightarrow> xs = []"
  by (cases xs) (auto split: option.splits)

lemma max_by_key_max: "max_by_key f xs = Some x \<Longrightarrow> y \<in> set xs \<Longrightarrow> f y \<le> f x"
proof (induction xs arbitrary: x)
  case (Cons a xs)
  show ?case
  proof (cases "max_by_key f xs")
    case None
    with Cons.prems show ?thesis by (simp add: max_by_key_None)
  next
    case (Some z)
    with Cons.IH have "y \<in> set xs \<Longrightarrow> f y \<le> f z" by blast
    with Cons.prems Some show ?thesis by (auto split: if_splits)
  qed
qed simp

text \<open>Where the connections tagged as WireGuard carry its parameters, the last WireGuard address
  is an upper bound of all IPv4 addresses in use, and absent only when there is no WireGuard
  connection.\<close>

definition conns_wg_ok :: "conn connections \<Rightarrow> bool" where
  "conns_wg_ok m = (\<forall>(_, c) \<in> set m.
     proto_tag_of (c_proto c) = Wireguard \<longrightarrow> proto_wireguard (c_proto c) \<noteq> None)"

lemma get_last_wg_addr_None:
  assumes "conns_wg_ok m"
  shows "get_last_wg_addr m = None \<longleftrightarrow> (\<forall>(_, c) \<in> set m. proto_wireguard (c_proto c) = None)"
proof -
  let ?ws = "filter (\<lambda>(_, c). proto_tag_of (c_proto c) = Wireguard) m"
  have tag: "proto_tag_of (c_proto c) = Wireguard \<longleftrightarrow> proto_wireguard (c_proto c) \<noteq> None"
    if "(i, c) \<in> set m" for i c
    using that assms by (cases "c_proto c") (auto simp: conns_wg_ok_def)
  show ?thesis
  proof (cases "max_by_key (\<lambda>(_, c). wg_key c) ?ws")
    case None
    then have "?ws = []" by (simp add: max_by_key_None)
    with None tag show ?thesis
      by (fastforce simp: get_last_wg_addr_def filter_empty_conv)
  next
    case (Some x)
    then have "x \<in> set ?ws" by (rule max_by_key_mem)
    with Some tag show ?thesis
      by (fastforce simp: get_last_wg_addr_def split: prod.splits)
  qed
qed

lemma get_last_wg_addr_bound:
  assumes "get_last_wg_addr m = Some a" and "(i, c) \<in> set m"
    and "proto_wireguard (c_proto c) = Some w" and "as_ipv4 (wg_address w) = Some ip"
  shows "ip \<le> (case as_ipv4 a of Some l \<Rightarrow> l | None \<Rightarrow> 0)"
proof -
  let ?ws = "filter (\<lambda>(_, c). proto_tag_of (c_proto c) = Wireguard) m"
  from assms(3) have pc: "c_proto c = ProtoWireguard w" by (cases "c_proto c") auto
  with assms(2) have "(i, c) \<in> set ?ws" by auto
  moreover from assms(1) obtain j d where
      mx: "max_by_key (\<lambda>(_, c). wg_key c) ?ws = Some (j, d)"
      and a: "map_option wg_address (proto_wireguard (c_proto d)) = Some a"
    by (auto simp: get_last_wg_addr_def split: option.splits)
  ultimately have "wg_key c \<le> wg_key d"
    using max_by_key_max [OF mx, of "(i, c)"] by simp
  moreover have "wg_key c = ip"
    using assms(4) pc by (auto simp: wg_key_def as_ipv4_def split: ip_addr.splits)
  moreover have "wg_key d = (case as_ipv4 a of Some l \<Rightarrow> l | None \<Rightarrow> 0)"
    using a by (auto simp: wg_key_def as_ipv4_def split: ip_addr.splits)
  ultimately show ?thesis by simp
qed

end
