(* ===== verification/Upsert.thy ===== *)
theory Upsert
  imports ConnStore
begin

text \<open>
  The contract the subscription storage and the node storage share: \<open>add\<close> stores a value under
  the key it carries, replaces a different value and reports which of the three cases it was.
  What the callers need of it, adding twice and loading a list, is proved here once.
\<close>

locale upsert_store =
  fixes key :: "'v \<Rightarrow> 'k"
    and ident :: "'v \<Rightarrow> uuid"
    and lookup :: "'s \<Rightarrow> 'k \<Rightarrow> 'v option"
    and add :: "'v \<Rightarrow> 's \<Rightarrow> status \<times> 's"
    and wf :: "'s \<Rightarrow> bool"
  assumes lookup_add: "wf s \<Longrightarrow> lookup (snd (add v s)) k = (if k = key v then Some v else lookup s k)"
    and status_add: "wf s \<Longrightarrow> fst (add v s) = (case lookup s (key v) of
          None \<Rightarrow> Ok (ident v)
        | Some w \<Rightarrow> if w = v then AlreadyExist (ident v) else Updated (ident v))"
    and add_same: "wf s \<Longrightarrow> lookup s (key v) = Some v \<Longrightarrow> snd (add v s) = s"
    and wf_add: "wf s \<Longrightarrow> wf (snd (add v s))"
begin

lemma lookup_add_same: "wf s \<Longrightarrow> lookup (snd (add v s)) (key v) = Some v"
  by (simp add: lookup_add)

text \<open>A second \<open>add\<close> of the same value changes nothing and says so.\<close>

lemma add_twice: "wf s \<Longrightarrow> add v (snd (add v s)) = (AlreadyExist (ident v), snd (add v s))"
  by (rule prod_eqI) (simp_all add: status_add wf_add lookup_add_same add_same)

lemma wf_load: "wf s \<Longrightarrow> wf (fold (\<lambda>v s. snd (add v s)) vs s)"
  by (induction vs arbitrary: s) (simp_all add: wf_add)

lemma lookup_load_other:
  "wf s \<Longrightarrow> k \<notin> key ` set vs \<Longrightarrow> lookup (fold (\<lambda>v s. snd (add v s)) vs s) k = lookup s k"
  by (induction vs arbitrary: s) (auto simp: wf_add lookup_add)

text \<open>Loading values with distinct keys makes every one of them available.\<close>

lemma lookup_load:
  assumes "wf s" and "distinct (map key vs)" and "v \<in> set vs"
  shows "lookup (fold (\<lambda>v s. snd (add v s)) vs s) (key v) = Some v"
  using assms
proof (induction vs arbitrary: s)
  case (Cons w vs)
  show ?case
  proof (cases "v = w")
    case True
    with Cons.prems have "key v \<notin> key ` set vs" by auto
    then show ?thesis
      using True Cons.prems by (simp add: lookup_load_other wf_add lookup_add_same)
  next
    case False
    with Cons show ?thesis by (simp add: wf_add)
  qed
qed simp

end

end
