(* ===== verification/Subs.thy ===== *)
theory Subs
  imports Upsert
begin

text \<open>
  Subscriptions (\<open>memory/subscription.rs\<close>) and their storage
  (\<open>memory/storage/subscription.rs\<close>). What \<open>Utc::now()\<close> returns is the argument \<open>now\<close>; adding
  days to an instant is the argument \<open>plus_days\<close>, with \<open>None\<close> where chrono panics because the
  result is out of range.
\<close>

section \<open>Subscriptions\<close>

record subscription =
  s_id :: uuid
  s_expires_at :: "datetime option"
  s_referred_by :: "string option"
  s_refer_code :: string
  s_created_at :: datetime
  s_updated_at :: datetime
  s_is_deleted :: bool
  s_limit_bytes :: "int option"
  s_downlink_bytes :: "int option"

type_synonym plus_days = "datetime \<Rightarrow> int \<Rightarrow> datetime option"

definition day :: int where
  "day = 86400 * 10 ^ 9"

text \<open>What chrono documents of \<open>DateTime + Duration::days(n)\<close> and of \<open>num_days\<close>.\<close>

definition plus_days_laws :: "plus_days \<Rightarrow> bool" where
  "plus_days_laws pd = (\<forall>t n r. pd t n = Some r \<longrightarrow> r = t + n * day)"

definition subscription_new ::
    "datetime \<Rightarrow> uuid \<Rightarrow> string option \<Rightarrow> string \<Rightarrow> datetime option \<Rightarrow> int option \<Rightarrow> subscription" where
  "subscription_new now i ref_by ref_code exp_at limit = \<lparr>s_id = i, s_expires_at = exp_at,
     s_referred_by = ref_by, s_refer_code = ref_code, s_created_at = now, s_updated_at = now,
     s_is_deleted = False, s_limit_bytes = limit, s_downlink_bytes = Some 0\<rparr>"

text \<open>\<open>utils::get_uuid_last_octet_simple\<close>: the hyphenated form from byte 24 on; slicing past the
  end panics.\<close>

definition get_uuid_last_octet_simple :: "(uuid \<Rightarrow> string) \<Rightarrow> uuid \<Rightarrow> string option" where
  "get_uuid_last_octet_simple uuid_str u =
    (if 24 \<le> length (uuid_str u) then Some (drop 24 (uuid_str u)) else None)"

record subscription_stats =
  st_id :: uuid
  st_expires_at :: "datetime option"
  st_days_remaining :: int
  st_is_active :: bool

definition stats :: "(int \<Rightarrow> int) \<Rightarrow> datetime \<Rightarrow> subscription \<Rightarrow> subscription_stats" where
  "stats num_days now s =
    (let days = (case s_expires_at s of Some e \<Rightarrow> num_days (e - now) | None \<Rightarrow> 99999) in
     \<lparr>st_id = s_id s, st_expires_at = s_expires_at s, st_days_remaining = days,
      st_is_active = (days > 0 \<and> \<not> s_is_deleted s)\<rparr>)"

definition extend :: "plus_days \<Rightarrow> datetime \<Rightarrow> int \<Rightarrow> subscription \<Rightarrow> subscription option" where
  "extend pd now days s = (case s_expires_at s of
      Some e \<Rightarrow> (case pd e days of
          Some e' \<Rightarrow> Some (s\<lparr>s_expires_at := Some e', s_updated_at := now\<rparr>)
        | None \<Rightarrow> None)
    | None \<Rightarrow> Some (s\<lparr>s_updated_at := now\<rparr>))"

definition refer_code :: "subscription \<Rightarrow> string" where
  "refer_code s = trim (s_refer_code s)"

definition referred_by :: "subscription \<Rightarrow> string option" where
  "referred_by s = map_option trim (s_referred_by s)"

definition set_refer_code :: "string \<Rightarrow> subscription \<Rightarrow> subscription" where
  "set_refer_code code s = s\<lparr>s_refer_code := code\<rparr>"

definition set_referred_by :: "string \<Rightarrow> subscription \<Rightarrow> subscription" where
  "set_referred_by code s = s\<lparr>s_referred_by := Some code\<rparr>"

definition set_limit_bytes :: "int \<Rightarrow> subscription \<Rightarrow> subscription" where
  "set_limit_bytes bytes s = s\<lparr>s_limit_bytes := Some bytes\<rparr>"

text \<open>\<open>self.expires_at > Some(Utc::now())\<close>: Rust orders \<open>None\<close> below every \<open>Some\<close>.\<close>

definition is_active :: "datetime \<Rightarrow> subscription \<Rightarrow> bool" where
  "is_active now s = (\<not> s_is_deleted s \<and> (case s_expires_at s of None \<Rightarrow> False | Some e \<Rightarrow> now < e))"

definition days_remaining :: "(int \<Rightarrow> int) \<Rightarrow> datetime \<Rightarrow> subscription \<Rightarrow> int option" where
  "days_remaining num_days now s = map_option (\<lambda>e. num_days (e - now)) (s_expires_at s)"

text \<open>\<open>Utc::now()\<close> is read twice: for the test and for the time stamp.\<close>

definition set_sub_expires_at ::
    "datetime \<Rightarrow> datetime \<Rightarrow> datetime \<Rightarrow> subscription \<Rightarrow> (string + unit) \<times> subscription" where
  "set_sub_expires_at now now' e s =
    (if e \<le> now then (Inl ''Expiration date must be in the future'', s)
     else (Inr (), s\<lparr>s_expires_at := Some e, s_updated_at := now'\<rparr>))"

definition mark_deleted :: "datetime \<Rightarrow> subscription \<Rightarrow> subscription" where
  "mark_deleted now s = s\<lparr>s_is_deleted := True, s_updated_at := now\<rparr>"

lemmas sub_defs [ops_simps] = set_refer_code_def set_referred_by_def set_limit_bytes_def
  set_sub_expires_at_def mark_deleted_def

lemma extend_Some:
  assumes "plus_days_laws pd" and "extend pd now days s = Some s'"
  shows "s_expires_at s' = map_option (\<lambda>e. e + days * day) (s_expires_at s)"
    and "s_id s' = s_id s" and "s_is_deleted s' = s_is_deleted s"
  using assms by (auto simp: extend_def plus_days_laws_def split: option.splits)

section \<open>Storage\<close>

type_synonym subscriptions = "(uuid, subscription) hmap"

definition find_by_refer_code :: "string \<Rightarrow> subscriptions \<Rightarrow> subscription option" where
  "find_by_refer_code code m = List.find (\<lambda>s. refer_code s = code) (map snd m)"

definition exist_refer_code :: "string \<Rightarrow> subscriptions \<Rightarrow> bool" where
  "exist_refer_code code m = list_ex (\<lambda>s. refer_code s = code) (map snd m)"

definition count_invited_by :: "string \<Rightarrow> subscriptions \<Rightarrow> nat" where
  "count_invited_by code m = length (filter (\<lambda>s. referred_by s = Some code) (map snd m))"

definition subs_add :: "subscription \<Rightarrow> subscriptions \<Rightarrow> status \<times> subscriptions" where
  "subs_add new m = (let i = s_id new in case hm_get m i of
      Some existing \<Rightarrow> if existing = new then (AlreadyExist i, m) else (Updated i, hm_insert i new m)
    | None \<Rightarrow> (Ok i, hm_insert i new m))"

definition subs_delete :: "uuid \<Rightarrow> subscriptions \<Rightarrow> subscriptions" where
  "subs_delete i m = hm_remove i m"

definition subs_update :: "subscription \<Rightarrow> subscriptions \<Rightarrow> subscriptions" where
  "subs_update s m = hm_insert (s_id s) s m"

interpretation subs: upsert_store s_id s_id map_of subs_add "\<lambda>m. distinct (map fst m)"
  by unfold_locales (auto simp: subs_add_def Let_def split: option.splits)

lemma find_by_refer_code_Some:
  assumes "hm_wf m" and "find_by_refer_code code m = Some s"
  shows "refer_code s = code \<and> (\<exists>i. hm_get m i = Some s)"
  using assms by (auto simp: find_by_refer_code_def find_Some_iff map_of_eq_Some_iff in_set_conv_nth)
     (metis prod.collapse nth_mem)

lemma exist_refer_code_iff: "exist_refer_code code m \<longleftrightarrow> find_by_refer_code code m \<noteq> None"
  by (auto simp: exist_refer_code_def find_by_refer_code_def find_None_iff list_ex_iff)

text \<open>Every stored subscription sits under its own identifier.\<close>

definition subs_wf :: "subscriptions \<Rightarrow> bool" where
  "subs_wf m = (hm_wf m \<and> (\<forall>i s. hm_get m i = Some s \<longrightarrow> s_id s = i))"

lemma subs_wf_empty [simp]: "subs_wf []"
  by (simp add: subs_wf_def)

lemma subs_wf_add: "subs_wf m \<Longrightarrow> subs_wf (snd (subs_add s m))"
  by (auto simp: subs_wf_def subs.lookup_add subs.wf_add)

lemma subs_wf_update: "subs_wf m \<Longrightarrow> subs_wf (subs_update s m)"
  by (auto simp: subs_wf_def subs_update_def)

lemma subs_wf_delete: "subs_wf m \<Longrightarrow> subs_wf (subs_delete i m)"
  by (auto simp: subs_wf_def subs_delete_def)

lemma subs_wf_modify: "subs_wf m \<Longrightarrow> (\<And>s. s_id (f s) = s_id s) \<Longrightarrow> subs_wf (hm_modify i f m)"
  by (auto simp: subs_wf_def)

end
