(* ===== verification/NodeStore.thy ===== *)
theory NodeStore
  imports Upsert
begin

text \<open>
  Nodes (\<open>memory/node.rs\<close>) with the inbounds they announce (the data of
  \<open>config/{inbound,wireguard,h2,mtproto,settings}.rs\<close>) and the node storage
  (\<open>memory/storage/node.rs\<close>): a vector of nodes per environment.
\<close>

instantiation proto_tag :: enum
begin

definition enum_proto_tag :: "proto_tag list" where
  "enum_proto_tag = [VlessTcpReality, VlessGrpcReality, VlessXhttpReality, Vmess, Shadowsocks,
     Wireguard, Hysteria2, Mtproto]"

definition enum_all_proto_tag :: "(proto_tag \<Rightarrow> bool) \<Rightarrow> bool" where
  "enum_all_proto_tag P = list_all P [VlessTcpReality, VlessGrpcReality, VlessXhttpReality, Vmess,
     Shadowsocks, Wireguard, Hysteria2, Mtproto]"

definition enum_ex_proto_tag :: "(proto_tag \<Rightarrow> bool) \<Rightarrow> bool" where
  "enum_ex_proto_tag P = list_ex P [VlessTcpReality, VlessGrpcReality, VlessXhttpReality, Vmess,
     Shadowsocks, Wireguard, Hysteria2, Mtproto]"

instance
proof
  show U: "UNIV = set (enum_class.enum :: proto_tag list)"
    by (auto simp: enum_proto_tag_def) (metis proto_tag.exhaust)
  show "distinct (enum_class.enum :: proto_tag list)"
    by (simp add: enum_proto_tag_def)
  show "enum_class.enum_all P \<longleftrightarrow> Ball UNIV P" for P :: "proto_tag \<Rightarrow> bool"
    by (simp only: U enum_all_proto_tag_def enum_proto_tag_def list_all_iff)
  show "enum_class.enum_ex P \<longleftrightarrow> Bex UNIV P" for P :: "proto_tag \<Rightarrow> bool"
    by (simp only: U enum_ex_proto_tag_def enum_proto_tag_def list_ex_iff)
qed

end

section \<open>Inbounds\<close>

datatype network = Xhttp | GrpcNet | Tcp | Ws

record tcp_request =
  tr_method :: string
  tr_path :: "string list"
  tr_headers :: "(string \<times> string list) list option"

record tcp_header =
  th_type :: string
  th_request :: "tcp_request option"

record reality_settings =
  r_server_names :: "string list"
  r_private_key :: string
  r_public_key :: string
  r_short_ids :: "string list"
  r_target :: string

record stream_settings =
  ss_network :: network
  ss_tcp :: "tcp_header option option"
  ss_reality :: "reality_settings option"
  ss_grpc_service_name :: "string option"
  ss_xhttp_path :: "string option"

record wireguard_settings =
  ws_interface :: string
  ws_address :: ip_addr_mask
  ws_port :: u16
  ws_keys :: wg_keys
  ws_dns :: "u32 list"

record h2_auth_info =
  h2a_auth_type :: string
  h2a_has_password :: bool
  h2a_has_url :: bool

record h2_settings =
  h2_host :: string
  h2_port :: u16
  h2_sni :: "string option"
  h2_insecure :: bool
  h2_obfs :: "(string \<times> string) option"
  h2_alpn :: "string list option"
  h2_up_mbps :: "u32 option"
  h2_down_mbps :: "u32 option"
  h2_auth_info :: "h2_auth_info option"

record mtproto_settings =
  mt_port :: u16
  mt_secret :: "(string \<times> string) list"

record inbound =
  i_tag :: proto_tag
  i_port :: u16
  i_stream_settings :: "stream_settings option"
  i_uplink :: "int option"
  i_downlink :: "int option"
  i_conn_count :: "int option"
  i_wg :: "wireguard_settings option"
  i_h2 :: "h2_settings option"
  i_mtproto_secret :: "string option"

record inbound_stat =
  is_downlink :: int
  is_uplink :: int
  is_conn_count :: int

definition as_inbound_stat :: "inbound \<Rightarrow> inbound_stat" where
  "as_inbound_stat i = \<lparr>is_downlink = case_option 0 id (i_downlink i),
     is_uplink = case_option 0 id (i_uplink i), is_conn_count = case_option 0 id (i_conn_count i)\<rparr>"

definition inbound_update_uplink :: "int \<Rightarrow> inbound \<Rightarrow> inbound" where
  "inbound_update_uplink v i = i\<lparr>i_uplink := Some v\<rparr>"

definition inbound_update_downlink :: "int \<Rightarrow> inbound \<Rightarrow> inbound" where
  "inbound_update_downlink v i = i\<lparr>i_downlink := Some v\<rparr>"

definition inbound_update_conn_count :: "int \<Rightarrow> inbound \<Rightarrow> inbound" where
  "inbound_update_conn_count v i = i\<lparr>i_conn_count := Some v\<rparr>"

section \<open>Nodes\<close>

text \<open>A hash map over the eight tags is a function on them.\<close>

record node =
  n_uuid :: uuid
  n_env :: env
  n_hostname :: string
  n_address :: u32
  n_status :: node_status
  n_label :: string
  n_interface :: string
  n_created_at :: datetime
  n_modified_at :: datetime
  n_inbounds :: "proto_tag \<Rightarrow> inbound option"
  n_cores :: nat
  n_max_bandwidth_bps :: int
  n_country :: string
  n_type :: node_type

record node_config =
  nc_env :: env
  nc_hostname :: string
  nc_default_interface :: string
  nc_address :: u32
  nc_uuid :: uuid
  nc_label :: string
  nc_max_bandwidth_bps :: int
  nc_cores :: nat
  nc_country :: string
  nc_type :: node_type

definition plain_inbound :: "u16 \<Rightarrow> proto_tag \<Rightarrow> inbound" where
  "plain_inbound port tag = \<lparr>i_tag = tag, i_port = port, i_stream_settings = None,
     i_uplink = None, i_downlink = None, i_conn_count = None, i_wg = None, i_h2 = None,
     i_mtproto_secret = None\<rparr>"

text \<open>\<open>Node::new\<close>: the Xray inbounds keyed by their tag (the last one with a tag wins), then the
  WireGuard, MTProto and Hysteria2 inbounds. \<open>config.secret[0]\<close> panics on an empty list.\<close>

definition node_new :: "datetime \<Rightarrow> node_config \<Rightarrow> inbound list option \<Rightarrow>
    wireguard_settings option \<Rightarrow> h2_settings option \<Rightarrow> mtproto_settings option \<Rightarrow> node option" where
  "node_new now settings xray wg h2 mtproto =
    (let ins = (case xray of
           Some is \<Rightarrow> fold (\<lambda>i m. m(i_tag i \<mapsto> i)) is Map.empty
         | None \<Rightarrow> Map.empty);
         ins = (case wg of
           Some w \<Rightarrow> ins(Wireguard \<mapsto> (plain_inbound (ws_port w) Wireguard)\<lparr>i_wg := Some w\<rparr>)
         | None \<Rightarrow> ins)
     in (case (case mtproto of
           None \<Rightarrow> Some ins
         | Some m \<Rightarrow> (case mt_secret m of
             [] \<Rightarrow> None
           | (k, _) # _ \<Rightarrow> Some (ins(Mtproto \<mapsto>
               (plain_inbound (mt_port m) Mtproto)\<lparr>i_mtproto_secret := Some k\<rparr>)))) of
         None \<Rightarrow> None
       | Some ins \<Rightarrow>
           (let ins = (case h2 of
              Some h \<Rightarrow> ins(Hysteria2 \<mapsto> (plain_inbound (h2_port h) Hysteria2)\<lparr>i_h2 := Some h\<rparr>)
            | None \<Rightarrow> ins)
            in Some \<lparr>n_uuid = nc_uuid settings, n_env = nc_env settings,
              n_hostname = nc_hostname settings, n_address = nc_address settings, n_status = Online,
              n_label = nc_label settings, n_interface = nc_default_interface settings,
              n_created_at = now, n_modified_at = now, n_inbounds = ins,
              n_cores = nc_cores settings, n_max_bandwidth_bps = nc_max_bandwidth_bps settings,
              n_country = nc_country settings, n_type = nc_type settings\<rparr>)))"

definition node_update_status :: "node_status \<Rightarrow> node \<Rightarrow> node" where
  "node_update_status st n = n\<lparr>n_status := st\<rparr>"

definition inbound_missing :: "proto_tag \<Rightarrow> string" where
  "inbound_missing tag = ''Inbound '' @ tag_to_string tag @ ''  not found''"

definition node_update_inbound :: "(inbound \<Rightarrow> inbound) \<Rightarrow> proto_tag \<Rightarrow> node \<Rightarrow> string + node" where
  "node_update_inbound f tag n = (case n_inbounds n tag of
      Some i \<Rightarrow> Inr (n\<lparr>n_inbounds := (n_inbounds n)(tag \<mapsto> f i)\<rparr>)
    | None \<Rightarrow> Inl (inbound_missing tag))"

definition node_update_uplink :: "proto_tag \<Rightarrow> int \<Rightarrow> node \<Rightarrow> string + node" where
  "node_update_uplink tag v = node_update_inbound (inbound_update_uplink v) tag"

definition node_update_downlink :: "proto_tag \<Rightarrow> int \<Rightarrow> node \<Rightarrow> string + node" where
  "node_update_downlink tag v = node_update_inbound (inbound_update_downlink v) tag"

definition node_update_conn_count :: "proto_tag \<Rightarrow> int \<Rightarrow> node \<Rightarrow> string + node" where
  "node_update_conn_count tag v = node_update_inbound (inbound_update_conn_count v) tag"

text \<open>\<open>Node::inbound\<close>: a search over the values of the map for one that carries the tag.\<close>

definition node_inbound :: "proto_tag \<Rightarrow> node \<Rightarrow> inbound option" where
  "node_inbound tag n =
     List.find (\<lambda>i. i_tag i = tag) (List.map_filter (n_inbounds n) Enum.enum)"

text \<open>The inbound under a tag carries that tag: what \<open>Node::new\<close> and the database loader
  establish.\<close>

definition inbounds_wf :: "node \<Rightarrow> bool" where
  "inbounds_wf n = (\<forall>tag i. n_inbounds n tag = Some i \<longrightarrow> i_tag i = tag)"

lemma node_inbound_eq:
  assumes "inbounds_wf n"
  shows "node_inbound tag n = n_inbounds n tag"
proof (cases "n_inbounds n tag")
  case None
  then have "\<forall>i \<in> set (List.map_filter (n_inbounds n) Enum.enum). i_tag i \<noteq> tag"
    using assms by (auto simp: inbounds_wf_def map_filter_def)
  with None show ?thesis by (simp add: node_inbound_def find_None_iff)
next
  case (Some i)
  then have "i \<in> set (List.map_filter (n_inbounds n) Enum.enum)"
    by (force simp: map_filter_def enum_UNIV)
  moreover have "i_tag i = tag" using assms Some by (simp add: inbounds_wf_def)
  ultimately obtain j where f: "node_inbound tag n = Some j"
    by (fastforce simp: node_inbound_def find_None_iff)
  then have "i_tag j = tag" and "j \<in> set (List.map_filter (n_inbounds n) Enum.enum)"
    by (auto simp: node_inbound_def find_Some_iff) 
  then obtain t where "n_inbounds n t = Some j"
    by (auto simp: map_filter_def)
  with assms \<open>i_tag j = tag\<close> have "n_inbounds n tag = Some j"
    by (auto simp: inbounds_wf_def)
  with f show ?thesis by simp
qed

section \<open>Node storage\<close>

type_synonym nodes = "(env, node list) hmap"

fun upsert_vec :: "node \<Rightarrow> node list \<Rightarrow> status \<times> node list" where
  "upsert_vec new [] = (Ok (n_uuid new), [new])"
| "upsert_vec new (n # ns) =
     (if n_uuid n = n_uuid new then
        if n = new then (AlreadyExist (n_uuid new), n # ns) else (Updated (n_uuid new), new # ns)
      else (case upsert_vec new ns of (st, ns') \<Rightarrow> (st, n # ns')))"

definition nodes_add :: "node \<Rightarrow> nodes \<Rightarrow> status \<times> nodes" where
  "nodes_add new m = (case hm_get m (n_env new) of
      Some ns \<Rightarrow> (case upsert_vec new ns of (st, ns') \<Rightarrow> (st, hm_insert (n_env new) ns' m))
    | None \<Rightarrow> (Ok (n_uuid new), hm_insert (n_env new) [new] m))"

definition nodes_get :: "env \<Rightarrow> uuid \<Rightarrow> nodes \<Rightarrow> node option" where
  "nodes_get e u m = (case hm_get m e of
      None \<Rightarrow> None
    | Some ns \<Rightarrow> List.find (\<lambda>n. n_uuid n = u) ns)"

definition get_by_env :: "env \<Rightarrow> nodes \<Rightarrow> node list option" where
  "get_by_env e m = hm_get m e"

definition get_by_id :: "uuid \<Rightarrow> nodes \<Rightarrow> node option" where
  "get_by_id u m = List.find (\<lambda>n. n_uuid n = u) (concat (map snd m))"

definition nodes_all :: "nodes \<Rightarrow> node list option" where
  "nodes_all m = (let ns = concat (map snd m) in if ns = [] then None else Some ns)"

text \<open>\<open>get_mut(env, uuid)\<close> and a write through the reference: the first node of the environment
  with that identifier.\<close>

fun modify_first :: "('a \<Rightarrow> bool) \<Rightarrow> ('a \<Rightarrow> 'a) \<Rightarrow> 'a list \<Rightarrow> 'a list" where
  "modify_first P f [] = []"
| "modify_first P f (x # xs) = (if P x then f x # xs else x # modify_first P f xs)"

definition nodes_modify :: "env \<Rightarrow> uuid \<Rightarrow> (node \<Rightarrow> node) \<Rightarrow> nodes \<Rightarrow> nodes" where
  "nodes_modify e u f m = hm_modify e (modify_first (\<lambda>n. n_uuid n = u) f) m"

definition node_missing :: "(uuid \<Rightarrow> string) \<Rightarrow> env \<Rightarrow> uuid \<Rightarrow> error" where
  "node_missing uuid_str e u =
     Custom (''Node not found in env '' @ env_to_string e @ '' with id '' @ uuid_str u)"

text \<open>\<open>update_node_uplink\<close> and \<open>update_node_downlink\<close>: a missing inbound is the error of
  \<open>Node::update_uplink\<close>, converted by \<open>?\<close>.\<close>

definition nodes_update_stat :: "(uuid \<Rightarrow> string) \<Rightarrow> (node \<Rightarrow> string + node) \<Rightarrow> env \<Rightarrow> uuid \<Rightarrow>
    nodes \<Rightarrow> (error + unit) \<times> nodes" where
  "nodes_update_stat uuid_str f e u m = (case nodes_get e u m of
      Some n \<Rightarrow> (case f n of
          Inl msg \<Rightarrow> (Inl (Custom msg), m)
        | Inr n' \<Rightarrow> (Inr (), nodes_modify e u (\<lambda>_. n') m))
    | None \<Rightarrow> (Inl (node_missing uuid_str e u), m))"

definition update_node_uplink ::
    "(uuid \<Rightarrow> string) \<Rightarrow> proto_tag \<Rightarrow> int \<Rightarrow> env \<Rightarrow> uuid \<Rightarrow> nodes \<Rightarrow> (error + unit) \<times> nodes" where
  "update_node_uplink uuid_str tag v = nodes_update_stat uuid_str (node_update_uplink tag v)"

definition update_node_downlink ::
    "(uuid \<Rightarrow> string) \<Rightarrow> proto_tag \<Rightarrow> int \<Rightarrow> env \<Rightarrow> uuid \<Rightarrow> nodes \<Rightarrow> (error + unit) \<times> nodes" where
  "update_node_downlink uuid_str tag v = nodes_update_stat uuid_str (node_update_downlink tag v)"

definition update_node_conn_count ::
    "(uuid \<Rightarrow> string) \<Rightarrow> proto_tag \<Rightarrow> int \<Rightarrow> env \<Rightarrow> uuid \<Rightarrow> nodes \<Rightarrow> (error + unit) \<times> nodes" where
  "update_node_conn_count uuid_str tag v e u m = (case hm_get m e of
      Some ns \<Rightarrow> (case List.find (\<lambda>n. n_uuid n = u) ns of
          Some n \<Rightarrow> (case node_update_conn_count tag v n of
              Inl msg \<Rightarrow> (Inl (Custom msg), m)
            | Inr n' \<Rightarrow> (Inr (), nodes_modify e u (\<lambda>_. n') m))
        | None \<Rightarrow> (Inl (Custom (''Node with ID '' @ uuid_str u @ '' not found'')), m))
    | None \<Rightarrow> (Inl (Custom (''Environment '' @ [CHR 39] @ env_to_string e @ [CHR 39] @ '' not found'')), m))"

text \<open>Each environment's vector holds nodes of that environment, one per identifier.\<close>

definition nodes_wf :: "nodes \<Rightarrow> bool" where
  "nodes_wf m = (hm_wf m \<and> (\<forall>e ns. hm_get m e = Some ns \<longrightarrow>
     distinct (map n_uuid ns) \<and> (\<forall>n \<in> set ns. n_env n = e)))"

lemma upsert_vec_find:
  "List.find (\<lambda>n. n_uuid n = u) (snd (upsert_vec new ns)) =
     (if u = n_uuid new then Some new else List.find (\<lambda>n. n_uuid n = u) ns)"
  by (induction ns) (auto split: prod.splits)

lemma upsert_vec_status:
  "fst (upsert_vec new ns) = (case List.find (\<lambda>n. n_uuid n = n_uuid new) ns of
      None \<Rightarrow> Ok (n_uuid new)
    | Some w \<Rightarrow> if w = new then AlreadyExist (n_uuid new) else Updated (n_uuid new))"
  by (induction ns) (auto split: prod.splits)

lemma upsert_vec_same:
  "List.find (\<lambda>n. n_uuid n = n_uuid new) ns = Some new \<Longrightarrow> snd (upsert_vec new ns) = ns"
  by (induction ns) (auto split: prod.splits if_splits)

lemma upsert_vec_set: "set (snd (upsert_vec new ns)) \<subseteq> insert new (set ns)"
  by (induction ns) (auto split: prod.splits)

lemma upsert_vec_uuids:
  "n_uuid ` set (snd (upsert_vec new ns)) = insert (n_uuid new) (n_uuid ` set ns)"
  by (induction ns) (auto split: prod.splits)

lemma upsert_vec_distinct: "distinct (map n_uuid ns) \<Longrightarrow> distinct (map n_uuid (snd (upsert_vec new ns)))"
proof (induction ns)
  case (Cons n ns)
  then show ?case
    using upsert_vec_uuids [of new ns] by (auto split: prod.splits)
qed simp

lemma hm_insert_same: "hm_get m k = Some v \<Longrightarrow> hm_insert k v m = m"
  by (induction m) auto

lemma nodes_add_alt: "nodes_add new m = (case hm_get m (n_env new) of
      Some ns \<Rightarrow> (fst (upsert_vec new ns), hm_insert (n_env new) (snd (upsert_vec new ns)) m)
    | None \<Rightarrow> (Ok (n_uuid new), hm_insert (n_env new) [new] m))"
  by (simp add: nodes_add_def split: option.split prod.split)

lemma nodes_add_get_env:
  "hm_get (snd (nodes_add new m)) e = (if e = n_env new then
     Some (case hm_get m e of None \<Rightarrow> [new] | Some ns \<Rightarrow> snd (upsert_vec new ns)) else hm_get m e)"
  by (auto simp: nodes_add_def split: option.splits prod.splits)

lemma nodes_add_wf:
  assumes "nodes_wf m"
  shows "nodes_wf (snd (nodes_add new m))"
proof -
  have "hm_wf (snd (nodes_add new m))"
    using assms by (auto simp: nodes_wf_def nodes_add_def split: option.splits prod.splits)
  moreover have "distinct (map n_uuid ns) \<and> (\<forall>n \<in> set ns. n_env n = e)"
    if "hm_get (snd (nodes_add new m)) e = Some ns" for e ns
    using that assms upsert_vec_set [of new] upsert_vec_distinct [of _ new]
    by (fastforce simp: nodes_add_get_env nodes_wf_def split: if_splits option.splits)
  ultimately show ?thesis by (simp add: nodes_wf_def)
qed

interpretation nds: upsert_store "\<lambda>n. (n_env n, n_uuid n)" n_uuid "\<lambda>m (e, u). nodes_get e u m"
    nodes_add nodes_wf
proof unfold_locales
  show "nodes_wf s \<Longrightarrow> (case k of (e, u) \<Rightarrow> nodes_get e u (snd (nodes_add v s))) =
      (if k = (n_env v, n_uuid v) then Some v else case k of (e, u) \<Rightarrow> nodes_get e u s)" for s k v
    by (cases k) (auto simp: nodes_get_def nodes_add_get_env upsert_vec_find split: option.splits)
  show "nodes_wf s \<Longrightarrow> fst (nodes_add v s) =
      (case (case (n_env v, n_uuid v) of (e, u) \<Rightarrow> nodes_get e u s) of
         None \<Rightarrow> Ok (n_uuid v)
       | Some w \<Rightarrow> if w = v then AlreadyExist (n_uuid v) else Updated (n_uuid v))" for s v
    by (simp add: nodes_add_alt nodes_get_def upsert_vec_status split: option.split)
  show "nodes_wf s \<Longrightarrow> (case (n_env v, n_uuid v) of (e, u) \<Rightarrow> nodes_get e u s) = Some v \<Longrightarrow>
      snd (nodes_add v s) = s" for s v
    by (auto simp: nodes_add_alt nodes_get_def hm_insert_same upsert_vec_same split: option.splits)
qed (rule nodes_add_wf)

lemma find_modify_first:
  "(\<And>x. P x \<Longrightarrow> P (f x)) \<Longrightarrow>
   List.find P (modify_first P f xs) = map_option f (List.find P xs)"
  by (induction xs) auto

lemma find_modify_first_other:
  "(\<And>x. P x \<Longrightarrow> \<not> Q x) \<Longrightarrow> (\<And>x. P x \<Longrightarrow> \<not> Q (f x)) \<Longrightarrow>
   List.find Q (modify_first P f xs) = List.find Q xs"
  by (induction xs) auto

lemma nodes_modify_get:
  assumes "\<And>n. n_uuid (f n) = n_uuid n"
  shows "nodes_get e' u' (nodes_modify e u f m) =
    (if (e', u') = (e, u) then map_option f (nodes_get e u m) else nodes_get e' u' m)"
proof -
  have same: "List.find (\<lambda>n. n_uuid n = u) (modify_first (\<lambda>n. n_uuid n = u) f ns)
      = map_option f (List.find (\<lambda>n. n_uuid n = u) ns)" for ns
    using assms by (intro find_modify_first) simp
  have other: "u' \<noteq> u \<Longrightarrow> List.find (\<lambda>n. n_uuid n = u') (modify_first (\<lambda>n. n_uuid n = u) f ns)
      = List.find (\<lambda>n. n_uuid n = u') ns" for ns
    using assms by (intro find_modify_first_other) auto
  show ?thesis
    by (auto simp: nodes_modify_def nodes_get_def same other split: option.splits)
qed

lemma map_modify_first: "(\<And>x. g (f x) = g x) \<Longrightarrow> map g (modify_first P f xs) = map g xs"
  by (induction xs) auto

lemma modify_first_all:
  "(\<And>x. Q x \<Longrightarrow> Q (f x)) \<Longrightarrow> \<forall>x \<in> set xs. Q x \<Longrightarrow> \<forall>x \<in> set (modify_first P f xs). Q x"
  by (induction xs) auto

lemma nodes_modify_wf:
  assumes "nodes_wf m" and "\<And>n. n_uuid (f n) = n_uuid n" and "\<And>n. n_env (f n) = n_env n"
  shows "nodes_wf (nodes_modify e u f m)"
proof -
  have E: "n_env n = e'" if "\<forall>n \<in> set ns. n_env n = e'" "n \<in> set (modify_first P f ns)" for P ns n e'
    using that modify_first_all [of "\<lambda>n. n_env n = e'" f ns P] assms(3) by auto
  show ?thesis
    using assms(1) map_modify_first [of n_uuid f, OF assms(2)]
    by (auto simp: nodes_wf_def nodes_modify_def split: if_splits) (metis E)
qed

end
