(* ===== verification/KeyCode.thy ===== *)
theory KeyCode
  imports Prelude
begin

text \<open>
  Activation keys (\<open>memory/key.rs\<close>): the signed and checksummed code of a key, its parser, and
  the distributor names. The base32 codec and the keyed hash are parameters; what the code relies
  on is stated as \<open>code_laws\<close>.
\<close>

section \<open>Distributors\<close>

definition is_ascii_uppercase :: "char \<Rightarrow> bool" where
  "is_ascii_uppercase c = (65 \<le> (of_char c :: nat) \<and> (of_char c :: nat) \<le> 90)"

definition is_ascii_digit :: "char \<Rightarrow> bool" where
  "is_ascii_digit c = (48 \<le> (of_char c :: nat) \<and> (of_char c :: nat) \<le> 57)"

definition as_bytes :: "string \<Rightarrow> u8 list" where
  "as_bytes s = map of_char s"

definition distributor_new :: "string \<Rightarrow> error + u8 list" where
  "distributor_new s =
    (if length s \<noteq> 4 then Inl (Custom ''Distributor must be exactly 4 characters'')
     else if \<not> list_all (\<lambda>c. is_ascii_uppercase c \<or> is_ascii_digit c) s
       then Inl (Custom ''Distributor must be uppercase ASCII letters or digits'')
     else Inr (as_bytes s))"

definition distributor_as_str :: "u8 list \<Rightarrow> string" where
  "distributor_as_str d = map (\<lambda>b. char_of (unat b)) d"

section \<open>Codes\<close>

definition checksum :: "u8 list \<Rightarrow> u8" where
  "checksum data = foldl (+) 0 data"

fun chunks :: "nat \<Rightarrow> 'a list \<Rightarrow> 'a list list" where
  "chunks n [] = []"
| "chunks n (x # xs) = (x # take (n - 1) xs) # chunks n (drop (n - 1) xs)"

fun join :: "string \<Rightarrow> string list \<Rightarrow> string" where
  "join sep [] = []"
| "join sep [x] = x"
| "join sep (x # y # ys) = x @ sep @ join sep (y # ys)"

definition format_code :: "string \<Rightarrow> string" where
  "format_code s = join ''-'' (chunks 5 s)"

text \<open>\<open>s.replace("-", "")\<close>, and the two bytes of an \<open>i16\<close> in big-endian order.\<close>

definition remove_dashes :: "string \<Rightarrow> string" where
  "remove_dashes s = filter (\<lambda>c. c \<noteq> CHR ''-'') s"

definition i16_to_be_bytes :: "i16 \<Rightarrow> u8 list" where
  "i16_to_be_bytes d = [ucast (drop_bit 8 d), ucast d]"

definition i16_from_be_bytes :: "u8 \<Rightarrow> u8 \<Rightarrow> i16" where
  "i16_from_be_bytes hi lo = push_bit 8 (ucast hi) + ucast lo"

record codec =
  b32_encode :: "u8 list \<Rightarrow> string"
  b32_decode :: "string \<Rightarrow> u8 list option"
  hmac_sha256 :: "u8 list \<Rightarrow> u8 list \<Rightarrow> u8 list"

text \<open>The payload of a new code: six random bytes, the days, the distributor, three bytes of the
  signature and the checksum; \<open>Code::new\<close> returns its formatted base32 text.\<close>

definition code_data :: "u8 list \<Rightarrow> i16 \<Rightarrow> u8 list \<Rightarrow> u8 list" where
  "code_data random days distributor = random @ i16_to_be_bytes days @ distributor"

definition code_payload :: "codec \<Rightarrow> u8 list \<Rightarrow> i16 \<Rightarrow> u8 list \<Rightarrow> u8 list \<Rightarrow> u8 list" where
  "code_payload k random days distributor secret =
    (let d = code_data random days distributor;
         p = d @ take 3 (hmac_sha256 k secret d)
     in p @ [checksum p])"

definition code_new :: "codec \<Rightarrow> u8 list \<Rightarrow> i16 \<Rightarrow> u8 list \<Rightarrow> u8 list \<Rightarrow> string" where
  "code_new k random days distributor secret =
     format_code (to_uppercase (b32_encode k (code_payload k random days distributor secret)))"

definition code_parse :: "codec \<Rightarrow> string \<Rightarrow> u8 list \<Rightarrow> (i16 \<times> u8 list) option" where
  "code_parse k s secret =
    (case b32_decode k (to_uppercase (remove_dashes s)) of
       None \<Rightarrow> None
     | Some bytes \<Rightarrow>
         if length bytes \<noteq> 16 then None
         else (let data_with_sig = take 15 bytes; check_byte = bytes ! 15 in
           if checksum data_with_sig \<noteq> check_byte then None
           else (let data = take 12 data_with_sig; sig = drop 12 data_with_sig in
             if take 3 (hmac_sha256 k secret data) \<noteq> take 3 sig then None
             else Some (i16_from_be_bytes (data ! 6) (data ! 7), drop 8 data))))"

datatype code_error = InvalidFormat | InvalidChecksum

text \<open>\<open>Code::from_str\<close>, \<open>validate\<close> and \<open>is_valid\<close>.\<close>

definition code_from_str :: "codec \<Rightarrow> string \<Rightarrow> code_error + string" where
  "code_from_str k s = (case b32_decode k (to_uppercase (remove_dashes s)) of
      None \<Rightarrow> Inl InvalidFormat
    | Some bytes \<Rightarrow> if length bytes \<noteq> 16 then Inl InvalidFormat else Inr (to_uppercase s))"

definition code_validate :: "codec \<Rightarrow> string \<Rightarrow> u8 list \<Rightarrow> code_error + i16 \<times> u8 list" where
  "code_validate k code secret = (case code_parse k code secret of
      Some data \<Rightarrow> Inr data
    | None \<Rightarrow> Inl InvalidChecksum)"

definition code_is_valid :: "codec \<Rightarrow> string \<Rightarrow> u8 list \<Rightarrow> bool" where
  "code_is_valid k code secret = (code_parse k code secret \<noteq> None)"

section \<open>Keys\<close>

record key =
  k_id :: uuid
  k_code :: string
  k_days :: i16
  k_activated :: bool
  k_subscription_id :: "uuid option"
  k_created_at :: datetime
  k_modified_at :: datetime
  k_distributor :: "u8 list"

definition key_new ::
    "codec \<Rightarrow> uuid \<Rightarrow> datetime \<Rightarrow> u8 list \<Rightarrow> i16 \<Rightarrow> u8 list \<Rightarrow> u8 list \<Rightarrow> key" where
  "key_new k i now random days distributor secret = \<lparr>k_id = i,
     k_code = code_new k random days distributor secret, k_days = days, k_activated = False,
     k_subscription_id = None, k_created_at = now, k_modified_at = now,
     k_distributor = distributor\<rparr>"

definition key_activate :: "datetime \<Rightarrow> uuid \<Rightarrow> key \<Rightarrow> key" where
  "key_activate now sub_id k = k\<lparr>k_activated := True, k_subscription_id := Some sub_id,
     k_modified_at := now\<rparr>"

section \<open>The codec's laws\<close>

text \<open>What RFC 4648 base32 without padding promises: decoding inverts encoding, and the encoded
  text is made of upper-case letters and digits. The keyed hash returns 32 bytes.\<close>

definition code_laws :: "codec \<Rightarrow> bool" where
  "code_laws k = (\<forall>bs. b32_decode k (b32_encode k bs) = Some bs \<and>
     to_uppercase (b32_encode k bs) = b32_encode k bs \<and> CHR ''-'' \<notin> set (b32_encode k bs) \<and>
     (\<forall>secret. length (hmac_sha256 k secret bs) = 32))"

lemma remove_dashes_append: "remove_dashes (a @ b) = remove_dashes a @ remove_dashes b"
  by (simp add: remove_dashes_def)

lemma remove_dashes_id: "CHR ''-'' \<notin> set s \<Longrightarrow> remove_dashes s = s"
  by (auto simp: remove_dashes_def filter_id_conv)

lemma join_chunks: "CHR ''-'' \<notin> set s \<Longrightarrow> remove_dashes (join ''-'' (chunks n s)) = s"
proof (induction n s rule: chunks.induct)
  case (2 n x xs)
  let ?h = "x # take (n - 1) xs" and ?t = "drop (n - 1) xs"
  have nd: "CHR ''-'' \<notin> set ?h" "CHR ''-'' \<notin> set ?t"
    using "2.prems" by (auto dest: in_set_takeD in_set_dropD)
  have IH: "remove_dashes (join ''-'' (chunks n ?t)) = ?t" by (rule "2.IH" [OF nd(2)])
  have "remove_dashes (join ''-'' (?h # cs)) = remove_dashes ?h @ remove_dashes (join ''-'' cs)" for cs
    by (cases cs) (simp_all add: remove_dashes_def)
  then have "remove_dashes (join ''-'' (chunks n (x # xs))) = remove_dashes ?h @ ?t"
    by (simp only: chunks.simps IH)
  also have "\<dots> = x # xs" by (simp only: remove_dashes_id [OF nd(1)]) simp
  finally show ?case .
qed (simp add: remove_dashes_def)

lemma remove_dashes_format: "CHR ''-'' \<notin> set s \<Longrightarrow> remove_dashes (format_code s) = s"
  by (simp add: format_code_def join_chunks)

lemma i16_be_roundtrip: "i16_from_be_bytes (ucast (drop_bit 8 d)) (ucast d) = d"
proof -
  have "push_bit 8 (ucast (ucast (drop_bit 8 d) :: u8) :: i16) = push_bit 8 (drop_bit 8 d)"
    by (rule bit_word_eqI) (auto simp: bit_simps)
  moreover have "(ucast (ucast d :: u8) :: i16) = take_bit 8 d"
    by (rule bit_word_eqI) (auto simp: bit_simps)
  ultimately show ?thesis by (simp only: i16_from_be_bytes_def bits_ident)
qed

lemma checksum_append: "checksum (a @ b) = foldl (+) (checksum a) b"
  by (simp add: checksum_def)

lemma foldl_plus: "foldl (+) (a :: u8) bs = a + sum_list bs"
  by (induction bs arbitrary: a) (simp_all add: add.assoc)

lemma checksum_sum: "checksum bs = sum_list bs"
  by (simp add: checksum_def foldl_plus)

lemma checksum_update:
  assumes "i < length bs"
  shows "checksum (bs[i := b]) = checksum bs - bs ! i + b"
proof -
  have "sum_list (bs[i := b]) + bs ! i = sum_list bs + b"
    using assms
  proof (induction bs arbitrary: i)
    case (Cons x xs)
    then show ?case by (cases i) (simp_all add: algebra_simps)
  qed simp
  then show ?thesis by (simp add: checksum_sum algebra_simps eq_diff_eq)
qed

lemma code_data_length: "length r = 6 \<Longrightarrow> length d = 4 \<Longrightarrow> length (code_data r n d) = 12"
  by (simp add: code_data_def i16_to_be_bytes_def)

lemma code_payload_length:
  assumes "code_laws k" and "length r = 6" and "length d = 4"
  shows "length (code_payload k r n d secret) = 16"
  using assms code_data_length [of r d n] by (simp add: code_payload_def Let_def code_laws_def)

text \<open>The parser of a code reads the bytes its text encodes.\<close>

definition parse_bytes :: "codec \<Rightarrow> u8 list \<Rightarrow> u8 list \<Rightarrow> (i16 \<times> u8 list) option" where
  "parse_bytes k bytes secret =
    (if length bytes = 16 \<and> checksum (take 15 bytes) = bytes ! 15 \<and>
        take 3 (hmac_sha256 k secret (take 12 bytes)) = take 3 (drop 12 (take 15 bytes))
     then Some (i16_from_be_bytes (bytes ! 6) (bytes ! 7), drop 8 (take 12 bytes)) else None)"

lemma code_parse_bytes:
  "code_parse k s secret = (case b32_decode k (to_uppercase (remove_dashes s)) of
      None \<Rightarrow> None | Some bytes \<Rightarrow> parse_bytes k bytes secret)"
  by (auto simp: code_parse_def parse_bytes_def Let_def split: option.splits)

lemma decode_formatted:
  assumes "code_laws k"
  shows "b32_decode k (to_uppercase (remove_dashes (format_code (to_uppercase (b32_encode k bs))))) = Some bs"
  using assms by (simp add: code_laws_def remove_dashes_format)

lemma parse_bytes_payload:
  assumes "code_laws k" and "length r = 6" and "length d = 4"
  shows "parse_bytes k (code_payload k r n d secret) secret = Some (n, d)"
proof -
  let ?data = "code_data r n d" and ?sig = "take 3 (hmac_sha256 k secret (code_data r n d))"
  have l: "length ?data = 12" using assms(2,3) by (rule code_data_length)
  have s: "length ?sig = 3" using assms(1) by (simp add: code_laws_def)
  have p: "code_payload k r n d secret = (?data @ ?sig) @ [checksum (?data @ ?sig)]"
    by (simp add: code_payload_def Let_def)
  have t15: "take 15 (code_payload k r n d secret) = ?data @ ?sig"
    and t12: "take 12 (code_payload k r n d secret) = ?data"
    and n15: "code_payload k r n d secret ! 15 = checksum (?data @ ?sig)"
    using l s by (simp_all add: p nth_append)
  have b: "code_payload k r n d secret ! 6 = ucast (drop_bit 8 n)"
      "code_payload k r n d secret ! 7 = ucast n"
    using assms(2) by (simp_all add: p code_data_def i16_to_be_bytes_def nth_append)
  have dr: "drop 8 ?data = d" using assms(2) by (simp add: code_data_def i16_to_be_bytes_def)
  have sg: "take 3 (drop 12 (?data @ ?sig)) = ?sig" using l by simp
  show ?thesis
    unfolding parse_bytes_def t15 t12 n15 b dr sg
    using code_payload_length [OF assms] by (simp add: i16_be_roundtrip)
qed

end
