(* ===== verification/Database.thy ===== *)
theory Database
  imports Subs NodeStore KeyCode
begin

text \<open>
  The PostgreSQL repositories (\<open>bin/api/postgres/{connection,subscription,keys,node}.rs\<close>): the
  tables, the row types, and each statement the program issues as a function on the tables. A
  statement that fails leaves the tables alone; whether one fails is decided by an argument
  \<open>fails\<close> (no client, or the query returns an error), on top of the constraint violations the
  statements themselves can run into.
\<close>

section \<open>Connection rows\<close>

text \<open>\<open>ConnRow\<close>, and the columns of the table \<open>connections\<close> it is written to.\<close>

record conn_row =
  cr_conn_id :: uuid
  cr_password :: "string option"
  cr_env :: string
  cr_created_at :: datetime
  cr_modified_at :: datetime
  cr_expires_at :: "datetime option"
  cr_subscription_id :: "uuid option"
  cr_wg :: "wg_param option"
  cr_proto :: proto_tag
  cr_token :: "uuid option"
  cr_is_deleted :: bool

record conn_columns =
  t_password :: "string option"
  t_env :: string
  t_created_at :: datetime
  t_modified_at :: datetime
  t_expires_at :: "datetime option"
  t_subscription_id :: "uuid option"
  t_proto :: proto_tag
  t_is_deleted :: bool
  t_wg_privkey :: "string option"
  t_wg_address :: "string option"
  t_token :: "uuid option"

definition conn_row_of :: "uuid \<Rightarrow> conn \<Rightarrow> conn_row" where
  "conn_row_of conn_id c = \<lparr>cr_conn_id = conn_id, cr_password = proto_password (c_proto c),
     cr_env = env_to_string (c_env c), cr_created_at = c_created_at c,
     cr_modified_at = c_modified_at c, cr_expires_at = c_expires_at c,
     cr_subscription_id = c_subscription_id c, cr_wg = proto_wireguard (c_proto c),
     cr_proto = proto_tag_of (c_proto c), cr_token = proto_token (c_proto c),
     cr_is_deleted = c_is_deleted c\<rparr>"

definition conn_of_row :: "conn_row \<Rightarrow> error + conn" where
  "conn_of_row row =
    (case (case cr_proto row of
         Wireguard \<Rightarrow> (case cr_wg row of
             None \<Rightarrow> Inl (Custom ''Missing Wireguard param'')
           | Some wg \<Rightarrow> Inr (ProtoWireguard wg))
       | Shadowsocks \<Rightarrow> (case cr_password row of
             None \<Rightarrow> Inl (Custom ''Missing Shadowsocks password'')
           | Some pw \<Rightarrow> Inr (ProtoShadowsocks pw))
       | Hysteria2 \<Rightarrow> (case cr_token row of
             None \<Rightarrow> Inl (Custom ''Missing Hysteria2 token'')
           | Some t \<Rightarrow> Inr (ProtoHysteria2 t))
       | tag \<Rightarrow> Inr (ProtoXray tag)) of
       Inl e \<Rightarrow> Inl e
     | Inr p \<Rightarrow> Inr \<lparr>c_env = env_of_str (cr_env row), c_proto = p,
         c_subscription_id = cr_subscription_id row, c_created_at = cr_created_at row,
         c_modified_at = cr_modified_at row, c_expires_at = cr_expires_at row,
         c_is_deleted = cr_is_deleted row\<rparr>)"

text \<open>The columns \<open>PgConn::insert\<close> writes and the row \<open>map_rows_to_conns\<close> reads.\<close>

definition columns_of_row :: "(u128 \<Rightarrow> string) \<Rightarrow> conn_row \<Rightarrow> conn_columns" where
  "columns_of_row v6_str row = \<lparr>t_password = cr_password row, t_env = cr_env row,
     t_created_at = cr_created_at row, t_modified_at = cr_modified_at row,
     t_expires_at = cr_expires_at row, t_subscription_id = cr_subscription_id row,
     t_proto = cr_proto row, t_is_deleted = cr_is_deleted row,
     t_wg_privkey = map_option (\<lambda>w. privkey (keys w)) (cr_wg row),
     t_wg_address = map_option (\<lambda>w. mask_to_string v6_str (wg_address w)) (cr_wg row),
     t_token = cr_token row\<rparr>"

definition row_of_columns :: "(string \<Rightarrow> u128 option) \<Rightarrow> uuid \<Rightarrow> conn_columns \<Rightarrow> conn_row" where
  "row_of_columns v6_parse conn_id t = \<lparr>cr_conn_id = conn_id, cr_password = t_password t,
     cr_env = t_env t, cr_created_at = t_created_at t, cr_modified_at = t_modified_at t,
     cr_expires_at = t_expires_at t, cr_subscription_id = t_subscription_id t,
     cr_wg = (case (t_wg_privkey t, t_wg_address t) of
         (Some pk, Some a) \<Rightarrow> map_option (\<lambda>m. \<lparr>keys = \<lparr>privkey = pk\<rparr>, wg_address = m\<rparr>)
           (mask_from_str v6_parse a)
       | _ \<Rightarrow> None),
     cr_proto = t_proto t, cr_token = t_token t, cr_is_deleted = t_is_deleted t\<rparr>"

section \<open>Node rows\<close>

record node_columns =
  nr_uuid :: uuid
  nr_env :: string
  nr_hostname :: string
  nr_address :: ip_addr
  nr_status :: node_status
  nr_created_at :: datetime
  nr_modified_at :: datetime
  nr_label :: string
  nr_interface :: string
  nr_cores :: "32 word"
  nr_max_bandwidth_bps :: int
  nr_country :: string
  nr_type :: node_type

record inbound_columns =
  ir_port :: "32 word"
  ir_stream_settings :: "stream_settings option"
  ir_uplink :: "int option"
  ir_downlink :: "int option"
  ir_conn_count :: "int option"
  ir_wg_privkey :: "string option"
  ir_wg_interface :: "string option"
  ir_wg_address :: "string option"
  ir_dns :: "ip_addr list option"
  ir_h2 :: "h2_settings option"
  ir_mtproto_secret :: "string option"

section \<open>The tables\<close>

record db =
  db_conns :: "(uuid, conn_columns) hmap"
  db_subs :: "(uuid, subscription) hmap"
  db_keys :: "(uuid, key) hmap"
  db_nodes :: "(uuid, node_columns) hmap"
  db_inbounds :: "(uuid \<times> proto_tag, inbound_columns) hmap"

definition db_wf :: "db \<Rightarrow> bool" where
  "db_wf d = (hm_wf (db_conns d) \<and> hm_wf (db_subs d) \<and> hm_wf (db_keys d) \<and>
     hm_wf (db_nodes d) \<and> hm_wf (db_inbounds d))"

subsection \<open>Table \<open>connections\<close>\<close>

definition pg_conn_insert ::
    "bool \<Rightarrow> (uuid \<Rightarrow> string) \<Rightarrow> (u128 \<Rightarrow> string) \<Rightarrow> conn_row \<Rightarrow> db \<Rightarrow> (error + unit) \<times> db" where
  "pg_conn_insert fails uuid_str v6_str row d =
    (if fails then (Inl Database, d)
     else (case hm_get (db_conns d) (cr_conn_id row) of
         Some _ \<Rightarrow> (Inl (Custom (''Connection '' @ uuid_str (cr_conn_id row) @ '' already exists'')), d)
       | None \<Rightarrow> (Inr (), d\<lparr>db_conns :=
           hm_insert (cr_conn_id row) (columns_of_row v6_str row) (db_conns d)\<rparr>)))"

definition pg_conn_delete :: "bool \<Rightarrow> uuid \<Rightarrow> db \<Rightarrow> (error + unit) \<times> db" where
  "pg_conn_delete fails conn_id d =
    (if fails then (Inl Database, d)
     else (Inr (), d\<lparr>db_conns := hm_modify conn_id (\<lambda>t. t\<lparr>t_is_deleted := True\<rparr>) (db_conns d)\<rparr>))"

definition pg_conn_restore :: "bool \<Rightarrow> uuid \<Rightarrow> db \<Rightarrow> (error + unit) \<times> db" where
  "pg_conn_restore fails conn_id d =
    (if fails then (Inl Database, d)
     else (Inr (), d\<lparr>db_conns := hm_modify conn_id (\<lambda>t. t\<lparr>t_is_deleted := False\<rparr>) (db_conns d)\<rparr>))"

definition pg_conn_all :: "bool \<Rightarrow> (string \<Rightarrow> u128 option) \<Rightarrow> db \<Rightarrow> error + conn_row list" where
  "pg_conn_all fails v6_parse d =
    (if fails then Inl Database
     else Inr (map (\<lambda>(i, t). row_of_columns v6_parse i t) (db_conns d)))"

subsection \<open>Table \<open>subscriptions\<close>\<close>

text \<open>The insert names four columns; the others get the table's defaults (\<open>now()\<close>, \<open>false\<close>,
  \<open>NULL\<close>).\<close>

definition pg_sub_create :: "bool \<Rightarrow> datetime \<Rightarrow> subscription \<Rightarrow> db \<Rightarrow> (error + subscription) \<times> db" where
  "pg_sub_create fails db_now s d =
    (if fails \<or> hm_get (db_subs d) (s_id s) \<noteq> None then (Inl Database, d)
     else (let row = \<lparr>s_id = s_id s, s_expires_at = s_expires_at s, s_referred_by = s_referred_by s,
             s_refer_code = s_refer_code s, s_created_at = db_now, s_updated_at = db_now,
             s_is_deleted = False, s_limit_bytes = None, s_downlink_bytes = None\<rparr>
       in (Inr row, d\<lparr>db_subs := hm_insert (s_id s) row (db_subs d)\<rparr>)))"

definition pg_sub_update :: "bool \<Rightarrow> datetime \<Rightarrow> uuid \<Rightarrow> datetime \<Rightarrow> string option \<Rightarrow> string \<Rightarrow> db
    \<Rightarrow> (error + subscription) \<times> db" where
  "pg_sub_update fails now i expires ref_by ref_code d =
    (if fails then (Inl Database, d)
     else (case hm_get (db_subs d) i of
         None \<Rightarrow> (Inl Database, d)
       | Some s \<Rightarrow> (let row = s\<lparr>s_expires_at := Some expires, s_referred_by := ref_by,
             s_updated_at := now, s_refer_code := ref_code\<rparr>
           in (Inr row, d\<lparr>db_subs := hm_insert i row (db_subs d)\<rparr>))))"

text \<open>\<open>add_days\<close> reads the row, computes in the program (where an overflow panics), and writes.
  The second statement can fail on its own.\<close>

definition pg_sub_add_days :: "bool \<Rightarrow> bool \<Rightarrow> plus_days \<Rightarrow> datetime \<Rightarrow> uuid \<Rightarrow> int \<Rightarrow> db
    \<Rightarrow> (error, subscription) outcome \<times> db" where
  "pg_sub_add_days fails1 fails2 pd now i days d =
    (if fails1 then (Err Database, d)
     else (case hm_get (db_subs d) i of
         None \<Rightarrow> (Err Database, d)
       | Some s \<Rightarrow>
           (let base = (case s_expires_at s of Some e \<Rightarrow> if now < e then e else now | None \<Rightarrow> now) in
            case pd base days of
              None \<Rightarrow> (Panic, d)
            | Some e' \<Rightarrow>
                if fails2 then (Err Database, d)
                else (let row = s\<lparr>s_expires_at := Some e', s_updated_at := now\<rparr>
                  in (Ret row, d\<lparr>db_subs := hm_insert i row (db_subs d)\<rparr>)))))"

definition pg_sub_all :: "bool \<Rightarrow> db \<Rightarrow> error + subscription list" where
  "pg_sub_all fails d =
    (if fails then Inl Database
     else Inr (rev (sort_key s_created_at (filter (\<lambda>s. \<not> s_is_deleted s) (map snd (db_subs d))))))"

subsection \<open>Table \<open>keys\<close>\<close>

definition pg_key_get :: "bool \<Rightarrow> string \<Rightarrow> db \<Rightarrow> key option" where
  "pg_key_get fails code d =
    (if fails then None else List.find (\<lambda>k. k_code k = code) (map snd (db_keys d)))"

definition pg_key_insert :: "bool \<Rightarrow> key \<Rightarrow> db \<Rightarrow> (error + unit) \<times> db" where
  "pg_key_insert fails k d =
    (if fails \<or> hm_get (db_keys d) (k_id k) \<noteq> None \<or>
        list_ex (\<lambda>k'. k_code k' = k_code k) (map snd (db_keys d)) then (Inl Database, d)
     else (Inr (), d\<lparr>db_keys := hm_insert (k_id k) k (db_keys d)\<rparr>))"

definition pg_key_activate :: "bool \<Rightarrow> datetime \<Rightarrow> key \<Rightarrow> db \<Rightarrow> (error + unit) \<times> db" where
  "pg_key_activate fails now k d =
    (if fails then (Inl Database, d)
     else (Inr (), d\<lparr>db_keys := hm_modify (k_id k) (\<lambda>row. row\<lparr>k_activated := True,
         k_subscription_id := k_subscription_id k, k_modified_at := now\<rparr>) (db_keys d)\<rparr>))"

subsection \<open>Tables \<open>nodes\<close> and \<open>inbounds\<close>\<close>

text \<open>A new row gets the default \<open>node_type\<close>; on conflict \<open>created_at\<close> and \<open>node_type\<close> keep
  their values.\<close>

definition node_columns_of :: "node \<Rightarrow> node_columns option \<Rightarrow> node_columns" where
  "node_columns_of n old = \<lparr>nr_uuid = n_uuid n, nr_env = env_to_string (n_env n),
     nr_hostname = n_hostname n, nr_address = V4 (n_address n), nr_status = n_status n,
     nr_created_at = (case old of None \<Rightarrow> n_created_at n | Some r \<Rightarrow> nr_created_at r),
     nr_modified_at = n_modified_at n, nr_label = n_label n, nr_interface = n_interface n,
     nr_cores = of_nat (n_cores n), nr_max_bandwidth_bps = n_max_bandwidth_bps n,
     nr_country = n_country n,
     nr_type = (case old of None \<Rightarrow> Common | Some r \<Rightarrow> nr_type r)\<rparr>"

definition inbound_columns_of :: "(u128 \<Rightarrow> string) \<Rightarrow> inbound \<Rightarrow> inbound_columns" where
  "inbound_columns_of v6_str i = \<lparr>ir_port = ucast (i_port i),
     ir_stream_settings = i_stream_settings i, ir_uplink = i_uplink i, ir_downlink = i_downlink i,
     ir_conn_count = i_conn_count i,
     ir_wg_privkey = map_option (\<lambda>w. privkey (ws_keys w)) (i_wg i),
     ir_wg_interface = map_option ws_interface (i_wg i),
     ir_wg_address = map_option (\<lambda>w. mask_to_string v6_str (ws_address w)) (i_wg i),
     ir_dns = map_option (\<lambda>w. map V4 (ws_dns w)) (i_wg i),
     ir_h2 = i_h2 i, ir_mtproto_secret = i_mtproto_secret i\<rparr>"

definition node_inbound_list :: "node \<Rightarrow> inbound list" where
  "node_inbound_list n = List.map_filter (n_inbounds n) Enum.enum"

definition pg_node_upsert :: "bool \<Rightarrow> (u128 \<Rightarrow> string) \<Rightarrow> uuid \<Rightarrow> node \<Rightarrow> db \<Rightarrow> (error + unit) \<times> db" where
  "pg_node_upsert fails v6_str node_id n d =
    (if fails then (Inl Database, d)
     else (Inr (), d\<lparr>
       db_nodes := hm_insert node_id (node_columns_of n (hm_get (db_nodes d) node_id)) (db_nodes d),
       db_inbounds := fold (\<lambda>i m. hm_insert (node_id, i_tag i) (inbound_columns_of v6_str i) m)
         (node_inbound_list n) (db_inbounds d)\<rparr>))"

definition inbound_of_columns ::
    "(string \<Rightarrow> u128 option) \<Rightarrow> proto_tag \<Rightarrow> inbound_columns \<Rightarrow> inbound" where
  "inbound_of_columns v6_parse tag r = \<lparr>i_tag = tag, i_port = ucast (ir_port r),
     i_stream_settings = ir_stream_settings r, i_uplink = ir_uplink r, i_downlink = ir_downlink r,
     i_conn_count = ir_conn_count r,
     i_wg = (case (ir_wg_privkey r, ir_wg_interface r,
          Option.bind (ir_wg_address r) (mask_from_str v6_parse), ir_dns r) of
         (Some pk, Some itf, Some a, Some dns) \<Rightarrow> Some \<lparr>ws_interface = itf, ws_address = a,
            ws_port = ucast (ir_port r), ws_keys = \<lparr>privkey = pk\<rparr>,
            ws_dns = List.map_filter (\<lambda>ip. case ip of V4 v4 \<Rightarrow> Some v4 | V6 _ \<Rightarrow> None) dns\<rparr>
       | _ \<Rightarrow> None),
     i_h2 = ir_h2 r, i_mtproto_secret = ir_mtproto_secret r\<rparr>"

text \<open>The join of the two tables grouped by node: one node per row whose address is IPv4, with the
  inbounds stored for it.\<close>

definition node_of_columns ::
    "(string \<Rightarrow> u128 option) \<Rightarrow> db \<Rightarrow> uuid \<Rightarrow> node_columns \<Rightarrow> node option" where
  "node_of_columns v6_parse d node_id r = (case nr_address r of
      V6 _ \<Rightarrow> None
    | V4 ip \<Rightarrow> Some \<lparr>n_uuid = nr_uuid r, n_env = env_of_str (nr_env r),
        n_hostname = nr_hostname r, n_address = ip, n_status = nr_status r, n_label = nr_label r,
        n_interface = nr_interface r, n_created_at = nr_created_at r,
        n_modified_at = nr_modified_at r,
        n_inbounds = (\<lambda>tag. map_option (inbound_of_columns v6_parse tag)
          (hm_get (db_inbounds d) (node_id, tag))),
        n_cores = unat (scast (nr_cores r) :: u64), n_max_bandwidth_bps = nr_max_bandwidth_bps r,
        n_country = nr_country r, n_type = nr_type r\<rparr>)"

definition pg_node_all :: "bool \<Rightarrow> (string \<Rightarrow> u128 option) \<Rightarrow> db \<Rightarrow> error + node list" where
  "pg_node_all fails v6_parse d =
    (if fails then Inl Database
     else Inr (List.map_filter (\<lambda>(i, r). node_of_columns v6_parse d i r) (db_nodes d)))"

definition pg_node_update_status ::
    "bool \<Rightarrow> datetime \<Rightarrow> uuid \<Rightarrow> string \<Rightarrow> node_status \<Rightarrow> db \<Rightarrow> (error + unit) \<times> db" where
  "pg_node_update_status fails now u env_str st d =
    (if fails then (Inl Database, d)
     else (Inr (), d\<lparr>db_nodes := map (\<lambda>(i, r).
        if nr_uuid r = u \<and> nr_env r = env_str then (i, r\<lparr>nr_status := st, nr_modified_at := now\<rparr>)
        else (i, r)) (db_nodes d)\<rparr>))"

section \<open>Round trips\<close>

text \<open>Connections that come back from the table as they were written: the protocol is not
  MTProto, and a WireGuard address has a prefix length in range.\<close>

fun proto_storable :: "proto \<Rightarrow> bool" where
  "proto_storable (ProtoMtproto _) = False"
| "proto_storable (ProtoXray tag) = is_xray_tag tag"
| "proto_storable (ProtoWireguard w) = cidr_ok (wg_address w)"
| "proto_storable _ = True"

lemma row_columns_roundtrip:
  assumes "v6_laws v6_str v6_parse" and "proto_storable (c_proto c)"
  shows "row_of_columns v6_parse i (columns_of_row v6_str (conn_row_of i c)) = conn_row_of i c"
  using assms mask_from_to [OF assms(1)]
  by (cases "c_proto c") (simp_all add: row_of_columns_def columns_of_row_def conn_row_of_def)

lemma conn_row_roundtrip:
  assumes "proto_storable (c_proto c)"
  shows "conn_of_row (conn_row_of i c) = Inr (c\<lparr>c_env := env_norm (c_env c)\<rparr>)"
  using assms
  by (cases "c_proto c")
     (auto simp: conn_of_row_def conn_row_of_def env_of_to is_xray_tag_def)

lemma conn_of_row_mtproto:
  assumes "c_proto c = ProtoMtproto secret"
  shows "conn_of_row (conn_row_of i c) =
     Inr (c\<lparr>c_env := env_norm (c_env c), c_proto := ProtoXray Mtproto\<rparr>)"
  using assms by (simp add: conn_of_row_def conn_row_of_def env_of_to)

lemma conn_of_row_fields:
  assumes "conn_of_row r = Inr c"
  shows "c_is_deleted c = cr_is_deleted r \<and> c_subscription_id c = cr_subscription_id r \<and>
    proto_tag_of (c_proto c) = cr_proto r"
  using assms by (auto simp: conn_of_row_def split: sum.splits proto_tag.splits option.splits)

section \<open>What the statements do to the tables\<close>

lemma pg_conn_insert_conns:
  "hm_get (db_conns (snd (pg_conn_insert f us vs row d))) j =
    (if \<not> f \<and> j = cr_conn_id row \<and> hm_get (db_conns d) j = None
     then Some (columns_of_row vs row) else hm_get (db_conns d) j)"
  by (auto simp: pg_conn_insert_def split: option.splits)

lemma pg_conn_insert_wf: "db_wf d \<Longrightarrow> db_wf (snd (pg_conn_insert f us vs row d))"
  by (auto simp: pg_conn_insert_def db_wf_def split: option.splits)

lemma pg_conn_delete_wf: "db_wf d \<Longrightarrow> db_wf (snd (pg_conn_delete f i d))"
  by (auto simp: pg_conn_delete_def db_wf_def)

lemma pg_conn_restore_wf: "db_wf d \<Longrightarrow> db_wf (snd (pg_conn_restore f i d))"
  by (auto simp: pg_conn_restore_def db_wf_def)

lemma pg_sub_create_wf: "db_wf d \<Longrightarrow> db_wf (snd (pg_sub_create f t s d))"
  by (auto simp: pg_sub_create_def Let_def db_wf_def)

lemma pg_sub_update_wf: "db_wf d \<Longrightarrow> db_wf (snd (pg_sub_update f t i x rb rc d))"
  by (auto simp: pg_sub_update_def Let_def db_wf_def split: option.splits)

lemma pg_sub_add_days_wf: "db_wf d \<Longrightarrow> db_wf (snd (pg_sub_add_days f g pd t i n d))"
  by (auto simp: pg_sub_add_days_def Let_def db_wf_def split: option.splits)

lemma pg_key_activate_wf: "db_wf d \<Longrightarrow> db_wf (snd (pg_key_activate f t k d))"
  by (auto simp: pg_key_activate_def db_wf_def)

lemma pg_key_insert_wf: "db_wf d \<Longrightarrow> db_wf (snd (pg_key_insert f k d))"
  by (auto simp: pg_key_insert_def db_wf_def)

lemma fold_insert_wf: "hm_wf m \<Longrightarrow> hm_wf (fold (\<lambda>i m. hm_insert (f i) (g i) m) xs m)"
  by (induction xs arbitrary: m) simp_all

lemma pg_node_upsert_wf: "db_wf d \<Longrightarrow> db_wf (snd (pg_node_upsert f vs i n d))"
  by (auto simp: pg_node_upsert_def db_wf_def intro!: fold_insert_wf)

lemma map_fst_modify_if:
  "map fst (map (\<lambda>(i, r). if P r then (i, g r) else (i, r)) xs) = map fst xs"
  by (induction xs) auto

lemma pg_node_update_status_wf: "db_wf d \<Longrightarrow> db_wf (snd (pg_node_update_status f t u e st d))"
  unfolding pg_node_update_status_def db_wf_def
  by (auto simp: map_fst_modify_if simp del: map_map)

lemmas pg_wf = pg_conn_insert_wf pg_conn_delete_wf pg_conn_restore_wf pg_sub_create_wf
  pg_sub_update_wf pg_sub_add_days_wf pg_key_activate_wf pg_key_insert_wf pg_node_upsert_wf
  pg_node_update_status_wf

text \<open>Every statement but those on \<open>connections\<close> leaves that table alone.\<close>

lemma pg_conns_frame [simp]:
  "db_conns (snd (pg_sub_create f t s d)) = db_conns d"
  "db_conns (snd (pg_sub_update f t i x rb rc d)) = db_conns d"
  "db_conns (snd (pg_sub_add_days f g pd t i n d)) = db_conns d"
  "db_conns (snd (pg_key_activate f t k d)) = db_conns d"
  "db_conns (snd (pg_key_insert f k d)) = db_conns d"
  "db_conns (snd (pg_node_upsert f vs i n' d)) = db_conns d"
  "db_conns (snd (pg_node_update_status f t u e st d)) = db_conns d"
  by (simp_all add: pg_sub_create_def pg_sub_update_def pg_sub_add_days_def pg_key_activate_def
      pg_key_insert_def pg_node_upsert_def pg_node_update_status_def Let_def split: option.split)

end
