(* ===== verification/Sync.thy ===== *)
theory Sync
  imports Database
begin

text \<open>
  The API server's state and the operations that keep its memory, its database and the message
  bus together (\<open>bin/api/service.rs\<close>, \<open>bin/api/sync/{mod,tasks}.rs\<close>). The world an operation
  works on is the in-memory cache, the tables, the messages published so far, and a counter of
  external events. Everything the operations take from outside (the clock, whether a statement
  or a send fails, random values, chrono's and the crates' conversions) is a field of the
  parameter \<open>ext\<close>, indexed by that counter, so that two events are never forced to agree.
\<close>

section \<open>The world\<close>

record ext =
  x_clock :: "nat \<Rightarrow> datetime"
  x_db_fails :: "nat \<Rightarrow> bool"
  x_send_fails :: "nat \<Rightarrow> bool"
  x_ser_fails :: "nat \<Rightarrow> bool"
  x_new_uuid :: "nat \<Rightarrow> uuid"
  x_password :: "nat \<Rightarrow> string"
  x_privkey :: "nat \<Rightarrow> string"
  x_random :: "nat \<Rightarrow> u8 list"
  x_plus_days :: plus_days
  x_uuid_str :: "uuid \<Rightarrow> string"
  x_v6_str :: "u128 \<Rightarrow> string"
  x_v6_parse :: "string \<Rightarrow> u128 option"
  x_err_str :: "sync_error \<Rightarrow> string"

record cache =
  connections :: "conn connections"
  subscriptions :: subscriptions
  nodes :: nodes

definition cache_new :: cache where
  "cache_new = \<lparr>connections = [], subscriptions = [], nodes = []\<rparr>"

record world =
  w_mem :: cache
  w_db :: db
  w_pub :: "(topic \<times> message list) list"
  w_tick :: nat

text \<open>Reading the clock, drawing a random value and issuing a statement are external events.\<close>

definition tick :: "world \<Rightarrow> world" where
  "tick w = w\<lparr>w_tick := Suc (w_tick w)\<rparr>"

definition utc_now :: "ext \<Rightarrow> world \<Rightarrow> datetime" where
  "utc_now x w = x_clock x (w_tick w)"

definition run_db :: "ext \<Rightarrow> (bool \<Rightarrow> datetime \<Rightarrow> db \<Rightarrow> 'r \<times> db) \<Rightarrow> world \<Rightarrow> 'r \<times> world" where
  "run_db x stmt w =
    (let (r, d) = stmt (x_db_fails x (w_tick w)) (x_clock x (w_tick w)) (w_db w)
     in (r, tick (w\<lparr>w_db := d\<rparr>)))"

text \<open>\<open>rkyv::to_bytes\<close> followed by \<open>Publisher::send_binary\<close>: a message that does not serialise or
  whose send fails is not delivered.\<close>

definition publish :: "ext \<Rightarrow> topic \<Rightarrow> message list \<Rightarrow> world \<Rightarrow> (sync_error + unit) \<times> world" where
  "publish x topic msg w =
    (if x_ser_fails x (w_tick w) then (Inl SRkyvSerialize, tick w)
     else if x_send_fails x (w_tick w) then (Inl SZmq, tick w)
     else (Inr (), tick (w\<lparr>w_pub := w_pub w @ [(topic, msg)]\<rparr>)))"

abbreviation set_conns :: "conn connections \<Rightarrow> world \<Rightarrow> world" where
  "set_conns m w \<equiv> w\<lparr>w_mem := (w_mem w)\<lparr>connections := m\<rparr>\<rparr>"

abbreviation set_subs :: "subscriptions \<Rightarrow> world \<Rightarrow> world" where
  "set_subs m w \<equiv> w\<lparr>w_mem := (w_mem w)\<lparr>subscriptions := m\<rparr>\<rparr>"

abbreviation set_nodes :: "nodes \<Rightarrow> world \<Rightarrow> world" where
  "set_nodes m w \<equiv> w\<lparr>w_mem := (w_mem w)\<lparr>nodes := m\<rparr>\<rparr>"

abbreviation mem_conns :: "world \<Rightarrow> conn connections" where
  "mem_conns w \<equiv> connections (w_mem w)"

abbreviation mem_subs :: "world \<Rightarrow> subscriptions" where
  "mem_subs w \<equiv> subscriptions (w_mem w)"

abbreviation mem_nodes :: "world \<Rightarrow> nodes" where
  "mem_nodes w \<equiv> nodes (w_mem w)"

abbreviation db_table :: "world \<Rightarrow> (uuid, conn_columns) hmap" where
  "db_table w \<equiv> db_conns (w_db w)"

type_synonym 'a sync_result = "(sync_error, 'a) outcome \<times> world"

section \<open>Adding\<close>

text \<open>A status the storage never returns here becomes an error, whose text is kept without the
  printed status. Validation of nodes and connections always succeeds.\<close>

definition unexpected :: string where
  "unexpected = ''Unexpected operation status: ''"

definition add_node :: "ext \<Rightarrow> uuid \<Rightarrow> node \<Rightarrow> world \<Rightarrow> status sync_result" where
  "add_node x node_id n w =
    (case run_db x (\<lambda>fails _. pg_node_upsert fails (x_v6_str x) node_id n) w of
       (Inl e, w) \<Rightarrow> (Err (SDatabase e), w)
     | (Inr _, w) \<Rightarrow> (case nodes_add n (mem_nodes w) of (st, m) \<Rightarrow>
         ((case st of
             Ok _ \<Rightarrow> Ret (Ok node_id)
           | AlreadyExist _ \<Rightarrow> Ret (Ok node_id)
           | Updated _ \<Rightarrow> Ret (Ok node_id)
           | NotModified i \<Rightarrow> Ret (NotModified i)
           | _ \<Rightarrow> Err (SMemory unexpected)),
          set_nodes m w)))"

definition add_sub :: "ext \<Rightarrow> subscription \<Rightarrow> world \<Rightarrow> status sync_result" where
  "add_sub x s w =
    (case run_db x (\<lambda>fails now. pg_sub_create fails now s) w of
       (Inl e, w) \<Rightarrow> (Err (SDatabase e), w)
     | (Inr _, w) \<Rightarrow> (case subs_add s (mem_subs w) of (st, m) \<Rightarrow>
         ((case st of
             Ok i \<Rightarrow> Ret (Ok i)
           | Updated i \<Rightarrow> Ret (Updated i)
           | AlreadyExist i \<Rightarrow> Ret (AlreadyExist i)
           | BadRequest i msg \<Rightarrow> Ret (BadRequest i msg)
           | _ \<Rightarrow> Err (SMemory unexpected)),
          set_subs m w)))"

definition add_conn :: "ext \<Rightarrow> uuid \<Rightarrow> conn \<Rightarrow> world \<Rightarrow> status sync_result" where
  "add_conn x conn_id c w =
    (case run_db x (\<lambda>fails _. pg_conn_insert fails (x_uuid_str x) (x_v6_str x)
            (conn_row_of conn_id c)) w of
       (Inl e, w) \<Rightarrow> (Err (SDatabase e), w)
     | (Inr _, w) \<Rightarrow> (case conns_add conn_id c (mem_conns w) of (st, m) \<Rightarrow>
         ((case st of
             Ok i \<Rightarrow> Ret (Ok i)
           | AlreadyExist i \<Rightarrow> Ret (Ok i)
           | BadRequest i msg \<Rightarrow> Ret (BadRequest i msg)
           | _ \<Rightarrow> Err (SMemory unexpected)),
          set_conns m w)))"

section \<open>Deleting and restoring\<close>

text \<open>Where a connection's messages go: Hysteria2 clients authenticate at the authentication
  service, everything else lives on the nodes of the connection's environment.\<close>

definition conn_topic :: "conn \<Rightarrow> topic" where
  "conn_topic c = (if proto_token (c_proto c) \<noteq> None then AuthTopic else Updates (c_env c))"

definition mark :: "bool \<Rightarrow> ext \<Rightarrow> uuid \<Rightarrow> world \<Rightarrow> world" where
  "mark deleted x conn_id w = tick (set_conns (hm_modify conn_id
     (\<lambda>c. set_modified_at (utc_now x w) (set_deleted deleted c)) (mem_conns w)) w)"

definition delete_connection :: "ext \<Rightarrow> uuid \<Rightarrow> conn \<Rightarrow> world \<Rightarrow> status sync_result" where
  "delete_connection x conn_id c w = (case hm_get (mem_conns w) conn_id of
      None \<Rightarrow> (Ret (NotFound conn_id), w)
    | Some existing \<Rightarrow>
        if c_is_deleted existing then (Ret (NotModified conn_id), w)
        else (case run_db x (\<lambda>fails _. pg_conn_delete fails conn_id) w of
            (Inl e, w) \<Rightarrow> (Err (SDatabase e), w)
          | (Inr _, w) \<Rightarrow> (case publish x (conn_topic c) [as_delete_message c conn_id] w of
                (Inl e, w) \<Rightarrow> (Err e, w)
              | (Inr _, w) \<Rightarrow> (Ret (Ok conn_id), mark True x conn_id w))))"

definition restore_connection :: "ext \<Rightarrow> uuid \<Rightarrow> world \<Rightarrow> status sync_result" where
  "restore_connection x conn_id w = (case hm_get (mem_conns w) conn_id of
      None \<Rightarrow> (Ret (NotFound conn_id), w)
    | Some _ \<Rightarrow> (case run_db x (\<lambda>fails _. pg_conn_restore fails conn_id) w of
          (Inl e, w) \<Rightarrow> (Err (SDatabase e), w)
        | (Inr _, w) \<Rightarrow> (Ret (Ok conn_id), mark False x conn_id w)))"

text \<open>One of the tasks \<open>join_all\<close> runs, and all of them one after the other. The tasks work on
  different connections, so their interleavings differ in the order of the messages only.\<close>

definition restore_task :: "ext \<Rightarrow> uuid \<times> conn \<Rightarrow> world \<Rightarrow> uuid option \<times> world" where
  "restore_task x ic w = (case ic of (conn_id, c) \<Rightarrow>
     (case publish x (conn_topic c) [as_update_message c conn_id] w of
        (Inl _, w) \<Rightarrow> (None, w)
      | (Inr _, w) \<Rightarrow> (case restore_connection x conn_id w of
            (Ret (Ok _), w) \<Rightarrow> (Some conn_id, w)
          | (Ret (Updated _), w) \<Rightarrow> (Some conn_id, w)
          | (_, w) \<Rightarrow> (None, w))))"

fun restore_tasks :: "ext \<Rightarrow> (uuid \<times> conn) list \<Rightarrow> world \<Rightarrow> uuid list \<times> world" where
  "restore_tasks x [] w = ([], w)"
| "restore_tasks x (ic # ics) w =
    (let (r, w) = restore_task x ic w; (rs, w) = restore_tasks x ics w in
     ((case r of Some i \<Rightarrow> i # rs | None \<Rightarrow> rs), w))"

definition conns_to_restore :: "uuid \<Rightarrow> conn connections \<Rightarrow> (uuid \<times> conn) list" where
  "conns_to_restore sub_id m = (case get_by_subscription_id sub_id m of
      Some cs \<Rightarrow> filter (\<lambda>(_, c). c_is_deleted c) cs
    | None \<Rightarrow> [])"

definition restore_connections_by_subscription :: "ext \<Rightarrow> uuid \<Rightarrow> world \<Rightarrow> uuid list sync_result" where
  "restore_connections_by_subscription x sub_id w =
    (let (restored, w) = restore_tasks x (conns_to_restore sub_id (mem_conns w)) w
     in (Ret restored, w))"

section \<open>Updating nodes and subscriptions\<close>

definition sync_node_status :: "ext \<Rightarrow> uuid \<Rightarrow> env \<Rightarrow> node_status \<Rightarrow> world \<Rightarrow> unit sync_result" where
  "sync_node_status x u e st w = (case nodes_get e u (mem_nodes w) of
      None \<Rightarrow> (Ret (), w)
    | Some n \<Rightarrow>
        if n_status n = st then (Ret (), w)
        else (case run_db x (\<lambda>fails now. pg_node_update_status fails now u (env_to_string e) st) w of
            (Inl er, w) \<Rightarrow> (Err (SDatabase er), w)
          | (Inr _, w) \<Rightarrow> (Ret (), set_nodes (nodes_modify e u (node_update_status st) (mem_nodes w)) w)))"

record sub_req =
  q_referred_by :: "string option"
  q_refer_code :: "string option"
  q_days :: "int option"
  q_limit_bytes :: "int option"

text \<open>The requested changes to the subscription in memory, in the source's order; \<open>None\<close> where
  extending it overflows.\<close>

definition apply_sub_req :: "plus_days \<Rightarrow> datetime \<Rightarrow> sub_req \<Rightarrow> subscription \<Rightarrow> subscription option" where
  "apply_sub_req pd now req s =
    map_option (\<lambda>s. (case q_limit_bytes req of Some b \<Rightarrow> set_limit_bytes b | None \<Rightarrow> id)
        ((case q_refer_code req of Some c \<Rightarrow> set_refer_code c | None \<Rightarrow> id)
          ((case q_referred_by req of Some r \<Rightarrow> set_referred_by r | None \<Rightarrow> id) s)))
      (case q_days req of Some days \<Rightarrow> Subs.extend pd now days s | None \<Rightarrow> Some s)"

definition update_sub :: "ext \<Rightarrow> uuid \<Rightarrow> sub_req \<Rightarrow> world \<Rightarrow> status sync_result" where
  "update_sub x sub_id req w = (case hm_get (mem_subs w) sub_id of
      None \<Rightarrow> (Ret (NotFound sub_id), w)
    | Some s \<Rightarrow> (case apply_sub_req (x_plus_days x) (utc_now x w) req s of
          None \<Rightarrow> (Panic, w)
        | Some s' \<Rightarrow>
            (let w = tick (set_subs (hm_insert sub_id s' (mem_subs w)) w) in
             case s_expires_at s' of
               None \<Rightarrow> (Err (InconsistentState ''Subscription'' sub_id), w)
             | Some e \<Rightarrow> (case run_db x (\<lambda>fails now. pg_sub_update fails now sub_id e
                     (referred_by s') (refer_code s')) w of
                   (Inl er, w) \<Rightarrow> (Err (SDatabase er), w)
                 | (Inr _, w) \<Rightarrow> (Ret (Updated sub_id), w)))))"

text \<open>\<open>add_days\<close> reads the clock for the activity test, for the new expiry, and inside
  \<open>set_expires_at\<close> twice. Its error is ignored.\<close>

definition extended_expiry :: "plus_days \<Rightarrow> datetime \<Rightarrow> int \<Rightarrow> datetime option \<Rightarrow> datetime option" where
  "extended_expiry pd now days expires =
    (case expires of
       Some e \<Rightarrow> if now < e then pd e days else pd now days
     | None \<Rightarrow> pd now days)"

definition add_days :: "ext \<Rightarrow> uuid \<Rightarrow> int \<Rightarrow> world \<Rightarrow> status sync_result" where
  "add_days x sub_id days w =
    (let was_inactive = (case hm_get (mem_subs w) sub_id of
           Some s \<Rightarrow> \<not> is_active (utc_now x w) s | None \<Rightarrow> False);
         w = tick w
     in case hm_get (mem_subs w) sub_id of
       None \<Rightarrow> (Ret (NotFound sub_id), w)
     | Some s \<Rightarrow> (case extended_expiry (x_plus_days x) (utc_now x w) days (s_expires_at s) of
           None \<Rightarrow> (Panic, w)
         | Some new_expires \<Rightarrow>
             (let w = tick w;
                  s' = snd (set_sub_expires_at (utc_now x w) (utc_now x (tick w)) new_expires s);
                  w = tick (tick (set_subs (hm_insert sub_id s' (mem_subs w)) w))
              in case run_db x (\<lambda>fails now. pg_sub_add_days fails (x_db_fails x (Suc (w_tick w)))
                     (x_plus_days x) now sub_id days) w of
                (Panic, w) \<Rightarrow> (Panic, tick w)
              | (Err e, w) \<Rightarrow> (Err (SDatabase e), tick w)
              | (Ret row, w) \<Rightarrow>
                  (let w = tick w;
                       w = (if was_inactive
                            then snd (restore_connections_by_subscription x sub_id w) else w)
                   in (Ret (Updated (s_id row)), w)))))"

end
