(* ===== verification/SyncLaws.thy ===== *)
theory SyncLaws
  imports Sync
begin

text \<open>
  What the operations of \<open>Sync\<close> do to the world, branch by branch: deletion and restoration of
  connections, whole batches of them, and the changes to subscriptions. The component theories
  above reason with these lemmas and not with the definitions.
\<close>

section \<open>External events\<close>

lemma tick_simps [simp]:
  "w_mem (tick w) = w_mem w" "w_db (tick w) = w_db w" "w_pub (tick w) = w_pub w"
  "w_tick (tick w) = Suc (w_tick w)"
  by (simp_all add: tick_def)

lemma run_db_simps [simp]:
  "w_mem (snd (run_db x stmt w)) = w_mem w" "w_pub (snd (run_db x stmt w)) = w_pub w"
  "w_db (snd (run_db x stmt w)) = snd (stmt (x_db_fails x (w_tick w)) (x_clock x (w_tick w)) (w_db w))"
  "fst (run_db x stmt w) = fst (stmt (x_db_fails x (w_tick w)) (x_clock x (w_tick w)) (w_db w))"
  "w_tick (snd (run_db x stmt w)) = Suc (w_tick w)"
  by (simp_all add: run_db_def split: prod.split)

lemma run_dbD:
  assumes "run_db x stmt w = (r, w')"
  shows "w_mem w' = w_mem w" "w_pub w' = w_pub w" "w_tick w' = Suc (w_tick w)"
    "(r, w_db w') = stmt (x_db_fails x (w_tick w)) (x_clock x (w_tick w)) (w_db w)"
  using assms by (auto simp: run_db_def split: prod.splits)

lemma publishD:
  assumes "publish x t msg w = (r, w')"
  shows "w_mem w' = w_mem w" "w_db w' = w_db w" "w_tick w' = Suc (w_tick w)"
    "w_pub w' = (case r of Inr _ \<Rightarrow> w_pub w @ [(t, msg)] | Inl _ \<Rightarrow> w_pub w)"
    "r = Inr () \<longleftrightarrow> \<not> x_ser_fails x (w_tick w) \<and> \<not> x_send_fails x (w_tick w)"
  using assms by (auto simp: publish_def split: if_splits)

lemma mark_simps [simp]:
  "w_db (mark b x i w) = w_db w" "w_pub (mark b x i w) = w_pub w"
  "mem_subs (mark b x i w) = mem_subs w" "mem_nodes (mark b x i w) = mem_nodes w"
  "w_tick (mark b x i w) = Suc (w_tick w)"
  by (simp_all add: mark_def)

lemma mark_conns:
  "hm_get (mem_conns (mark b x i w)) j =
    (if j = i then map_option (\<lambda>c. set_modified_at (utc_now x w) (set_deleted b c)) (hm_get (mem_conns w) i)
     else hm_get (mem_conns w) j)"
  by (simp add: mark_def)

lemma mark_wf [simp]: "hm_wf (mem_conns w) \<Longrightarrow> hm_wf (mem_conns (mark b x i w))"
  by (simp add: mark_def)

text \<open>No external failure at a point in time, or at any.\<close>

definition healthy_at :: "ext \<Rightarrow> nat \<Rightarrow> bool" where
  "healthy_at x n = (\<not> x_db_fails x n \<and> \<not> x_ser_fails x n \<and> \<not> x_send_fails x n)"

definition healthy_from :: "ext \<Rightarrow> nat \<Rightarrow> bool" where
  "healthy_from x n = (\<forall>k\<ge>n. healthy_at x k)"

lemma healthy_fromD: "healthy_from x n \<Longrightarrow> n \<le> k \<Longrightarrow> healthy_at x k"
  by (simp add: healthy_from_def)

lemma healthy_from_mono: "healthy_from x n \<Longrightarrow> n \<le> m \<Longrightarrow> healthy_from x m"
  by (simp add: healthy_from_def)

section \<open>Deleting a connection\<close>

text \<open>All that a deletion can do.\<close>

lemma delete_connection_cases:
  assumes "delete_connection x i c w = (r, w')"
  obtains
    (absent) "hm_get (mem_conns w) i = None" "r = Ret (NotFound i)" "w' = w"
  | (already) old where "hm_get (mem_conns w) i = Some old" "c_is_deleted old"
      "r = Ret (NotModified i)" "w' = w"
  | (db_error) old where "hm_get (mem_conns w) i = Some old" "\<not> c_is_deleted old"
      "r = Err (SDatabase Database)" "w' = tick w" "x_db_fails x (w_tick w)"
  | (bus_error) old e where "hm_get (mem_conns w) i = Some old" "\<not> c_is_deleted old"
      "r = Err e" "w_mem w' = w_mem w" "w_pub w' = w_pub w" "w_tick w' = w_tick w + 2"
      "w_db w' = snd (pg_conn_delete False i (w_db w))"
      "\<not> x_db_fails x (w_tick w)" "\<not> healthy_at x (w_tick w + 1)"
  | (deleted) old where "hm_get (mem_conns w) i = Some old" "\<not> c_is_deleted old"
      "r = Ret (Ok i)" "w_db w' = snd (pg_conn_delete False i (w_db w))"
      "w_pub w' = w_pub w @ [(conn_topic c, [as_delete_message c i])]"
      "mem_conns w' = hm_modify i (\<lambda>c. set_modified_at (x_clock x (w_tick w + 2)) (set_deleted True c))
         (mem_conns w)"
      "mem_subs w' = mem_subs w" "mem_nodes w' = mem_nodes w" "w_tick w' = w_tick w + 3"
proof (cases "hm_get (mem_conns w) i")
  case None
  with assms show ?thesis by (auto simp: delete_connection_def intro: absent)
next
  case (Some old)
  show ?thesis
  proof (cases "c_is_deleted old")
    case True
    with Some assms show ?thesis by (auto simp: delete_connection_def intro: already)
  next
    case False
    then show ?thesis
      using assms Some
      by (auto simp: delete_connection_def run_db_def pg_conn_delete_def publish_def mark_def utc_now_def
          tick_def healthy_at_def split: if_splits prod.splits intro: db_error bus_error deleted)
  qed
qed

lemmas delete_cases = delete_connection_cases [of x i c w, OF prod.collapse [symmetric]] for x i c w

lemma delete_connection_ok:
  assumes "hm_get (mem_conns w) i = Some old" and "\<not> c_is_deleted old"
    and "healthy_at x (w_tick w)" and "healthy_at x (w_tick w + 1)"
  shows "fst (delete_connection x i c w) = Ret (Ok i)"
  using assms by (simp add: delete_connection_def run_db_def pg_conn_delete_def publish_def
      healthy_at_def tick_def)

text \<open>Nobody is forgotten: the connections, subscriptions and nodes in memory stay the same but
  for the flag and the time stamp of the one that is deleted.\<close>

lemma delete_connection_get:
  "hm_get (mem_conns (snd (delete_connection x i c w))) j =
    (if j = i \<and> fst (delete_connection x i c w) = Ret (Ok i)
     then map_option (\<lambda>c. set_modified_at (x_clock x (w_tick w + 2)) (set_deleted True c))
       (hm_get (mem_conns w) i)
     else hm_get (mem_conns w) j)"
  by (rule delete_cases [of w i x c]) auto

lemma delete_connection_frame [simp]:
  "mem_subs (snd (delete_connection x i c w)) = mem_subs w"
  "mem_nodes (snd (delete_connection x i c w)) = mem_nodes w"
  "db_subs (w_db (snd (delete_connection x i c w))) = db_subs (w_db w)"
  "db_keys (w_db (snd (delete_connection x i c w))) = db_keys (w_db w)"
  "db_nodes (w_db (snd (delete_connection x i c w))) = db_nodes (w_db w)"
  "db_inbounds (w_db (snd (delete_connection x i c w))) = db_inbounds (w_db w)"
  by (rule delete_cases [of w i x c]; simp add: pg_conn_delete_def)+

lemma delete_connection_wf [simp]:
  "hm_wf (mem_conns w) \<Longrightarrow> hm_wf (mem_conns (snd (delete_connection x i c w)))"
  by (rule delete_cases [of w i x c]) auto

lemma delete_connection_tick: "w_tick w \<le> w_tick (snd (delete_connection x i c w))"
  by (rule delete_cases [of w i x c]) auto

lemma delete_connection_table:
  "hm_get (db_table (snd (delete_connection x i c w))) j = hm_get (db_table w) j \<or>
   j = i \<and> hm_get (db_table (snd (delete_connection x i c w))) i =
     map_option (\<lambda>t. t\<lparr>t_is_deleted := True\<rparr>) (hm_get (db_table w) i)"
  by (rule delete_cases [of w i x c]) (auto simp: pg_conn_delete_def)

section \<open>Restoring a connection\<close>

lemma restore_connection_cases:
  assumes "restore_connection x i w = (r, w')"
  obtains
    (absent) "hm_get (mem_conns w) i = None" "r = Ret (NotFound i)" "w' = w"
  | (db_error) old where "hm_get (mem_conns w) i = Some old" "r = Err (SDatabase Database)"
      "w' = tick w" "x_db_fails x (w_tick w)"
  | (restored) old where "hm_get (mem_conns w) i = Some old" "r = Ret (Ok i)"
      "w_db w' = snd (pg_conn_restore False i (w_db w))" "w_pub w' = w_pub w"
      "mem_conns w' = hm_modify i (\<lambda>c. set_modified_at (x_clock x (w_tick w + 1)) (set_deleted False c))
         (mem_conns w)"
      "mem_subs w' = mem_subs w" "mem_nodes w' = mem_nodes w" "w_tick w' = w_tick w + 2"
      "\<not> x_db_fails x (w_tick w)"
proof (cases "hm_get (mem_conns w) i")
  case None
  with assms show ?thesis by (auto simp: restore_connection_def intro: absent)
next
  case (Some old)
  then show ?thesis
    using assms
    by (auto simp: restore_connection_def run_db_def pg_conn_restore_def mark_def utc_now_def tick_def
        split: if_splits prod.splits intro: db_error restored)
qed

text \<open>The same for one task of a batch: it announces the connection first.\<close>

lemma restore_task_cases:
  assumes "restore_task x (i, c) w = (r, w')"
  obtains
    (failed) "r = None" "w_mem w' = w_mem w" "w_db w' = w_db w" "w_tick w \<le> w_tick w'"
      "w_pub w' = w_pub w \<or> w_pub w' = w_pub w @ [(conn_topic c, [as_update_message c i])]"
      "hm_get (mem_conns w) i = None \<or> \<not> healthy_from x (w_tick w)"
  | (restored) old where "r = Some i" "hm_get (mem_conns w) i = Some old"
      "w_db w' = snd (pg_conn_restore False i (w_db w))"
      "w_pub w' = w_pub w @ [(conn_topic c, [as_update_message c i])]"
      "mem_conns w' = hm_modify i (\<lambda>c. set_modified_at (x_clock x (w_tick w + 2)) (set_deleted False c))
         (mem_conns w)"
      "mem_subs w' = mem_subs w" "mem_nodes w' = mem_nodes w" "w_tick w \<le> w_tick w'"
proof -
  obtain r1 w1 where p: "publish x (conn_topic c) [as_update_message c i] w = (r1, w1)" by force
  note p' = publishD [OF p]
  show ?thesis
  proof (cases r1)
    case (Inl e)
    with p' have "\<not> healthy_at x (w_tick w)" by (simp add: healthy_at_def)
    then have "\<not> healthy_from x (w_tick w)" by (auto dest: healthy_fromD)
    with Inl p p' assms show ?thesis by (intro failed) (auto simp: restore_task_def)
  next
    case (Inr u)
    obtain r2 w2 where q: "restore_connection x i w1 = (r2, w2)" by force
    from q show ?thesis
    proof (cases rule: restore_connection_cases)
      case absent
      with Inr p p' q assms show ?thesis by (intro failed) (auto simp: restore_task_def)
    next
      case (db_error old)
      with p' have "\<not> healthy_at x (Suc (w_tick w))" by (simp add: healthy_at_def)
      then have "\<not> healthy_from x (w_tick w)" by (meson healthy_fromD le_SucI order_refl)
      with db_error Inr p p' q assms show ?thesis by (intro failed) (auto simp: restore_task_def)
    next
      case (restored old)
      with Inr p p' q assms show ?thesis
        by (intro that(2) [of old]) (auto simp: restore_task_def)
    qed
  qed
qed

end
