(* ===== verification/ApiTasks.thy ===== *)
theory ApiTasks
  imports SyncLaws
begin

text \<open>
  The API server's background tasks (\<open>bin/api/tasks.rs\<close>, \<open>bin/api/postgres/pg.rs\<close>): one round of
  each periodic loop, and the reload of the memory from the database. The batches of deletions
  and restorations the rounds are made of share an interface, locale \<open>batch\<close>.
\<close>

section \<open>Definitions\<close>

text \<open>The \<open>for\<close> loop over the connections to delete; every outcome only changes the log.\<close>

definition delete_all :: "ext \<Rightarrow> (uuid \<times> conn) list \<Rightarrow> world \<Rightarrow> world" where
  "delete_all x ics w = fold (\<lambda>(i, c) w. snd (delete_connection x i c w)) ics w"

definition expired_conns :: "datetime \<Rightarrow> conn connections \<Rightarrow> (uuid \<times> conn) list" where
  "expired_conns now m = filter (\<lambda>(_, c). case c_expires_at c of
      Some e \<Rightarrow> e \<le> now \<and> \<not> c_is_deleted c | None \<Rightarrow> False) m"

definition cleanup_expired_connections :: "ext \<Rightarrow> world \<Rightarrow> world" where
  "cleanup_expired_connections x w =
    (let now = utc_now x w; w = tick w in delete_all x (expired_conns now (mem_conns w)) w)"

text \<open>\<open>is_active\<close> reads the clock for every subscription it is asked about.\<close>

fun filter_subs :: "ext \<Rightarrow> (bool \<Rightarrow> bool) \<Rightarrow> (uuid \<times> subscription) list \<Rightarrow> world \<Rightarrow> uuid list \<times> world" where
  "filter_subs x sel [] w = ([], w)"
| "filter_subs x sel ((i, s) # rest) w =
    (let active = is_active (utc_now x w) s; (is, w) = filter_subs x sel rest (tick w)
     in ((if sel active then i # is else is), w))"

definition conns_to_delete :: "uuid \<Rightarrow> conn connections \<Rightarrow> (uuid \<times> conn) list" where
  "conns_to_delete sub_id m = (case get_by_subscription_id sub_id m of
      Some cs \<Rightarrow> filter (\<lambda>(_, c). \<not> c_is_deleted c) cs
    | None \<Rightarrow> [])"

definition cleanup_expired_subscriptions :: "ext \<Rightarrow> world \<Rightarrow> world" where
  "cleanup_expired_subscriptions x w =
    (let (expired_subs, w) = filter_subs x Not (mem_subs w) w in
     fold (\<lambda>sub_id w. delete_all x (conns_to_delete sub_id (mem_conns w)) w) expired_subs w)"

definition restore_subscriptions :: "ext \<Rightarrow> world \<Rightarrow> world" where
  "restore_subscriptions x w =
    (let (active_subs, w) = filter_subs x id (mem_subs w) w in
     fold (\<lambda>sub_id w. snd (restore_connections_by_subscription x sub_id w)) active_subs w)"

text \<open>Loading: the three tables are read, and the memory is replaced when all rows convert.\<close>

definition load_conn :: "conn_row \<Rightarrow> error + conn connections \<Rightarrow> error + conn connections" where
  "load_conn row st = (case st of Inl e \<Rightarrow> Inl e | Inr m \<Rightarrow>
     (case conn_of_row row of
        Inl e \<Rightarrow> Inl e
      | Inr c \<Rightarrow> Inr (snd (conns_add (cr_conn_id row) c m))))"

definition get_state_from_db :: "ext \<Rightarrow> world \<Rightarrow> (error + unit) \<times> world" where
  "get_state_from_db x w =
    (case run_db x (\<lambda>fails _ d. (pg_node_all fails (x_v6_parse x) d, d)) w of
       (Inl e, w) \<Rightarrow> (Inl e, w)
     | (Inr ns, w) \<Rightarrow> (case run_db x (\<lambda>fails _ d. (pg_conn_all fails (x_v6_parse x) d, d)) w of
         (Inl e, w) \<Rightarrow> (Inl e, w)
       | (Inr rows, w) \<Rightarrow> (case run_db x (\<lambda>fails _ d. (pg_sub_all fails d, d)) w of
           (Inl e, w) \<Rightarrow> (Inl e, w)
         | (Inr ss, w) \<Rightarrow> (case fold load_conn rows (Inr []) of
             Inl e \<Rightarrow> (Inl e, w)
           | Inr cs \<Rightarrow> (Inr (), w\<lparr>w_mem := \<lparr>connections = cs,
               subscriptions = fold (\<lambda>s m. snd (subs_add s m)) ss [],
               nodes = fold (\<lambda>n m. snd (nodes_add n m)) ns []\<rparr>\<rparr>)))))"

section \<open>Batches\<close>

text \<open>
  An operation that is run for a list of connections and sets the deletion flag of each: when it
  runs in a healthy environment it does so, and otherwise it leaves the connection as it is. In
  no case does it touch anything else in memory.
\<close>

definition marked :: "bool \<Rightarrow> conn \<Rightarrow> conn \<Rightarrow> bool" where
  "marked flag c c' = (\<exists>t. c' = set_modified_at t (set_deleted flag c))"

lemma marked_deleted: "marked flag c c' \<Longrightarrow> c_is_deleted c' = flag"
  by (auto simp: marked_def ops_simps)

lemma marked_trans: "marked flag a b \<Longrightarrow> marked flag b c \<Longrightarrow> marked flag a c"
  by (auto simp: marked_def ops_simps)

locale batch =
  fixes x :: ext
    and run :: "uuid \<times> conn \<Rightarrow> world \<Rightarrow> world"
    and flag :: bool
  assumes run_other: "j \<noteq> i \<Longrightarrow> hm_get (mem_conns (run (i, c) w)) j = hm_get (mem_conns w) j"
    and run_same: "hm_get (mem_conns (run (i, c) w)) i = hm_get (mem_conns w) i \<or>
       (\<exists>a b. hm_get (mem_conns w) i = Some a \<and> hm_get (mem_conns (run (i, c) w)) i = Some b \<and>
         marked flag a b)"
    and run_done: "healthy_from x (w_tick w) \<Longrightarrow> hm_get (mem_conns w) i = Some a \<Longrightarrow>
       \<exists>b. hm_get (mem_conns (run (i, c) w)) i = Some b \<and> c_is_deleted b = flag"
    and run_tick: "w_tick w \<le> w_tick (run (i, c) w)"
    and run_subs: "mem_subs (run (i, c) w) = mem_subs w"
    and run_nodes: "mem_nodes (run (i, c) w) = mem_nodes w"
begin

lemma batch_other:
  "j \<notin> fst ` set ics \<Longrightarrow> hm_get (mem_conns (fold run ics w)) j = hm_get (mem_conns w) j"
  by (induction ics arbitrary: w) (auto simp: run_other)

lemma batch_tick: "w_tick w \<le> w_tick (fold run ics w)"
proof (induction ics arbitrary: w)
  case (Cons ic ics)
  show ?case using run_tick [of w "fst ic" "snd ic"] Cons.IH [of "run ic w"] by simp
qed simp

lemma batch_subs: "mem_subs (fold run ics w) = mem_subs w"
  by (induction ics arbitrary: w) (auto simp: run_subs)

lemma batch_nodes: "mem_nodes (fold run ics w) = mem_nodes w"
  by (induction ics arbitrary: w) (auto simp: run_nodes)

lemma run_rel:
  "hm_get (mem_conns (run ic w)) j = hm_get (mem_conns w) j \<or>
   (\<exists>a b. hm_get (mem_conns w) j = Some a \<and> hm_get (mem_conns (run ic w)) j = Some b \<and> marked flag a b)"
  using run_other [of j "fst ic" "snd ic" w] run_same [of "fst ic" "snd ic" w] by (cases "j = fst ic") auto

lemma batch_rel:
  "hm_get (mem_conns (fold run ics w)) j = hm_get (mem_conns w) j \<or>
   (\<exists>a b. hm_get (mem_conns w) j = Some a \<and> hm_get (mem_conns (fold run ics w)) j = Some b \<and>
     marked flag a b)"
proof (induction ics arbitrary: w)
  case (Cons ic ics)
  from Cons.IH [of "run ic w"] run_rel [of ic w j] show ?case
    by (auto dest: marked_trans)
qed simp

lemma batch_keeps_flag:
  assumes "hm_get (mem_conns w) j = Some a" and "c_is_deleted a = flag"
  shows "\<exists>b. hm_get (mem_conns (fold run ics w)) j = Some b \<and> c_is_deleted b = flag"
  using batch_rel [of ics w j] assms by (auto dest: marked_deleted)

lemma batch_present:
  "hm_get (mem_conns w) j \<noteq> None \<Longrightarrow> hm_get (mem_conns (fold run ics w)) j \<noteq> None"
  using batch_rel [of ics w j] by auto

lemma batch_done:
  assumes "healthy_from x (w_tick w)" and "(i, c) \<in> set ics" and "hm_get (mem_conns w) i \<noteq> None"
  shows "\<exists>b. hm_get (mem_conns (fold run ics w)) i = Some b \<and> c_is_deleted b = flag"
  using assms
proof (induction ics arbitrary: w)
  case (Cons ic ics)
  show ?case
  proof (cases "ic = (i, c)")
    case True
    with Cons.prems run_done [of w i _ c] obtain b where
      "hm_get (mem_conns (run ic w)) i = Some b" "c_is_deleted b = flag" by auto
    then show ?thesis using batch_keeps_flag [of "run ic w"] by simp
  next
    case False
    have "healthy_from x (w_tick (run ic w))"
      using Cons.prems(1) run_tick [of w "fst ic" "snd ic"] by (auto intro: healthy_from_mono)
    moreover have "hm_get (mem_conns (run ic w)) i \<noteq> None"
      using run_rel [of ic w i] Cons.prems(3) by auto
    ultimately show ?thesis using False Cons by auto
  qed
qed simp

end

interpretation del: batch x "\<lambda>(i, c) w. snd (delete_connection x i c w)" True for x
proof unfold_locales
  fix w i a c
  assume "healthy_from x (w_tick w)" and g: "hm_get (mem_conns w) i = Some a"
  then have h: "healthy_at x (w_tick w)" "healthy_at x (w_tick w + 1)"
    by (simp_all add: healthy_from_def)
  show "\<exists>b. hm_get (mem_conns ((\<lambda>(i, c) w. snd (delete_connection x i c w)) (i, c) w)) i = Some b
      \<and> c_is_deleted b = True"
  proof (cases "c_is_deleted a")
    case True
    with g show ?thesis by (simp add: delete_connection_def)
  next
    case False
    with g delete_connection_ok [OF g False h, of c] show ?thesis
      by (simp add: delete_connection_get ops_simps)
  qed
next
  fix i c w
  show "hm_get (mem_conns ((\<lambda>(i, c) w. snd (delete_connection x i c w)) (i, c) w)) i
        = hm_get (mem_conns w) i \<or>
      (\<exists>a b. hm_get (mem_conns w) i = Some a \<and>
        hm_get (mem_conns ((\<lambda>(i, c) w. snd (delete_connection x i c w)) (i, c) w)) i = Some b \<and>
        marked True a b)"
    by (cases "hm_get (mem_conns w) i") (auto simp: delete_connection_get marked_def)
qed (simp_all add: delete_connection_get delete_connection_tick)

lemmas restore_task_elim = restore_task_cases [of x i c w, OF prod.collapse [symmetric]] for x i c w

interpretation res: batch x "\<lambda>ic w. snd (restore_task x ic w)" False for x
proof unfold_locales
  fix w i a c
  assume "healthy_from x (w_tick w)" and "hm_get (mem_conns w) i = Some a"
  then show "\<exists>b. hm_get (mem_conns (snd (restore_task x (i, c) w))) i = Some b \<and> c_is_deleted b = False"
    by - (rule restore_task_elim [where x = x and i = i and c = c and w = w], auto simp: ops_simps)
next
  fix i c w
  show "hm_get (mem_conns (snd (restore_task x (i, c) w))) i = hm_get (mem_conns w) i \<or>
      (\<exists>a b. hm_get (mem_conns w) i = Some a \<and>
        hm_get (mem_conns (snd (restore_task x (i, c) w))) i = Some b \<and> marked False a b)"
    by (rule restore_task_elim [where x = x and i = i and c = c and w = w]) (auto simp: marked_def)
next
  fix i j c w
  show "j \<noteq> i \<Longrightarrow> hm_get (mem_conns (snd (restore_task x (i, c) w))) j = hm_get (mem_conns w) j"
    by (rule restore_task_elim [where x = x and i = i and c = c and w = w]) auto
  show "w_tick w \<le> w_tick (snd (restore_task x (i, c) w))"
    "mem_subs (snd (restore_task x (i, c) w)) = mem_subs w"
    "mem_nodes (snd (restore_task x (i, c) w)) = mem_nodes w"
    by (rule restore_task_elim [where x = x and i = i and c = c and w = w]; simp)+
qed

lemma restore_tasks_fold: "snd (restore_tasks x ics w) = fold (\<lambda>ic w. snd (restore_task x ic w)) ics w"
  by (induction ics arbitrary: w) (simp_all add: Let_def split_beta)

section \<open>Batches by subscription\<close>

text \<open>The periodic rounds and \<open>add_days\<close> select a subscription's connections and run the batch on
  them, for one subscription or for several in turn.\<close>

lemma marked_subscription: "marked flag c c' \<Longrightarrow> c_subscription_id c' = c_subscription_id c"
  by (auto simp: marked_def ops_simps)

locale sub_batch = batch +
  fixes select :: "uuid \<Rightarrow> conn connections \<Rightarrow> (uuid \<times> conn) list"
  assumes select_iff: "hm_wf m \<Longrightarrow> (i, c) \<in> set (select s m) \<longleftrightarrow>
      hm_get m i = Some c \<and> c_subscription_id c = Some s \<and> c_is_deleted c \<noteq> flag"
    and run_wf: "hm_wf (mem_conns w) \<Longrightarrow> hm_wf (mem_conns (run ic w))"
begin

lemma batch_wf: "hm_wf (mem_conns w) \<Longrightarrow> hm_wf (mem_conns (fold run ics w))"
  by (induction ics arbitrary: w) (simp_all add: run_wf)

lemma sub_done:
  assumes wf: "hm_wf (mem_conns w)" and "healthy_from x (w_tick w)"
    and after: "hm_get (mem_conns (fold run (select s (mem_conns w)) w)) i = Some c"
    and "c_subscription_id c = Some s"
  shows "c_is_deleted c = flag"
proof (rule ccontr)
  assume neq: "c_is_deleted c \<noteq> flag"
  with batch_rel [of "select s (mem_conns w)" w i] after
  have before: "hm_get (mem_conns w) i = Some c" by (auto dest: marked_deleted)
  with assms(4) neq wf have "(i, c) \<in> set (select s (mem_conns w))" by (simp add: select_iff)
  from batch_done [OF assms(2) this] before after neq show False by auto
qed

lemma sub_other:
  assumes "hm_wf (mem_conns w)" and "hm_get (mem_conns w) i = Some c" and "c_subscription_id c \<noteq> Some s"
  shows "hm_get (mem_conns (fold run (select s (mem_conns w)) w)) i = Some c"
proof -
  have "i \<notin> fst ` set (select s (mem_conns w))"
    using assms by (auto simp: select_iff)
  then show ?thesis using assms(2) by (simp add: batch_other)
qed

text \<open>Several subscriptions in turn.\<close>

lemma subs_rel:
  "hm_get (mem_conns (fold (\<lambda>s w. fold run (select s (mem_conns w)) w) ss w)) j = hm_get (mem_conns w) j \<or>
   (\<exists>a b. hm_get (mem_conns w) j = Some a \<and>
     hm_get (mem_conns (fold (\<lambda>s w. fold run (select s (mem_conns w)) w) ss w)) j = Some b \<and> marked flag a b)"
proof (induction ss arbitrary: w)
  case (Cons s ss)
  from Cons.IH [of "fold run (select s (mem_conns w)) w"] batch_rel [of "select s (mem_conns w)" w j]
  show ?case by (auto dest: marked_trans)
qed simp

lemma subs_done:
  assumes "hm_wf (mem_conns w)" and "healthy_from x (w_tick w)" and "s \<in> set ss"
    and "hm_get (mem_conns (fold (\<lambda>s w. fold run (select s (mem_conns w)) w) ss w)) i = Some c"
    and "c_subscription_id c = Some s"
  shows "c_is_deleted c = flag"
  using assms
proof (induction ss arbitrary: w)
  case (Cons s' ss)
  let ?w = "fold run (select s' (mem_conns w)) w"
  have wf: "hm_wf (mem_conns ?w)" using Cons.prems(1) by (rule batch_wf)
  show ?case
  proof (cases "s = s'")
    case True
    from subs_rel [of ss ?w i] Cons.prems(4) consider
        "hm_get (mem_conns ?w) i = Some c" | a where "marked flag a c" by auto
    then show ?thesis
    proof cases
      case 1
      with True Cons.prems sub_done [of w s i c] show ?thesis by simp
    qed (rule marked_deleted)
  next
    case False
    have "healthy_from x (w_tick ?w)"
      using Cons.prems(2) batch_tick by (rule healthy_from_mono)
    with False Cons wf show ?thesis by auto
  qed
qed simp

lemma subs_other:
  assumes "hm_wf (mem_conns w)" and "hm_get (mem_conns w) i = Some c"
    and "\<forall>s\<in>set ss. c_subscription_id c \<noteq> Some s"
  shows "hm_get (mem_conns (fold (\<lambda>s w. fold run (select s (mem_conns w)) w) ss w)) i = Some c"
  using assms
proof (induction ss arbitrary: w)
  case (Cons s ss)
  then show ?case
    using sub_other [of w i c s] batch_wf [of w "select s (mem_conns w)"] by simp
qed simp

end

lemma conns_to_delete_iff:
  "hm_wf m \<Longrightarrow> (i, c) \<in> set (conns_to_delete s m) \<longleftrightarrow>
     hm_get m i = Some c \<and> c_subscription_id c = Some s \<and> \<not> c_is_deleted c"
  using get_by_subscription_id_Some [of m s _ i c] get_by_subscription_id_None [of m s]
  by (auto simp: conns_to_delete_def split: option.splits)

lemma conns_to_restore_iff:
  "hm_wf m \<Longrightarrow> (i, c) \<in> set (conns_to_restore s m) \<longleftrightarrow>
     hm_get m i = Some c \<and> c_subscription_id c = Some s \<and> c_is_deleted c"
  using get_by_subscription_id_Some [of m s _ i c] get_by_subscription_id_None [of m s]
  by (auto simp: conns_to_restore_def split: option.splits)

lemma restore_task_wf: "hm_wf (mem_conns w) \<Longrightarrow> hm_wf (mem_conns (snd (restore_task x ic w)))"
  by (cases ic, simp, rule restore_task_elim [where x = x and i = "fst ic" and c = "snd ic" and w = w]) auto

interpretation sdel: sub_batch x "\<lambda>(i, c) w. snd (delete_connection x i c w)" True conns_to_delete for x
  by unfold_locales (auto simp: conns_to_delete_iff)

interpretation sres: sub_batch x "\<lambda>ic w. snd (restore_task x ic w)" False conns_to_restore for x
  by unfold_locales (auto simp: conns_to_restore_iff restore_task_wf)

section \<open>The rounds\<close>

lemma restore_by_subscription_fold:
  "snd (restore_connections_by_subscription x s w) =
     fold (\<lambda>ic w. snd (restore_task x ic w)) (conns_to_restore s (mem_conns w)) w"
  by (simp add: restore_connections_by_subscription_def restore_tasks_fold split_beta)

lemma filter_subs_frame:
  "w_mem (snd (filter_subs x sel ss w)) = w_mem w" "w_db (snd (filter_subs x sel ss w)) = w_db w"
  "w_pub (snd (filter_subs x sel ss w)) = w_pub w"
  "w_tick (snd (filter_subs x sel ss w)) = w_tick w + length ss"
  by (induction ss arbitrary: w; auto simp: Let_def split_beta)+

lemma ex_nth_Cons:
  "(\<exists>k s. k < length (e # ss) \<and> (e # ss) ! k = (i, s) \<and> P k s) \<longleftrightarrow>
   (\<exists>s. e = (i, s) \<and> P 0 s) \<or> (\<exists>k s. k < length ss \<and> ss ! k = (i, s) \<and> P (Suc k) s)"
proof -
  have "(\<exists>k. k < length (e # ss) \<and> Q k) \<longleftrightarrow> Q 0 \<or> (\<exists>k. k < length ss \<and> Q (Suc k))" for Q
    by (auto simp: less_Suc_eq_0_disj)
  from this [of "\<lambda>k. \<exists>s. (e # ss) ! k = (i, s) \<and> P k s"] show ?thesis by auto
qed

lemma filter_subs_iff:
  "i \<in> set (fst (filter_subs x sel ss w)) \<longleftrightarrow>
     (\<exists>k s. k < length ss \<and> ss ! k = (i, s) \<and> sel (is_active (x_clock x (w_tick w + k)) s))"
proof (induction ss arbitrary: w)
  case (Cons e ss)
  obtain j s where e: "e = (j, s)" by force
  show ?case unfolding ex_nth_Cons
    by (simp add: e Let_def split_beta Cons.IH utc_now_def) (auto simp: e)
qed simp

end
