(* ===== verification/ApiInv.thy ===== *)
theory ApiInv
  imports ApiTasks
begin

text \<open>
  The invariant of the API server: the stores are well formed, the memory is a cache of the
  table \<open>connections\<close> (every connection in memory has a row with the same data, and one that is
  deleted in memory is deleted in the table), and every subscription in memory has a row. Every
  operation keeps it, so it holds in every state the server reaches, whatever fails on the way.
\<close>

section \<open>The invariant\<close>

text \<open>The part of a row that never changes once it is written. Environments are compared in the
  lower case their parser produces.\<close>

definition row_core :: "conn_columns \<Rightarrow> conn_columns" where
  "row_core t = t\<lparr>t_is_deleted := False, t_modified_at := 0, t_env := to_lowercase (t_env t)\<rparr>"

definition conn_backed :: "(u128 \<Rightarrow> string) \<Rightarrow> db \<Rightarrow> uuid \<Rightarrow> conn \<Rightarrow> bool" where
  "conn_backed vs d i c = (case hm_get (db_conns d) i of None \<Rightarrow> False | Some t \<Rightarrow>
     (c_is_deleted c \<longrightarrow> t_is_deleted t) \<and>
     row_core t = row_core (columns_of_row vs (conn_row_of i c)))"

definition backed :: "(u128 \<Rightarrow> string) \<Rightarrow> world \<Rightarrow> bool" where
  "backed vs w = (\<forall>(i, c) \<in> set (mem_conns w). conn_backed vs (w_db w) i c)"

text \<open>Every row was written for some connection.\<close>

definition rows_ok :: "(u128 \<Rightarrow> string) \<Rightarrow> db \<Rightarrow> bool" where
  "rows_ok vs d = (\<forall>i t. hm_get (db_conns d) i = Some t \<longrightarrow>
     (\<exists>c. row_core t = row_core (columns_of_row vs (conn_row_of i c))))"

definition subs_ok :: "world \<Rightarrow> bool" where
  "subs_ok w = (subs_wf (mem_subs w) \<and> subs_wf (db_subs (w_db w)) \<and>
     (\<forall>i. hm_get (mem_subs w) i \<noteq> None \<longrightarrow> hm_get (db_subs (w_db w)) i \<noteq> None))"

definition conns_ok :: "(u128 \<Rightarrow> string) \<Rightarrow> world \<Rightarrow> bool" where
  "conns_ok vs w = (hm_wf (mem_conns w) \<and> backed vs w \<and> rows_ok vs (w_db w))"

definition api_inv :: "ext \<Rightarrow> world \<Rightarrow> bool" where
  "api_inv x w = (db_wf (w_db w) \<and> nodes_wf (mem_nodes w) \<and> subs_ok w \<and> conns_ok (x_v6_str x) w)"

lemma backed_iff:
  "hm_wf (mem_conns w) \<Longrightarrow> backed vs w \<longleftrightarrow>
     (\<forall>i c. hm_get (mem_conns w) i = Some c \<longrightarrow> conn_backed vs (w_db w) i c)"
  by (auto simp: backed_def map_of_eq_Some_iff)

lemma conns_okI:
  assumes "hm_wf (mem_conns w)" and "rows_ok vs (w_db w)"
    and "\<And>i c. hm_get (mem_conns w) i = Some c \<Longrightarrow> conn_backed vs (w_db w) i c"
  shows "conns_ok vs w"
  using assms by (simp add: conns_ok_def backed_iff)

lemma conns_okD:
  assumes "conns_ok vs w"
  shows "hm_wf (mem_conns w)" "rows_ok vs (w_db w)"
    "hm_get (mem_conns w) i = Some c \<Longrightarrow> conn_backed vs (w_db w) i c"
  using assms by (auto simp: conns_ok_def backed_iff)

text \<open>Only the two stores of connections matter for \<open>conns_ok\<close>, and only those of subscriptions for
  \<open>subs_ok\<close>.\<close>

lemma conn_backed_cong: "db_conns d = db_conns d' \<Longrightarrow> conn_backed vs d i c = conn_backed vs d' i c"
  by (simp add: conn_backed_def)

lemma conns_ok_cong:
  "mem_conns w = mem_conns w' \<Longrightarrow> db_table w = db_table w' \<Longrightarrow> conns_ok vs w = conns_ok vs w'"
  by (simp add: conns_ok_def backed_def rows_ok_def conn_backed_def)

lemma subs_ok_cong:
  "mem_subs w = mem_subs w' \<Longrightarrow> db_subs (w_db w) = db_subs (w_db w') \<Longrightarrow> subs_ok w = subs_ok w'"
  by (simp add: subs_ok_def)

section \<open>Connections\<close>

lemma row_core_flag [simp]:
  "row_core (t\<lparr>t_is_deleted := b\<rparr>) = row_core t"
  by (simp add: row_core_def)

lemma row_core_marked:
  "marked b c c' \<Longrightarrow> row_core (columns_of_row vs (conn_row_of i c')) = row_core (columns_of_row vs (conn_row_of i c))"
  by (auto simp: marked_def row_core_def columns_of_row_def conn_row_of_def ops_simps)

lemma conn_backed_delete:
  "conn_backed vs d i c \<Longrightarrow> conn_backed vs (snd (pg_conn_delete f j d)) i c"
  by (auto simp: conn_backed_def pg_conn_delete_def split: option.splits)

lemma conn_backed_deleted:
  "conn_backed vs d i c \<Longrightarrow> marked True c c' \<Longrightarrow> conn_backed vs (snd (pg_conn_delete False i d)) i c'"
  by (auto simp: conn_backed_def pg_conn_delete_def row_core_marked split: option.splits)

lemma conn_backed_restore:
  "conn_backed vs d i c \<Longrightarrow> i \<noteq> j \<Longrightarrow> conn_backed vs (snd (pg_conn_restore f j d)) i c"
  by (auto simp: conn_backed_def pg_conn_restore_def split: option.splits)

lemma conn_backed_restored:
  "conn_backed vs d i c \<Longrightarrow> marked False c c' \<Longrightarrow> conn_backed vs (snd (pg_conn_restore False i d)) i c'"
  by (auto simp: conn_backed_def pg_conn_restore_def row_core_marked marked_deleted split: option.splits)

lemma rows_ok_delete: "rows_ok vs d \<Longrightarrow> rows_ok vs (snd (pg_conn_delete f j d))"
  by (auto simp: rows_ok_def pg_conn_delete_def split: if_splits)

lemma rows_ok_restore: "rows_ok vs d \<Longrightarrow> rows_ok vs (snd (pg_conn_restore f j d))"
  by (auto simp: rows_ok_def pg_conn_restore_def split: if_splits)

lemma rows_ok_insert: "rows_ok vs d \<Longrightarrow> rows_ok vs (snd (pg_conn_insert f us vs (conn_row_of i c) d))"
  by (auto simp: rows_ok_def pg_conn_insert_conns split: if_splits)
     (auto simp: conn_row_of_def)

lemma markedI: "marked b c (set_modified_at t (set_deleted b c))"
  by (auto simp: marked_def)

lemma conns_ok_deleted:
  assumes ok: "conns_ok vs w" and d: "w_db w' = snd (pg_conn_delete False i (w_db w))"
    and m: "mem_conns w' = hm_modify i (\<lambda>c. set_modified_at t (set_deleted True c)) (mem_conns w)"
  shows "conns_ok vs w'"
proof (rule conns_okI)
  fix j c'
  assume g: "hm_get (mem_conns w') j = Some c'"
  show "conn_backed vs (w_db w') j c'"
  proof (cases "j = i")
    case True
    with g m obtain c where "hm_get (mem_conns w) i = Some c" "marked True c c'"
      by (auto intro: markedI)
    with conns_okD(3) [OF ok] True d show ?thesis by (auto intro: conn_backed_deleted)
  next
    case False
    with g m d conns_okD(3) [OF ok] show ?thesis by (auto intro: conn_backed_delete)
  qed
qed (use ok in \<open>auto simp: m d dest: conns_okD intro: rows_ok_delete\<close>)

lemma conns_ok_restored:
  assumes ok: "conns_ok vs w" and d: "w_db w' = snd (pg_conn_restore False i (w_db w))"
    and m: "mem_conns w' = hm_modify i (\<lambda>c. set_modified_at t (set_deleted False c)) (mem_conns w)"
  shows "conns_ok vs w'"
proof (rule conns_okI)
  fix j c'
  assume g: "hm_get (mem_conns w') j = Some c'"
  show "conn_backed vs (w_db w') j c'"
  proof (cases "j = i")
    case True
    with g m obtain c where "hm_get (mem_conns w) i = Some c" "marked False c c'"
      by (auto intro: markedI)
    with conns_okD(3) [OF ok] True d show ?thesis by (auto intro: conn_backed_restored)
  next
    case False
    with g m d conns_okD(3) [OF ok] show ?thesis by (auto intro: conn_backed_restore)
  qed
qed (use ok in \<open>auto simp: m d dest: conns_okD intro: rows_ok_restore\<close>)

lemma delete_connection_conns_ok:
  assumes "conns_ok vs w" shows "conns_ok vs (snd (delete_connection x i c w))"
proof (rule delete_cases [of w i x c])
  fix old e
  assume "w_mem (snd (delete_connection x i c w)) = w_mem w"
    "w_db (snd (delete_connection x i c w)) = snd (pg_conn_delete False i (w_db w))"
  then show ?thesis
    using assms by (intro conns_okI) (auto dest: conns_okD intro: conn_backed_delete rows_ok_delete)
next
  fix old
  assume "w_db (snd (delete_connection x i c w)) = snd (pg_conn_delete False i (w_db w))"
    "mem_conns (snd (delete_connection x i c w)) =
      hm_modify i (\<lambda>c. set_modified_at (x_clock x (w_tick w + 2)) (set_deleted True c)) (mem_conns w)"
  with assms show ?thesis by (rule conns_ok_deleted)
qed (use assms in \<open>simp_all cong: conns_ok_cong\<close>)

lemmas restore_cases = restore_connection_cases [of x i w, OF prod.collapse [symmetric]] for x i w

lemma restore_connection_conns_ok:
  assumes "conns_ok vs w" shows "conns_ok vs (snd (restore_connection x i w))"
  by (rule restore_cases [where x = x and i = i and w = w])
     (use assms in \<open>auto cong: conns_ok_cong intro: conns_ok_restored\<close>)

lemma restore_task_conns_ok:
  assumes "conns_ok vs w" shows "conns_ok vs (snd (restore_task x ic w))"
proof (cases ic)
  case (Pair i c)
  show ?thesis
    unfolding Pair
    by (rule restore_task_elim [where x = x and i = i and c = c and w = w])
       (use assms in \<open>auto cong: conns_ok_cong intro: conns_ok_restored\<close>)
qed

lemma add_conn_conns_ok:
  assumes "conns_ok vs w" and "vs = x_v6_str x"
  shows "conns_ok vs (snd (add_conn x i c w))"
proof -
  let ?s = "\<lambda>fails _. pg_conn_insert fails (x_uuid_str x) (x_v6_str x) (conn_row_of i c)"
  obtain r w1 where r: "run_db x ?s w = (r, w1)" by force
  note r' = run_dbD [OF r]
  show ?thesis
  proof (cases r)
    case (Inl e)
    then have "w_db w1 = w_db w" using r'(4)
      by (auto simp: pg_conn_insert_def split: if_splits option.splits)
    with Inl r r' assms show ?thesis by (simp add: add_conn_def cong: conns_ok_cong)
  next
    case (Inr u)
    then have d: "hm_get (db_conns (w_db w)) i = None"
      "db_conns (w_db w1) = hm_insert i (columns_of_row vs (conn_row_of i c)) (db_conns (w_db w))"
      using r'(4) assms(2) by (auto simp: pg_conn_insert_def conn_row_of_def split: if_splits option.splits)
    with conns_okD(3) [OF assms(1), of i] have fresh: "hm_get (mem_conns w) i = None"
      by (cases "hm_get (mem_conns w) i") (auto simp: conn_backed_def)
    have m: "mem_conns (snd (add_conn x i c w)) = hm_insert i c (mem_conns w)"
      and dd: "w_db (snd (add_conn x i c w)) = w_db w1"
      using Inr r r' fresh by (auto simp: add_conn_def conns_add_def)
    show ?thesis
    proof (rule conns_okI)
      show "rows_ok vs (w_db (snd (add_conn x i c w)))"
        using conns_okD(2) [OF assms(1)] d by (auto simp: rows_ok_def dd split: if_splits)
      show "conn_backed vs (w_db (snd (add_conn x i c w))) j c'"
        if "hm_get (mem_conns (snd (add_conn x i c w))) j = Some c'" for j c'
        using that conns_okD(3) [OF assms(1)] d
        by (auto simp: m dd conn_backed_def columns_of_row_def conn_row_of_def split: if_splits option.splits)
    qed (use conns_okD(1) [OF assms(1)] in \<open>simp add: m\<close>)
  qed
qed

section \<open>Reloading from the database\<close>

lemma mask_from_to_eq:
  assumes "v6_laws vs vp" and "mask_from_str vp (mask_to_string vs m) = Some m'"
  shows "m' = m"
proof -
  have c: "unat (cidr m) \<le> 255" using unat_bound [of "cidr m"] by simp
  have split: "split_once (CHR ''/'') (mask_to_string vs m) =
      Some (ip_to_string vs (address m), dec_string (unat (cidr m)))"
    by (simp add: mask_to_string_def split_once_append ip_no_slash [OF assms(1)])
  show ?thesis
    using assms(2)
    by (simp add: mask_from_str_def split ip_from_to [OF assms(1)] parse_unsigned_dec_string [OF c]
        split: if_splits) (cases m, auto)
qed

lemma env_of_str_lower: "env_of_str (to_lowercase s) = env_of_str s"
  by (simp add: env_of_str_def env_from_str_def)

text \<open>A row that was written for a connection comes back as one with the same row.\<close>

lemma row_core_reload:
  assumes laws: "v6_laws vs vp"
    and row: "row_core t = row_core (columns_of_row vs (conn_row_of i c0))"
    and conv: "conn_of_row (row_of_columns vp i t) = Inr c"
  shows "row_core (columns_of_row vs (conn_row_of i c)) = row_core t"
proof -
  note eqs = row [unfolded row_core_def columns_of_row_def conn_row_of_def]
  have env: "to_lowercase (env_to_string (c_env c)) = to_lowercase (t_env t)"
  proof -
    have low: "to_lowercase (t_env t) = env_to_string (env_norm (c_env c0))"
      using eqs by (cases t) (simp add: env_to_string_lower)
    have "c_env c = env_of_str (to_lowercase (t_env t))"
      using conv by (auto simp: conn_of_row_def row_of_columns_def env_of_str_lower split: sum.splits)
    with low show ?thesis by (simp add: env_of_to env_to_string_lower)
  qed
  have proto: "proto_tag_of (c_proto c) = t_proto t \<and> proto_password (c_proto c) = t_password t \<and>
      proto_token (c_proto c) = t_token t \<and>
      map_option (\<lambda>w. privkey (keys w)) (proto_wireguard (c_proto c)) = t_wg_privkey t \<and>
      map_option (\<lambda>w. mask_to_string vs (wg_address w)) (proto_wireguard (c_proto c)) = t_wg_address t"
  proof -
    obtain p where p: "c_proto c0 = p" by blast
    have f: "t_password t = proto_password p" "t_proto t = proto_tag_of p" "t_token t = proto_token p"
      "t_wg_privkey t = map_option (\<lambda>w. privkey (keys w)) (proto_wireguard p)"
      "t_wg_address t = map_option (\<lambda>w. mask_to_string vs (wg_address w)) (proto_wireguard p)"
      using eqs p by (cases t; simp)+
    from conv show ?thesis
      by (cases p)
         (auto simp: conn_of_row_def row_of_columns_def f split: sum.splits option.splits proto_tag.splits
           dest: mask_from_to_eq [OF laws])
  qed
  have rest: "c_subscription_id c = t_subscription_id t \<and> c_expires_at c = t_expires_at t \<and>
      c_created_at c = t_created_at t"
    using conv by (auto simp: conn_of_row_def row_of_columns_def split: sum.splits)
  show ?thesis
    using env proto rest by (cases t) (simp add: row_core_def columns_of_row_def conn_row_of_def)
qed

text \<open>Loading rows with distinct keys: one connection per row, under the row's key.\<close>

lemma load_conn_Inl: "fold load_conn rows (Inl e) = Inl e"
  by (induction rows) (simp_all add: load_conn_def)

lemma load_conns:
  assumes "fold load_conn rows (Inr m) = Inr cs" and "hm_wf m" and "distinct (map cr_conn_id rows)"
    and "\<forall>r\<in>set rows. hm_get m (cr_conn_id r) = None"
  shows "hm_wf cs \<and> (\<forall>i c. hm_get cs i = Some c \<longleftrightarrow>
     hm_get m i = Some c \<or> (\<exists>r\<in>set rows. cr_conn_id r = i \<and> conn_of_row r = Inr c))"
  using assms
proof (induction rows arbitrary: m)
  case (Cons r rows)
  have step: "fold load_conn rows (load_conn r (Inr m)) = Inr cs" using Cons.prems(1) by simp
  obtain c where c: "conn_of_row r = Inr c"
  proof (cases "conn_of_row r")
    case (Inl e)
    then have "load_conn r (Inr m) = Inl e" by (simp add: load_conn_def)
    with step show ?thesis by (simp add: load_conn_Inl)
  qed
  let ?m = "hm_insert (cr_conn_id r) c m"
  have "fold load_conn rows (Inr ?m) = Inr cs"
    using step c Cons.prems(4) by (simp add: load_conn_def [of r] conns_add_def)
  moreover have "\<forall>r'\<in>set rows. hm_get ?m (cr_conn_id r') = None"
    using Cons.prems(3,4) by (auto simp: image_iff split: if_splits)
  ultimately have "hm_wf cs \<and> (\<forall>i c'. hm_get cs i = Some c' \<longleftrightarrow>
     hm_get ?m i = Some c' \<or> (\<exists>r\<in>set rows. cr_conn_id r = i \<and> conn_of_row r = Inr c'))"
    using Cons.IH [of ?m] Cons.prems(2,3) by simp
  with Cons.prems(4) c show ?case by (auto split: if_splits)
qed auto

lemma load_conns_all:
  "fold load_conn rows (Inr m) = Inr cs \<Longrightarrow> r \<in> set rows \<Longrightarrow> \<exists>c. conn_of_row r = Inr c"
proof (induction rows arbitrary: m)
  case (Cons r' rows)
  then have step: "fold load_conn rows (load_conn r' (Inr m)) = Inr cs" by simp
  show ?case
  proof (cases "conn_of_row r'")
    case (Inl e)
    then have "load_conn r' (Inr m) = Inl e" by (simp add: load_conn_def)
    with step show ?thesis by (simp add: load_conn_Inl)
  next
    case (Inr c)
    then have "load_conn r' (Inr m) = Inr (snd (conns_add (cr_conn_id r') c m))"
      by (simp add: load_conn_def)
    with step Inr Cons show ?thesis by auto
  qed
qed simp

text \<open>All that a reload can do: fail and leave the memory alone, or replace it by what the tables
  hold.\<close>

lemma get_state_cases:
  assumes "get_state_from_db x w = (r, w')"
  obtains
    (failed) e where "r = Inl e" "w_mem w' = w_mem w" "w_db w' = w_db w" "w_pub w' = w_pub w"
  | (loaded) ns cs ss rows where "r = Inr ()" "w_db w' = w_db w" "w_pub w' = w_pub w"
      "pg_conn_all False (x_v6_parse x) (w_db w) = Inr rows"
      "pg_sub_all False (w_db w) = Inr ss" "pg_node_all False (x_v6_parse x) (w_db w) = Inr ns"
      "fold load_conn rows (Inr []) = Inr cs"
      "w_mem w' = \<lparr>connections = cs, subscriptions = fold (\<lambda>s m. snd (subs_add s m)) ss [],
         nodes = fold (\<lambda>n m. snd (nodes_add n m)) ns []\<rparr>"
  using assms
  by (auto simp: get_state_from_db_def run_db_def pg_conn_all_def pg_sub_all_def pg_node_all_def
      split: if_splits sum.splits intro: failed loaded)

lemmas get_state_elim = get_state_cases [of x w, OF prod.collapse [symmetric]] for x w

lemma row_of_columns_id [simp]: "cr_conn_id (row_of_columns vp i t) = i"
  by (simp add: row_of_columns_def)

lemma pg_conn_all_rows:
  assumes "pg_conn_all f vp d = Inr rows" and "hm_wf (db_conns d)"
  shows "distinct (map cr_conn_id rows)"
    "(\<exists>r\<in>set rows. cr_conn_id r = i \<and> conn_of_row r = Inr c) \<longleftrightarrow>
      (\<exists>t. hm_get (db_conns d) i = Some t \<and> conn_of_row (row_of_columns vp i t) = Inr c)"
proof -
  from assms(1) have rows: "rows = map (\<lambda>(i, t). row_of_columns vp i t) (db_conns d)"
    by (simp add: pg_conn_all_def split: if_splits)
  have ids: "map cr_conn_id rows = map fst (db_conns d)"
    by (auto simp: rows)
  with assms(2) show "distinct (map cr_conn_id rows)" by simp
  show "(\<exists>r\<in>set rows. cr_conn_id r = i \<and> conn_of_row r = Inr c) \<longleftrightarrow>
      (\<exists>t. hm_get (db_conns d) i = Some t \<and> conn_of_row (row_of_columns vp i t) = Inr c)"
    using map_of_eq_Some_iff [OF assms(2), of i] by (force simp: rows)
qed

lemma get_state_conns:
  assumes "get_state_from_db x w = (Inr (), w')" and "hm_wf (db_table w)"
  shows "hm_wf (mem_conns w')"
    "hm_get (mem_conns w') i = Some c \<longleftrightarrow>
      (\<exists>t. hm_get (db_table w) i = Some t \<and> conn_of_row (row_of_columns (x_v6_parse x) i t) = Inr c)"
proof -
  from assms(1) obtain rows where rows: "pg_conn_all False (x_v6_parse x) (w_db w) = Inr rows"
      "fold load_conn rows (Inr []) = Inr (mem_conns w')"
    by (cases rule: get_state_cases) auto
  note load = load_conns [OF rows(2)] pg_conn_all_rows [OF rows(1) assms(2)]
  show "hm_wf (mem_conns w')" using load by simp
  show "hm_get (mem_conns w') i = Some c \<longleftrightarrow>
      (\<exists>t. hm_get (db_table w) i = Some t \<and> conn_of_row (row_of_columns (x_v6_parse x) i t) = Inr c)"
    using load by simp
qed

lemma get_state_conns_dom:
  assumes "get_state_from_db x w = (Inr (), w')" and "hm_wf (db_table w)"
  shows "hm_get (mem_conns w') i = None \<longleftrightarrow> hm_get (db_table w) i = None"
proof (cases "hm_get (db_table w) i")
  case None
  with get_state_conns(2) [OF assms] show ?thesis by (cases "hm_get (mem_conns w') i") auto
next
  case (Some t)
  from assms(1) obtain rows where "pg_conn_all False (x_v6_parse x) (w_db w) = Inr rows"
      and l: "fold load_conn rows (Inr []) = Inr (mem_conns w')"
    by (cases rule: get_state_cases) auto
  moreover have "(i, t) \<in> set (db_table w)" using Some by (rule map_of_SomeD)
  ultimately have "row_of_columns (x_v6_parse x) i t \<in> set rows" by (auto simp: pg_conn_all_def)
  with load_conns_all [OF l] get_state_conns(2) [OF assms, of i] Some show ?thesis
    by (metis option.distinct(1))
qed

lemma pg_sub_all_rows:
  assumes "pg_sub_all f d = Inr ss" and "subs_wf (db_subs d)"
  shows "distinct (map s_id ss)" "s \<in> set ss \<longleftrightarrow> hm_get (db_subs d) (s_id s) = Some s \<and> \<not> s_is_deleted s"
proof -
  let ?us = "filter (\<lambda>s. \<not> s_is_deleted s) (map snd (db_subs d))"
  from assms(1) have ss: "ss = rev (sort_key s_created_at ?us)"
    by (simp add: pg_sub_all_def split: if_splits)
  have ent: "(i, s) \<in> set (db_subs d) \<longleftrightarrow> hm_get (db_subs d) i = Some s \<and> s_id s = i" for i s
    using assms(2) by (auto simp: subs_wf_def map_of_eq_Some_iff)
  then have "map fst (db_subs d) = map (s_id \<circ> snd) (db_subs d)" by auto
  with assms(2) have "distinct (map s_id (map snd (db_subs d)))" by (simp add: subs_wf_def)
  then have "distinct (map s_id ?us)" by (rule distinct_map_filter)
  then show "distinct (map s_id ss)"
    by (simp add: ss rev_map [symmetric] distinct_map)
  show "s \<in> set ss \<longleftrightarrow> hm_get (db_subs d) (s_id s) = Some s \<and> \<not> s_is_deleted s"
    using ent by (force simp: ss)
qed

lemma get_state_subs:
  assumes "get_state_from_db x w = (Inr (), w')" and "subs_wf (db_subs (w_db w))"
  shows "subs_wf (mem_subs w')"
    "hm_get (mem_subs w') i = Some s \<longleftrightarrow> hm_get (db_subs (w_db w)) i = Some s \<and> \<not> s_is_deleted s"
proof -
  from assms(1) obtain ss where ss: "pg_sub_all False (w_db w) = Inr ss"
      "mem_subs w' = fold (\<lambda>s m. snd (subs_add s m)) ss []"
    by (cases rule: get_state_cases) auto
  note rows = pg_sub_all_rows [OF ss(1) assms(2)]
  have wf: "subs_wf (fold (\<lambda>s m. snd (subs_add s m)) vs m)" if "subs_wf m" for vs m
    using that by (induction vs arbitrary: m) (simp_all add: subs_wf_add)
  then show "subs_wf (mem_subs w')" by (simp add: ss)
  have present: "hm_get (mem_subs w') (s_id v) = Some v" if "v \<in> set ss" for v
    using subs.lookup_load [of "[]" ss v] rows(1) that by (simp add: ss)
  have absent: "hm_get (mem_subs w') k = None" if "k \<notin> s_id ` set ss" for k
    using subs.lookup_load_other [of "[]" k ss] that by (simp add: ss)
  show "hm_get (mem_subs w') i = Some s \<longleftrightarrow> hm_get (db_subs (w_db w)) i = Some s \<and> \<not> s_is_deleted s"
  proof
    assume g: "hm_get (mem_subs w') i = Some s"
    with absent [of i] obtain v where v: "v \<in> set ss" "s_id v = i" by fastforce
    with present [of v] g have "v = s" by simp
    with v rows(2) [of s] show "hm_get (db_subs (w_db w)) i = Some s \<and> \<not> s_is_deleted s" by simp
  next
    assume a: "hm_get (db_subs (w_db w)) i = Some s \<and> \<not> s_is_deleted s"
    with assms(2) have "s_id s = i" by (simp add: subs_wf_def)
    with a rows(2) [of s] present [of s] show "hm_get (mem_subs w') i = Some s" by simp
  qed
qed

section \<open>Every operation keeps the invariant\<close>

text \<open>A store of subscriptions in which at most one entry is replaced by another of the same
  identity.\<close>

definition sub_touch :: "subscriptions \<Rightarrow> subscriptions \<Rightarrow> bool" where
  "sub_touch m m' = (m' = m \<or>
     (\<exists>i s r. hm_get m i = Some s \<and> s_id r = s_id s \<and> m' = hm_insert i r m))"

lemma sub_touch_refl [simp]: "sub_touch m m"
  by (simp add: sub_touch_def)

lemma sub_touch_insert: "hm_get m i = Some s \<Longrightarrow> s_id r = s_id s \<Longrightarrow> sub_touch m (hm_insert i r m)"
  by (auto simp: sub_touch_def)

lemma sub_touch_wf: "subs_wf m \<Longrightarrow> sub_touch m m' \<Longrightarrow> subs_wf m'"
  by (auto simp: sub_touch_def subs_wf_def split: if_splits)

lemma sub_touch_dom: "sub_touch m m' \<Longrightarrow> hm_get m' j = None \<longleftrightarrow> hm_get m j = None"
  by (auto simp: sub_touch_def split: if_splits)

lemma subs_ok_touch:
  assumes "subs_ok w" and "sub_touch (mem_subs w) (mem_subs w')"
    and "sub_touch (db_subs (w_db w)) (db_subs (w_db w'))"
  shows "subs_ok w'"
  using assms by (auto simp: subs_ok_def sub_touch_dom intro: sub_touch_wf)

lemma pg_sub_update_touch: "sub_touch (db_subs d) (db_subs (snd (pg_sub_update f t i e rb rc d)))"
  by (auto simp: pg_sub_update_def Let_def split: option.splits intro: sub_touch_insert)

lemma pg_sub_add_days_touch: "sub_touch (db_subs d) (db_subs (snd (pg_sub_add_days f g pd t i n d)))"
  by (auto simp: pg_sub_add_days_def Let_def split: option.splits intro: sub_touch_insert)

lemma pg_subs_frame [simp]:
  "db_subs (snd (pg_conn_insert f us vs row d)) = db_subs d"
  "db_subs (snd (pg_conn_delete f i d)) = db_subs d"
  "db_subs (snd (pg_conn_restore f i d)) = db_subs d"
  "db_subs (snd (pg_key_activate f t k d)) = db_subs d"
  "db_subs (snd (pg_key_insert f k d)) = db_subs d"
  "db_subs (snd (pg_node_upsert f vs i n' d)) = db_subs d"
  "db_subs (snd (pg_node_update_status f t u e st d)) = db_subs d"
  by (simp_all add: pg_conn_insert_def pg_conn_delete_def pg_conn_restore_def pg_key_activate_def
      pg_key_insert_def pg_node_upsert_def pg_node_update_status_def split: option.split)

lemma api_invI:
  assumes "db_wf (w_db w)" "nodes_wf (mem_nodes w)" "subs_ok w" "conns_ok (x_v6_str x) w"
  shows "api_inv x w"
  using assms by (simp add: api_inv_def)

lemma api_invD:
  assumes "api_inv x w"
  shows "db_wf (w_db w)" "nodes_wf (mem_nodes w)" "subs_ok w" "conns_ok (x_v6_str x) w"
  using assms by (simp_all add: api_inv_def)

text \<open>A state that differs in nodes, keys, messages and time only.\<close>

lemma api_inv_frame:
  assumes "api_inv x w" and "mem_conns w' = mem_conns w" and "mem_subs w' = mem_subs w"
    and "db_table w' = db_table w" and "db_subs (w_db w') = db_subs (w_db w)"
    and "nodes_wf (mem_nodes w')" and "db_wf (w_db w')"
  shows "api_inv x w'"
  using assms conns_ok_cong [of w' w] subs_ok_cong [of w' w] by (simp add: api_inv_def)

lemma api_inv_tick: "api_inv x w \<Longrightarrow> api_inv x (tick w)"
  by (rule api_inv_frame, assumption) (simp_all add: api_inv_def)

lemma api_inv_pub: "api_inv x w \<Longrightarrow> api_inv x (snd (publish x t msg w))"
  by (rule api_inv_frame, assumption) (simp_all add: api_inv_def publish_def)

lemma api_inv_key:
  "api_inv x w \<Longrightarrow> api_inv x (snd (run_db x (\<lambda>f t. pg_key_insert f k) w))"
  "api_inv x w \<Longrightarrow> api_inv x (snd (run_db x (\<lambda>f t. pg_key_activate f t k) w))"
  by (rule api_inv_frame, assumption; simp add: api_inv_def pg_wf)+

lemma add_node_inv: "api_inv x w \<Longrightarrow> api_inv x (snd (add_node x i n w))"
  by (rule api_inv_frame, assumption)
     (auto simp: add_node_def api_inv_def nodes_add_wf split_beta pg_wf split: sum.splits status.splits
       prod.splits dest!: run_dbD)

lemma delete_connection_db:
  "w_db (snd (delete_connection x i c w)) = w_db w \<or>
   w_db (snd (delete_connection x i c w)) = snd (pg_conn_delete False i (w_db w))"
  by (rule delete_cases [of w i x c]) auto

lemma delete_connection_inv: "api_inv x w \<Longrightarrow> api_inv x (snd (delete_connection x i c w))"
  using delete_connection_db [of x i c w] subs_ok_cong [of "snd (delete_connection x i c w)" w]
  by (intro api_invI) (auto simp: api_inv_def pg_wf delete_connection_conns_ok)

lemma restore_connection_inv: "api_inv x w \<Longrightarrow> api_inv x (snd (restore_connection x i w))"
proof -
  assume i: "api_inv x w"
  have d: "w_db (snd (restore_connection x i w)) = w_db w \<or>
      w_db (snd (restore_connection x i w)) = snd (pg_conn_restore False i (w_db w))"
    and m: "mem_subs (snd (restore_connection x i w)) = mem_subs w"
      "mem_nodes (snd (restore_connection x i w)) = mem_nodes w"
    by (rule restore_cases [where x = x and i = i and w = w]; simp)+
  with i subs_ok_cong [of "snd (restore_connection x i w)" w] show ?thesis
    by (intro api_invI) (auto simp: api_inv_def pg_wf restore_connection_conns_ok)
qed

end
