(* ===== verification/ApiRun.thy ===== *)
theory ApiRun
  imports ApiInv
begin

text \<open>
  The API server as a transition system: a step is any operation of \<open>Sync\<close>, one round of a
  background task, a reload, a published message or a statement on the keys, in any order and
  with any pattern of failures. The invariant of \<open>ApiInv\<close> holds in every reachable state.
\<close>

section \<open>Remaining operations\<close>

lemma add_conn_frame:
  "mem_subs (snd (add_conn x i c w)) = mem_subs w"
  "mem_nodes (snd (add_conn x i c w)) = mem_nodes w"
  "w_pub (snd (add_conn x i c w)) = w_pub w"
  "w_db (snd (add_conn x i c w)) = snd (pg_conn_insert (x_db_fails x (w_tick w)) (x_uuid_str x)
     (x_v6_str x) (conn_row_of i c) (w_db w))"
  by (simp_all add: add_conn_def split_beta split: sum.split)

lemma add_conn_inv: "api_inv x w \<Longrightarrow> api_inv x (snd (add_conn x i c w))"
  using subs_ok_cong [of "snd (add_conn x i c w)" w]
  by (intro api_invI) (auto simp: api_inv_def add_conn_frame pg_wf add_conn_conns_ok)

lemma add_sub_frame:
  "mem_conns (snd (add_sub x s w)) = mem_conns w"
  "mem_nodes (snd (add_sub x s w)) = mem_nodes w"
  "w_db (snd (add_sub x s w)) = snd (pg_sub_create (x_db_fails x (w_tick w)) (x_clock x (w_tick w)) s (w_db w))"
  by (simp_all add: add_sub_def split_beta split: sum.split)

lemma add_sub_subs_ok:
  assumes "subs_ok w" shows "subs_ok (snd (add_sub x s w))"
proof -
  let ?p = "pg_sub_create (x_db_fails x (w_tick w)) (x_clock x (w_tick w)) s (w_db w)"
  show ?thesis
  proof (cases "fst ?p")
    case (Inl e)
    then have "snd ?p = w_db w" by (auto simp: pg_sub_create_def Let_def split: if_splits)
    with Inl assms show ?thesis by (simp add: add_sub_def split_beta subs_ok_def)
  next
    case (Inr row)
    then have d: "db_subs (snd ?p) = hm_insert (s_id s) row (db_subs (w_db w))" "s_id row = s_id s"
      by (auto simp: pg_sub_create_def Let_def split: if_splits)
    have m: "mem_subs (snd (add_sub x s w)) = snd (subs_add s (mem_subs w))"
      using Inr by (simp add: add_sub_def split_beta)
    have "hm_wf (mem_subs w)" using assms by (simp add: subs_ok_def subs_wf_def)
    with assms d show ?thesis
      by (auto simp: subs_ok_def add_sub_frame m subs_wf_add subs.lookup_add)
         (auto simp: subs_wf_def split: if_splits)
  qed
qed

lemma add_sub_inv: "api_inv x w \<Longrightarrow> api_inv x (snd (add_sub x s w))"
  using conns_ok_cong [of "snd (add_sub x s w)" w]
  by (intro api_invI) (auto simp: api_inv_def add_sub_frame pg_wf add_sub_subs_ok)

lemma sync_node_status_inv: "api_inv x w \<Longrightarrow> api_inv x (snd (sync_node_status x u e st w))"
  by (rule api_inv_frame, assumption)
     (auto simp: sync_node_status_def api_inv_def split_beta pg_wf node_update_status_def
       intro!: nodes_modify_wf split: sum.splits option.splits)

lemma apply_sub_req_id: "apply_sub_req pd now req s = Some s' \<Longrightarrow> s_id s' = s_id s"
  by (auto simp: apply_sub_req_def Subs.extend_def ops_simps split: option.splits)

lemma update_sub_frame:
  "mem_conns (snd (update_sub x i q w)) = mem_conns w"
  "mem_nodes (snd (update_sub x i q w)) = mem_nodes w"
  "db_table (snd (update_sub x i q w)) = db_table w"
  by (auto simp: update_sub_def Let_def split_beta split: option.split sum.split)

lemma update_sub_touch:
  "sub_touch (mem_subs w) (mem_subs (snd (update_sub x i q w)))"
  "sub_touch (db_subs (w_db w)) (db_subs (w_db (snd (update_sub x i q w))))"
  by (auto simp: update_sub_def Let_def split_beta pg_sub_update_touch
      split: option.split sum.split intro: sub_touch_insert dest: apply_sub_req_id)

lemma update_sub_db_wf: "db_wf (w_db w) \<Longrightarrow> db_wf (w_db (snd (update_sub x i q w)))"
  by (auto simp: update_sub_def Let_def split_beta pg_wf split: option.split sum.split)

lemma update_sub_inv: "api_inv x w \<Longrightarrow> api_inv x (snd (update_sub x i q w))"
  using conns_ok_cong [of "snd (update_sub x i q w)" w] subs_ok_touch [OF _ update_sub_touch, of w]
  by (intro api_invI) (auto simp: api_inv_def update_sub_frame update_sub_db_wf)

lemma fold_inv: "(\<And>a w. P w \<Longrightarrow> P (f a w)) \<Longrightarrow> P w \<Longrightarrow> P (fold f as w)"
  by (induction "as" arbitrary: w) simp_all

lemma restore_task_inv: "api_inv x w \<Longrightarrow> api_inv x (snd (restore_task x ic w))"
  by (cases ic)
     (auto simp: restore_task_def split_beta api_inv_pub restore_connection_inv
       split: sum.split outcome.split status.split)

lemma restore_by_subscription_inv:
  "api_inv x w \<Longrightarrow> api_inv x (snd (restore_connections_by_subscription x s w))"
  unfolding restore_by_subscription_fold by (rule fold_inv) (rule restore_task_inv)

text \<open>\<open>add_days\<close> up to the restoration of the connections.\<close>

lemma api_inv_sub_step:
  assumes "api_inv x w" and "mem_conns w' = mem_conns w" and "mem_nodes w' = mem_nodes w"
    and "db_table w' = db_table w" and "db_wf (w_db w')"
    and "sub_touch (mem_subs w) (mem_subs w')" and "sub_touch (db_subs (w_db w)) (db_subs (w_db w'))"
  shows "api_inv x w'"
  using assms conns_ok_cong [of w' w] by (auto simp: api_inv_def intro: subs_ok_touch)

lemma set_sub_expires_at_id: "s_id (snd (set_sub_expires_at n n' e s)) = s_id s"
  by (simp add: set_sub_expires_at_def)

lemma add_days_shape:
  obtains v where "mem_conns v = mem_conns w" "mem_nodes v = mem_nodes w" "db_table v = db_table w"
    "sub_touch (mem_subs w) (mem_subs v)" "sub_touch (db_subs (w_db w)) (db_subs (w_db v))"
    "db_wf (w_db w) \<Longrightarrow> db_wf (w_db v)"
    "snd (add_days x i days w) = v \<or> snd (add_days x i days w) = snd (restore_connections_by_subscription x i v)"
proof (cases "hm_get (mem_subs w) i")
  case None
  then show ?thesis by (intro that [of "tick w"]) (simp_all add: add_days_def)
next
  case (Some s)
  show ?thesis
  proof (cases "extended_expiry (x_plus_days x) (utc_now x (tick w)) days (s_expires_at s)")
    case None
    with Some show ?thesis by (intro that [of "tick w"]) (simp_all add: add_days_def)
  next
    case (Some e)
    let ?w = "tick (tick w)"
    let ?s = "snd (set_sub_expires_at (utc_now x ?w) (utc_now x (tick ?w)) e s)"
    let ?v = "tick (tick (set_subs (hm_insert i ?s (mem_subs ?w)) ?w))"
    let ?q = "run_db x (\<lambda>fails now. pg_sub_add_days fails (x_db_fails x (Suc (w_tick ?v)))
        (x_plus_days x) now i days) ?v"
    show ?thesis
    proof (rule that [of "tick (snd ?q)"])
      show "snd (add_days x i days w) = tick (snd ?q) \<or>
          snd (add_days x i days w) = snd (restore_connections_by_subscription x i (tick (snd ?q)))"
        using \<open>hm_get (mem_subs w) i = Some s\<close> Some
        by (simp add: add_days_def Let_def split_beta split: outcome.split)
    qed (use \<open>hm_get (mem_subs w) i = Some s\<close> in
      \<open>auto simp: pg_wf pg_sub_add_days_touch set_sub_expires_at_id intro: sub_touch_insert\<close>)
  qed
qed

lemma add_days_inv:
  assumes inv: "api_inv x w"
  shows "api_inv x (snd (add_days x i days w))"
proof (rule add_days_shape [of w x i days])
  fix v
  assume v: "mem_conns v = mem_conns w" "mem_nodes v = mem_nodes w" "db_table v = db_table w"
    "sub_touch (mem_subs w) (mem_subs v)" "sub_touch (db_subs (w_db w)) (db_subs (w_db v))"
    "db_wf (w_db w) \<Longrightarrow> db_wf (w_db v)"
    and s: "snd (add_days x i days w) = v \<or>
      snd (add_days x i days w) = snd (restore_connections_by_subscription x i v)"
  from inv v have "api_inv x v" by (intro api_inv_sub_step [OF inv]) (simp_all add: api_inv_def)
  with s restore_by_subscription_inv [of x v i] show ?thesis by auto
qed

lemma delete_all_inv: "api_inv x w \<Longrightarrow> api_inv x (delete_all x ics w)"
  unfolding delete_all_def by (rule fold_inv) (auto intro: delete_connection_inv)

lemma filter_subs_inv: "api_inv x w \<Longrightarrow> api_inv x (snd (filter_subs x sel ss w))"
  by (rule api_inv_frame, assumption) (simp_all add: filter_subs_frame api_inv_def)

lemma rounds_inv:
  assumes "api_inv x w"
  shows "api_inv x (cleanup_expired_connections x w)" "api_inv x (cleanup_expired_subscriptions x w)"
    "api_inv x (restore_subscriptions x w)"
  using assms
  by (auto simp: cleanup_expired_connections_def cleanup_expired_subscriptions_def Let_def split_beta
      restore_subscriptions_def intro!: delete_all_inv api_inv_tick filter_subs_inv
      restore_by_subscription_inv fold_inv [where P = "api_inv x"])

lemma get_state_inv:
  assumes inv: "api_inv x w" and laws: "v6_laws (x_v6_str x) (x_v6_parse x)"
  shows "api_inv x (snd (get_state_from_db x w))"
proof (cases "get_state_from_db x w" rule: prod.exhaust)
  case (Pair r w')
  then show ?thesis
  proof (cases rule: get_state_cases)
    case (failed e)
    then show ?thesis using Pair inv by (intro api_inv_frame [OF inv]) (simp_all add: api_inv_def)
  next
    case (loaded ns cs ss rows)
    note ok = api_invD [OF inv]
    have p: "get_state_from_db x w = (Inr (), w')" using Pair loaded by simp
    have wf: "hm_wf (db_table w)" "subs_wf (db_subs (w_db w))"
      using ok by (auto simp: db_wf_def subs_ok_def)
    have n: "nodes_wf (mem_nodes w')"
      using loaded nds.wf_load [of "[]" ns] by (simp add: nodes_wf_def)
    have s: "subs_ok w'"
      using get_state_subs [OF p wf(2)] ok(3) loaded(2) by (auto simp: subs_ok_def)
    have "conns_ok (x_v6_str x) w'"
    proof (rule conns_okI)
      fix i c
      assume "hm_get (mem_conns w') i = Some c"
      then obtain t where t: "hm_get (db_table w) i = Some t"
          "conn_of_row (row_of_columns (x_v6_parse x) i t) = Inr c"
        using get_state_conns(2) [OF p wf(1)] by blast
      from t(1) conns_okD(2) [OF ok(4)] obtain c0 where
          "row_core t = row_core (columns_of_row (x_v6_str x) (conn_row_of i c0))"
        by (auto simp: rows_ok_def)
      from row_core_reload [OF laws this t(2)] t conn_of_row_fields [OF t(2)] loaded(2)
      show "conn_backed (x_v6_str x) (w_db w') i c"
        by (simp add: conn_backed_def row_of_columns_def)
    qed (use get_state_conns(1) [OF p wf(1)] conns_okD(2) [OF ok(4)] loaded(2) in simp_all)
    with n s ok(1) loaded(2) Pair show ?thesis by (simp add: api_inv_def)
  qed
qed

section \<open>The transition system\<close>

inductive api_step :: "ext \<Rightarrow> world \<Rightarrow> world \<Rightarrow> bool" for x where
  step_node: "api_step x w (snd (add_node x i n w))"
| step_sub: "api_step x w (snd (add_sub x s w))"
| step_conn: "api_step x w (snd (add_conn x i c w))"
| step_delete: "api_step x w (snd (delete_connection x i c w))"
| step_restore: "api_step x w (snd (restore_connection x i w))"
| step_restore_sub: "api_step x w (snd (restore_connections_by_subscription x sid w))"
| step_status: "api_step x w (snd (sync_node_status x u e st w))"
| step_update_sub: "api_step x w (snd (update_sub x sid q w))"
| step_add_days: "api_step x w (snd (add_days x sid days w))"
| step_publish: "api_step x w (snd (publish x t msg w))"
| step_key: "api_step x w (snd (run_db x (\<lambda>f t. pg_key_insert f k) w))"
| step_activate: "api_step x w (snd (run_db x (\<lambda>f t. pg_key_activate f t k) w))"
| step_time: "api_step x w (tick w)"
| step_cleanup_conns: "api_step x w (cleanup_expired_connections x w)"
| step_cleanup_subs: "api_step x w (cleanup_expired_subscriptions x w)"
| step_restore_subs: "api_step x w (restore_subscriptions x w)"
| step_reload: "api_step x w (snd (get_state_from_db x w))"

text \<open>The server starts with an empty memory on tables it wrote itself.\<close>

definition api_start :: "ext \<Rightarrow> db \<Rightarrow> world \<Rightarrow> bool" where
  "api_start x d w = (w_mem w = cache_new \<and> w_db w = d \<and> w_pub w = [] \<and>
     db_wf d \<and> subs_wf (db_subs d) \<and> rows_ok (x_v6_str x) d)"

lemma api_start_inv: "api_start x d w \<Longrightarrow> api_inv x w"
  by (auto simp: api_start_def api_inv_def cache_new_def subs_ok_def conns_ok_def backed_def
      nodes_wf_def)

definition ext_ok :: "ext \<Rightarrow> bool" where
  "ext_ok x = v6_laws (x_v6_str x) (x_v6_parse x)"

lemma api_step_inv: "ext_ok x \<Longrightarrow> api_step x w w' \<Longrightarrow> api_inv x w \<Longrightarrow> api_inv x w'"
  by (erule api_step.cases)
     (auto simp: ext_ok_def intro: add_node_inv add_sub_inv add_conn_inv delete_connection_inv
       restore_connection_inv restore_by_subscription_inv sync_node_status_inv update_sub_inv
       add_days_inv api_inv_pub api_inv_key api_inv_tick rounds_inv get_state_inv)

text \<open>The invariant as one of the transition system; with a parameter that does not satisfy
  \<open>ext_ok\<close> nothing is claimed.\<close>

interpretation api: preserved "api_step x" "\<lambda>w. ext_ok x \<longrightarrow> api_inv x w" for x
  by unfold_locales (auto intro: api_step_inv)

lemma api_reach_inv:
  assumes "ext_ok x" and "api_start x d w0" and "(api_step x)\<^sup>*\<^sup>* w0 w"
  shows "api_inv x w"
  using api.reach_inv [OF assms(3)] assms(1) api_start_inv [OF assms(2)] by simp

end
