(* ===== verification/Email.thy ===== *)
theory Email
  imports Subs
begin

text \<open>
  The record of trial requests (\<open>bin/api/email.rs\<close>): a map from keyed hashes of e-mail addresses
  to the time of the request, and the file it is appended to and reloaded from. The keyed hash and
  chrono's conversions of time stamps are parameters. Sending mail is not modelled.
\<close>

record mail_ext =
  hmac_hex :: "string \<Rightarrow> string"
  to_rfc3339 :: "datetime \<Rightarrow> string"
  parse_datetime :: "string \<Rightarrow> datetime option"
  io_fails :: "nat \<Rightarrow> bool"

record email_store =
  es_store :: "(string, datetime) hmap"
  es_file :: "string option"

definition hmac_email :: "mail_ext \<Rightarrow> string \<Rightarrow> string" where
  "hmac_email m email = hmac_hex m email"

definition check_email_hmac :: "mail_ext \<Rightarrow> string \<Rightarrow> email_store \<Rightarrow> bool" where
  "check_email_hmac m email st = (hm_get (es_store st) (hmac_email m email) \<noteq> None)"

definition trial_line :: "mail_ext \<Rightarrow> (uuid \<Rightarrow> string) \<Rightarrow> datetime \<Rightarrow> string \<Rightarrow> uuid \<Rightarrow> string \<Rightarrow> string" where
  "trial_line m uuid_str time email_hmac sub_id ref_by =
     to_rfc3339 m time @ '','' @ email_hmac @ '','' @ uuid_str sub_id @ '','' @ ref_by @ [CHR 0x0A]"

text \<open>The entry is in memory even where the file cannot be opened or written.\<close>

definition save_trial_hmac :: "mail_ext \<Rightarrow> (uuid \<Rightarrow> string) \<Rightarrow> bool \<Rightarrow> string \<Rightarrow> uuid \<Rightarrow> datetime \<Rightarrow> string
    \<Rightarrow> email_store \<Rightarrow> email_store" where
  "save_trial_hmac m uuid_str fails email sub_id time ref_by st =
    (let h = hmac_email m email; st = st\<lparr>es_store := hm_insert h time (es_store st)\<rparr> in
     if fails then st
     else st\<lparr>es_file := Some ((case es_file st of Some f \<Rightarrow> f | None \<Rightarrow> []) @
            trial_line m uuid_str time h sub_id ref_by)\<rparr>)"

definition load_line :: "mail_ext \<Rightarrow> string \<Rightarrow> (string, datetime) hmap \<Rightarrow> (string, datetime) hmap" where
  "load_line m line mp = (let parts = split_on (CHR '','') line in
     if 2 \<le> length parts then
       (case parse_datetime m (parts ! 0) of
          Some ts \<Rightarrow> hm_insert (parts ! 1) ts mp
        | None \<Rightarrow> mp)
     else mp)"

definition load_trials :: "mail_ext \<Rightarrow> email_store \<Rightarrow> email_store" where
  "load_trials m st = (case es_file st of
      None \<Rightarrow> st
    | Some f \<Rightarrow> st\<lparr>es_store := fold (load_line m) (file_lines f) []\<rparr>)"

section \<open>The record survives a restart\<close>

text \<open>What chrono and the hash promise: time stamps read back, and neither their text nor the
  hexadecimal digits contain a separator.\<close>

definition plain :: "string \<Rightarrow> bool" where
  "plain s = (CHR '','' \<notin> set s \<and> CHR 0x0A \<notin> set s)"

definition mail_laws :: "mail_ext \<Rightarrow> bool" where
  "mail_laws m = ((\<forall>t. parse_datetime m (to_rfc3339 m t) = Some t \<and> plain (to_rfc3339 m t)) \<and>
     (\<forall>e. plain (hmac_hex m e)))"

lemma split_on_concat:
  assumes "c \<notin> set a" shows "split_on c (a @ c # b) = a # split_on c b"
  using assms by (induction a) auto

lemma split_on_butlast:
  "split_on c (f @ [c]) = split_on c f @ [[]]"
  by (induction f) (auto split: list.splits)

lemma split_on_snoc:
  "split_on c (f @ c # b) = split_on c f @ split_on c b"
  by (induction f) (auto split: list.splits)

lemma split_on_none: "c \<notin> set s \<Longrightarrow> split_on c s = [s]"
  by (induction s) auto

text \<open>A file the program wrote is empty or ends in a line feed; a line that is appended to it is
  its last line.\<close>

definition file_wf :: "string \<Rightarrow> bool" where
  "file_wf f = (f = [] \<or> last f = CHR 0x0A)"

lemma file_lines_append:
  assumes "file_wf f" and "CHR 0x0A \<notin> set l"
  shows "file_lines (f @ l @ [CHR 0x0A]) = file_lines f @ [strip_cr l]"
proof (cases "f = []")
  case True
  have "split_on (CHR 0x0A) (l @ [CHR 0x0A]) = [l, []]"
    using assms(2) by (simp add: split_on_concat split_on_none)
  with True show ?thesis by (simp add: file_lines_def)
next
  case False
  with assms(1) obtain g where f: "f = g @ [CHR 0x0A]"
    by (metis append_butlast_last_id file_wf_def)
  have "split_on (CHR 0x0A) (g @ CHR 0x0A # l @ [CHR 0x0A]) = split_on (CHR 0x0A) g @ [l, []]"
    using assms(2) by (simp add: split_on_snoc split_on_none)
  then show ?thesis by (simp add: f file_lines_def split_on_butlast butlast_append)
qed

lemma load_line_wf: "hm_wf mp \<Longrightarrow> hm_wf (load_line m l mp)"
  by (simp add: load_line_def Let_def split: option.split)

lemma load_line_trial:
  assumes "mail_laws m"
  shows "load_line m (strip_cr (to_rfc3339 m t @ '','' @ hmac_email m e @ '','' @ rest)) mp =
     hm_insert (hmac_email m e) t mp"
proof -
  have p: "plain (to_rfc3339 m t)" "plain (hmac_email m e)"
      "parse_datetime m (to_rfc3339 m t) = Some t"
    using assms by (auto simp: mail_laws_def hmac_email_def)
  have "\<exists>rest'. strip_cr (to_rfc3339 m t @ '','' @ hmac_email m e @ '','' @ rest) =
      to_rfc3339 m t @ '','' @ hmac_email m e @ '','' @ rest'"
    by (cases rest rule: rev_cases) (auto simp: strip_cr_def butlast_append)
  then obtain r where r: "strip_cr (to_rfc3339 m t @ '','' @ hmac_email m e @ '','' @ rest) =
      to_rfc3339 m t @ CHR '','' # hmac_email m e @ CHR '','' # r" by auto
  have "split_on (CHR '','') (to_rfc3339 m t @ CHR '','' # hmac_email m e @ CHR '','' # r) =
      to_rfc3339 m t # hmac_email m e # split_on (CHR '','') r"
    using p by (simp add: split_on_concat plain_def)
  then show ?thesis using p unfolding r by (simp add: load_line_def)
qed

lemma load_after_save:
  assumes "mail_laws m" and "file_wf (case es_file st of Some f \<Rightarrow> f | None \<Rightarrow> [])"
    and "CHR 0x0A \<notin> set (us s @ '','' @ r)"
  shows "hm_get (es_store (load_trials m (save_trial_hmac m us False e s t r st))) (hmac_email m e) = Some t"
proof -
  let ?f = "case es_file st of Some f \<Rightarrow> f | None \<Rightarrow> []"
  let ?l = "to_rfc3339 m t @ '','' @ hmac_email m e @ '','' @ us s @ '','' @ r"
  have "CHR 0x0A \<notin> set ?l"
    using assms(1,3) by (auto simp: mail_laws_def plain_def hmac_email_def)
  then have "file_lines (?f @ ?l @ [CHR 0x0A]) = file_lines ?f @ [strip_cr ?l]"
    by (rule file_lines_append [OF assms(2)])
  then have "es_store (load_trials m (save_trial_hmac m us False e s t r st)) =
      load_line m (strip_cr ?l) (fold (load_line m) (file_lines ?f) [])"
    by (simp add: load_trials_def save_trial_hmac_def Let_def trial_line_def)
  then show ?thesis
    using load_line_trial [OF assms(1), of t e "us s @ '','' @ r"] by simp
qed

end
