(* ===== verification/Handlers.thy ===== *)
theory Handlers
  imports ApiRun Email
begin

text \<open>
  The HTTP handlers of the API server that change state (\<open>bin/api/http/handlers/{connection,
  subscription,key,trial,node}.rs\<close>) with their requests (\<open>bin/api/http/request.rs\<close>), the replies
  (\<open>http/{helpers,response}.rs\<close>) and the handler that sends a node or the authentication service
  its connections. Each handler is a function of the request and the world; it returns a reply, or
  rejects the request, or panics.
\<close>

section \<open>Replies\<close>

datatype instance_data =
    IConnection conn
  | ISubscription subscription
  | IKey key
  | ICount nat
  | IId
  | INone

datatype reply = Reply (r_status: nat) (r_message: string) (r_response: "(uuid \<times> instance_data) option")

definition bad_request :: "string \<Rightarrow> reply" where
  "bad_request msg = Reply 400 msg None"

definition conflict :: "string \<Rightarrow> reply" where
  "conflict msg = Reply 409 msg None"

definition internal_error :: "string \<Rightarrow> reply" where
  "internal_error msg = Reply 500 msg None"

definition not_found :: "string \<Rightarrow> reply" where
  "not_found msg = Reply 404 msg None"

definition not_modified :: "string \<Rightarrow> reply" where
  "not_modified msg = Reply 304 msg None"

definition success_response :: "string \<Rightarrow> uuid option \<Rightarrow> instance_data \<Rightarrow> reply" where
  "success_response msg i inst = Reply 200 msg (Some ((case i of Some u \<Rightarrow> u | None \<Rightarrow> 0), inst))"

lemmas reply_defs [ops_simps] = bad_request_def conflict_def internal_error_def not_found_def
  not_modified_def success_response_def

type_synonym 'r handled = "(error, reply) outcome \<times> 'r"

definition status_to_string :: "(uuid \<Rightarrow> string) \<Rightarrow> status \<Rightarrow> string" where
  "status_to_string us st = (case st of
      AlreadyExist u \<Rightarrow> ''AlreadyExist: '' @ us u
    | NotModified u \<Rightarrow> ''NotModified: '' @ us u
    | Updated u \<Rightarrow> ''Updated: '' @ us u
    | Ok u \<Rightarrow> ''Ok: '' @ us u
    | NotFound u \<Rightarrow> ''NotFound: '' @ us u
    | UpdatedStat u \<Rightarrow> ''UpdatedStat: '' @ us u
    | BadRequest u msg \<Rightarrow> ''BadRequest: '' @ us u @ '' '' @ msg
    | DeletedPreviously u \<Rightarrow> ''DeletedPreviously: '' @ us u)"

section \<open>New connections\<close>

text \<open>The address of the next WireGuard peer, as the handlers of \<open>POST /connection\<close> and
  \<open>POST /trial\<close> compute it.\<close>

definition alloc_wg :: "ip_addr_mask \<Rightarrow> conn connections \<Rightarrow> string + u32" where
  "alloc_wg wg_network m =
    (case (case Option.bind (get_last_wg_addr m) as_ipv4 of
        Some ip \<Rightarrow> increment_ipv4 ip
      | None \<Rightarrow> first_peer_ip wg_network) of
       None \<Rightarrow> Inl ''Failed to allocate IP''
     | Some ip \<Rightarrow> if \<not> contains_ipv4 wg_network ip then Inl ''IP out of range'' else Inr ip)"

text \<open>The parameters of a new connection of a protocol; drawing them is one external event.\<close>

definition new_proto :: "ext \<Rightarrow> ip_addr_mask \<Rightarrow> proto_tag \<Rightarrow> world \<Rightarrow> (string + proto) \<times> world" where
  "new_proto x wg_network tag w =
    ((case tag of
        Wireguard \<Rightarrow> (case alloc_wg wg_network (mem_conns w) of
            Inl e \<Rightarrow> Inl e
          | Inr ip \<Rightarrow> Inr (ProtoWireguard \<lparr>keys = \<lparr>privkey = x_privkey x (w_tick w)\<rparr>,
              wg_address = \<lparr>address = V4 ip, cidr = 32\<rparr>\<rparr>))
      | Shadowsocks \<Rightarrow> Inr (ProtoShadowsocks (x_password x (w_tick w)))
      | Hysteria2 \<Rightarrow> Inr (ProtoHysteria2 (x_new_uuid x (w_tick w)))
      | Mtproto \<Rightarrow> Inr (ProtoMtproto (x_password x (w_tick w)))
      | _ \<Rightarrow> Inr (ProtoXray tag)),
     tick w)"

definition create_topic :: "conn \<Rightarrow> topic option" where
  "create_topic c = (if proto_token (c_proto c) \<noteq> None then Some AuthTopic
     else if is_mtproto (c_proto c) then None else Some (Updates (c_env c)))"

text \<open>Announcing a stored connection: a serialisation error is reported, a failed send is
  ignored.\<close>

definition announce :: "ext \<Rightarrow> uuid \<Rightarrow> conn \<Rightarrow> world \<Rightarrow> (unit + unit) \<times> world" where
  "announce x conn_id c w =
    (if x_ser_fails x (w_tick w) then (Inl (), tick w)
     else (Inr (), case create_topic c of
         None \<Rightarrow> tick w
       | Some t \<Rightarrow> snd (publish x t [as_create_message c conn_id] w)))"

record conn_create_request =
  cq_env :: env
  cq_subscription_id :: "uuid option"
  cq_proto :: proto_tag
  cq_days :: "u16 option"

text \<open>The expiry a request asks for; the outer \<open>None\<close> is an overflow in chrono.\<close>

definition requested_expiry :: "plus_days \<Rightarrow> datetime \<Rightarrow> int option \<Rightarrow> datetime option option" where
  "requested_expiry pd now days = (case days of
      None \<Rightarrow> Some None
    | Some d \<Rightarrow> map_option Some (pd now d))"

definition sub_check :: "ext \<Rightarrow> uuid option \<Rightarrow> world \<Rightarrow> reply option" where
  "sub_check x sub_id w = (case sub_id of
      None \<Rightarrow> None
    | Some i \<Rightarrow> (case hm_get (mem_subs w) i of
        None \<Rightarrow> Some (bad_request (''Subscription '' @ x_uuid_str x i @ '' not found''))
      | Some s \<Rightarrow> if \<not> is_active (utc_now x w) s
          then Some (bad_request (''Subscription is not active '' @ x_uuid_str x i @ '' '')) else None))"

definition create_connection_handler ::
    "ext \<Rightarrow> conn_create_request \<Rightarrow> ip_addr_mask \<Rightarrow> world \<Rightarrow> world handled" where
  "create_connection_handler x req wg_network w =
    (case requested_expiry (x_plus_days x) (utc_now x w) (map_option uint (cq_days req)) of
       None \<Rightarrow> (Panic, tick w)
     | Some expired_at \<Rightarrow>
        (let w = tick w in
         case sub_check x (cq_subscription_id req) w of
           Some r \<Rightarrow> (Ret r, tick w)
         | None \<Rightarrow>
            (let w = tick w in
             case new_proto x wg_network (cq_proto req) w of
               (Inl msg, w) \<Rightarrow> (Ret (internal_error msg), w)
             | (Inr p, w) \<Rightarrow>
                (let c = conn_new (utc_now x w) (cq_env req) (cq_subscription_id req) p expired_at;
                     w = tick w;
                     conn_id = x_new_uuid x (w_tick w);
                     w = tick w
                 in case add_conn x conn_id c w of
                   (Ret (Ok i), w) \<Rightarrow> (case announce x conn_id c w of
                       (Inl _, w) \<Rightarrow> (Ret (internal_error (''Serialization error: '' @
                          x_err_str x SRkyvSerialize)), w)
                     | (Inr _, w) \<Rightarrow> (Ret (success_response
                          (''Connection '' @ x_uuid_str x i @ '' has been created'') (Some i)
                          (IConnection c)), w))
                 | (Ret (AlreadyExist i), w) \<Rightarrow> (Ret (not_modified
                      (''Connection '' @ x_uuid_str x i @ '' already exists'')), w)
                 | (Ret (BadRequest i msg), w) \<Rightarrow> (Ret (bad_request
                      (''BadRequest '' @ x_uuid_str x i @ '' '' @ msg)), w)
                 | (Ret st, w) \<Rightarrow> (Ret (bad_request (''Unsupported operation status: '' @
                      status_to_string (x_uuid_str x) st)), w)
                 | (Err e, w) \<Rightarrow> (Ret (internal_error (''Internal error while processing connection ''
                      @ x_uuid_str x conn_id @ '': '' @ x_err_str x e)), w)
                 | (Panic, w) \<Rightarrow> (Panic, w)))))"

definition delete_connection_handler :: "ext \<Rightarrow> uuid \<Rightarrow> world \<Rightarrow> world handled" where
  "delete_connection_handler x conn_id w = (case hm_get (mem_conns w) conn_id of
      None \<Rightarrow> (Ret (not_found (''Connection '' @ x_uuid_str x conn_id @ '' not found'')), w)
    | Some c \<Rightarrow>
        if c_is_deleted c
        then (Ret (not_found (''Connection '' @ x_uuid_str x conn_id @ '' already is deleted'')), w)
        else (case delete_connection x conn_id c w of
            (Ret (Ok i), w) \<Rightarrow> (Ret (success_response
               (''Connection '' @ x_uuid_str x i @ '' has been deleted'') (Some i) (IConnection c)), w)
          | (Ret (NotFound i), w) \<Rightarrow>
               (Ret (not_found (''Connection '' @ x_uuid_str x i @ '' not found'')), w)
          | (Ret st, w) \<Rightarrow> (Ret (bad_request (''Unsupported operation status: '' @
               status_to_string (x_uuid_str x) st)), w)
          | (Err e, w) \<Rightarrow> (Ret (internal_error (''Internal error while deleting connection '' @
               x_uuid_str x conn_id @ '': '' @ x_err_str x e)), w)
          | (Panic, w) \<Rightarrow> (Panic, w)))"

definition get_connection_handler :: "uuid \<Rightarrow> world \<Rightarrow> reply" where
  "get_connection_handler conn_id w = (case hm_get (mem_conns w) conn_id of
      Some c \<Rightarrow> success_response ''Connection is found'' (Some conn_id) (IConnection c)
    | None \<Rightarrow> not_found ''Connection is not found'')"

section \<open>Sending connections to a subscriber\<close>

record conn_type =
  ct_proto :: proto_tag
  ct_last_update :: "u64 option"
  ct_env :: env
  ct_topic :: topic

text \<open>\<open>DateTime::timestamp() as u64\<close>: a time before the epoch wraps around.\<close>

definition timestamp_u64 :: "datetime \<Rightarrow> u64" where
  "timestamp_u64 t = word_of_int (t div 10 ^ 9)"

definition wants :: "conn_type \<Rightarrow> conn \<Rightarrow> bool" where
  "wants req c = (\<not> c_is_deleted c \<and> proto_tag_of (c_proto c) = ct_proto req \<and>
     (ct_proto req = Hysteria2 \<or> c_env c = ct_env req) \<and>
     (case ct_last_update req of None \<Rightarrow> True | Some ts \<Rightarrow> ts \<le> timestamp_u64 (c_modified_at c)))"

text \<open>A message that cannot be serialised or sent rejects the request with the library's error.\<close>

definition rejection :: "sync_error \<Rightarrow> error" where
  "rejection e = (if e = SZmq then Zmq else RkyvSerialize)"

definition get_connections_handler :: "ext \<Rightarrow> conn_type \<Rightarrow> world \<Rightarrow> world handled" where
  "get_connections_handler x req w =
    (let messages = map (\<lambda>(i, c). as_create_message c i) (filter (\<lambda>(_, c). wants req c) (mem_conns w)) in
     if messages = [] then (Ret (not_modified []), w)
     else (case publish x (ct_topic req) messages w of
        (Inl e, w) \<Rightarrow> (Err (rejection e), w)
      | (Inr _, w) \<Rightarrow> (Ret (success_response ''Ok'' None (ICount (length messages))), w)))"

section \<open>Subscriptions\<close>

text \<open>The referral code of a request: the days the new subscriber would get and the subscription
  that is rewarded; \<open>None\<close> where no subscription has the code.\<close>

definition referrer :: "string list \<Rightarrow> int \<Rightarrow> string option \<Rightarrow> subscriptions \<Rightarrow> (int \<times> uuid option) option" where
  "referrer system_refer_codes bonus ref_by m = (case ref_by of
      None \<Rightarrow> Some (0, None)
    | Some code \<Rightarrow> (case find_by_refer_code code m of
        None \<Rightarrow> None
      | Some s \<Rightarrow> Some (if code \<in> set system_refer_codes then 0 else bonus, Some (s_id s))))"

text \<open>\<open>i64\<close> addition, which wraps around in a release build.\<close>

definition i64_add :: "int \<Rightarrow> int \<Rightarrow> int" where
  "i64_add a b = sint (word_of_int (a + b) :: i64)"

text \<open>Rewarding the referrer, if there is one.\<close>

definition reward :: "ext \<Rightarrow> uuid option \<Rightarrow> int \<Rightarrow> world \<Rightarrow> (sync_error, unit) outcome \<times> world" where
  "reward x sub_id days w = (case sub_id of
      None \<Rightarrow> (Ret (), w)
    | Some i \<Rightarrow> (case add_days x i days w of
        (Ret _, w) \<Rightarrow> (Ret (), w)
      | (Err e, w) \<Rightarrow> (Err e, w)
      | (Panic, w) \<Rightarrow> (Panic, w)))"

definition post_subscription_handler :: "ext \<Rightarrow> sub_req \<Rightarrow> int \<Rightarrow> string list \<Rightarrow> world \<Rightarrow> world handled" where
  "post_subscription_handler x req bonus system_refer_codes w =
    (let sub_id = x_new_uuid x (w_tick w); w = tick w in
     case (case q_refer_code req of Some c \<Rightarrow> Some c
           | None \<Rightarrow> get_uuid_last_octet_simple (x_uuid_str x) sub_id) of
       None \<Rightarrow> (Panic, w)
     | Some ref_code \<Rightarrow>
        (case referrer system_refer_codes bonus (q_referred_by req) (mem_subs w) of
           None \<Rightarrow> (Ret (bad_request ''Refer code no found''), w)
         | Some (bonus_days, sub_id_to_update) \<Rightarrow>
            (case reward x sub_id_to_update bonus w of
               (Panic, w) \<Rightarrow> (Panic, w)
             | (Err e, w) \<Rightarrow> (Ret (internal_error (''Couldn'' @ [CHR 0x27] @ ''t create subscription: '' @ x_err_str x e)), w)
             | (Ret _, w) \<Rightarrow>
                (case requested_expiry (x_plus_days x) (utc_now x w)
                     (map_option (\<lambda>d. i64_add d bonus_days) (q_days req)) of
                   None \<Rightarrow> (Panic, tick w)
                 | Some expires_at \<Rightarrow>
                    (let w = tick w;
                         s = subscription_new (utc_now x w) sub_id (q_referred_by req) ref_code
                               expires_at (q_limit_bytes req);
                         w = tick w
                     in case add_sub x s w of
                       (Ret (Ok i), w) \<Rightarrow> (Ret (success_response
                          (''Subscription '' @ x_uuid_str x i @ '' has been created'') (Some sub_id)
                          (ISubscription s)), w)
                     | (Ret (AlreadyExist i), w) \<Rightarrow> (Ret (not_modified
                          (''Subscription '' @ x_uuid_str x i @ '' already exists'')), w)
                     | (Ret (NotFound i), w) \<Rightarrow> (Ret (not_found
                          (''Subscription '' @ x_uuid_str x i @ '' is not found'')), w)
                     | (Ret _, w) \<Rightarrow> (Ret (not_modified []), w)
                     | (Err e, w) \<Rightarrow> (Ret (internal_error
                          (''Internal error while processing subscription '' @ x_uuid_str x sub_id @
                           '': '' @ x_err_str x e)), w)
                     | (Panic, w) \<Rightarrow> (Panic, w))))))"

definition put_subscription_handler :: "ext \<Rightarrow> uuid \<Rightarrow> sub_req \<Rightarrow> world \<Rightarrow> world handled" where
  "put_subscription_handler x sub_id req w = (case update_sub x sub_id req w of
      (Ret (Updated i), w) \<Rightarrow> (Ret (success_response
         (''Subscription '' @ x_uuid_str x i @ '' has been updated'') (Some sub_id) INone), w)
    | (Ret (NotFound i), w) \<Rightarrow> (Ret (not_found
         (''Subscription '' @ x_uuid_str x i @ '' is not found'')), w)
    | (Ret _, w) \<Rightarrow> (Ret (not_modified []), w)
    | (Err e, w) \<Rightarrow> (Ret (internal_error (''Internal error while processing subscription '' @
         x_uuid_str x sub_id @ '': '' @ x_err_str x e)), w)
    | (Panic, w) \<Rightarrow> (Panic, w))"

section \<open>Keys\<close>

definition get_key_validate_handler :: "ext \<Rightarrow> codec \<Rightarrow> string \<Rightarrow> u8 list \<Rightarrow> world \<Rightarrow> world handled" where
  "get_key_validate_handler x k code secret w =
    (if \<not> code_is_valid k code secret then (Ret (bad_request ''Key is not valid''), w)
     else (case run_db x (\<lambda>fails _ d. (pg_key_get fails code d, d)) w of
        (Some ky, w) \<Rightarrow> (Ret (success_response
           (if k_activated ky then ''Key is valid and already activated'' else ''Key is valid'')
           (Some (k_id ky)) (IKey ky)), w)
      | (None, w) \<Rightarrow> (Ret (not_found ''Key is not found''), w)))"

definition post_key_handler :: "ext \<Rightarrow> codec \<Rightarrow> i16 \<Rightarrow> string option \<Rightarrow> u8 list \<Rightarrow> world \<Rightarrow> world handled" where
  "post_key_handler x k days distributor secret w =
    (case distributor_new (case distributor of Some d \<Rightarrow> d | None \<Rightarrow> ''FRKN'') of
       Inl _ \<Rightarrow> (Err (Custom ''invalid distributor''), w)
     | Inr dist \<Rightarrow>
        (let ky = key_new k (x_new_uuid x (w_tick w)) (utc_now x w) (x_random x (w_tick w)) days dist secret;
             w = tick w
         in case run_db x (\<lambda>fails _. pg_key_insert fails ky) w of
           (Inr _, w) \<Rightarrow> (Ret (success_response (''Key '' @ x_uuid_str x (k_id ky) @ '' is created'')
              (Some (k_id ky)) (IKey ky)), w)
         | (Inl _, w) \<Rightarrow> (Ret (bad_request ''Key create error''), w)))"

definition post_activate_key_handler :: "ext \<Rightarrow> string \<Rightarrow> uuid \<Rightarrow> world \<Rightarrow> world handled" where
  "post_activate_key_handler x code sub_id w =
    (case run_db x (\<lambda>fails _ d. (pg_key_get fails code d, d)) w of
       (None, w) \<Rightarrow> (Ret (not_found ''Key not found''), w)
     | (Some ky, w) \<Rightarrow>
        if k_activated ky then (Ret (bad_request ''Key already activated''), w)
        else (case add_days x sub_id (sint (k_days ky)) w of
           (Ret (Updated _), w) \<Rightarrow>
             (let ky = key_activate (utc_now x w) sub_id ky; w = tick w in
              case run_db x (\<lambda>fails now. pg_key_activate fails now ky) w of
                (Inl e, w) \<Rightarrow> (Ret (bad_request (''Key activation failed: '' @ x_err_str x (SDatabase e))), w)
              | (Inr _, w) \<Rightarrow> (Ret (success_response
                   (''Key '' @ x_uuid_str x (k_id ky) @ '' activated'') (Some (k_id ky)) (IKey ky)), w))
         | (Ret (NotFound _), w) \<Rightarrow> (Ret (not_found ''Subscription not found''), w)
         | (Err e, w) \<Rightarrow> (Ret (bad_request (''Failed to add days: '' @ x_err_str x e)), w)
         | (Ret _, w) \<Rightarrow> (Ret (not_modified []), w)
         | (Panic, w) \<Rightarrow> (Panic, w)))"

section \<open>Trials\<close>

record trial_req =
  tr_user :: "string option"
  tr_email :: "string option"
  tr_referred_by :: "string option"

text \<open>One round of the inner loop: \<open>Some msg\<close> where the handler returns early.\<close>

definition trial_conn :: "ext \<Rightarrow> ip_addr_mask \<Rightarrow> uuid \<Rightarrow> env \<times> proto_tag \<Rightarrow> world \<Rightarrow> string option \<times> world" where
  "trial_conn x wg_network sub_id et w = (case et of (e, tag) \<Rightarrow>
     (case new_proto x wg_network tag w of
        (Inl msg, w) \<Rightarrow> (Some msg, w)
      | (Inr p, w) \<Rightarrow>
         (let c = conn_new (utc_now x w) e (Some sub_id) p None;
              w = tick w;
              conn_id = x_new_uuid x (w_tick w);
              w = tick w
          in case add_conn x conn_id c w of
            (Ret (Ok _), w) \<Rightarrow> (case announce x conn_id c w of
                (Inl _, w) \<Rightarrow> (Some (''Serialization error: '' @ x_err_str x SRkyvSerialize), w)
              | (Inr _, w) \<Rightarrow> (None, w))
          | (_, w) \<Rightarrow> (None, w))))"

fun trial_conns :: "ext \<Rightarrow> ip_addr_mask \<Rightarrow> uuid \<Rightarrow> (env \<times> proto_tag) list \<Rightarrow> world \<Rightarrow> string option \<times> world" where
  "trial_conns x wg_network sub_id [] w = (None, w)"
| "trial_conns x wg_network sub_id (et # ets) w =
    (case trial_conn x wg_network sub_id et w of
       (Some msg, w) \<Rightarrow> (Some msg, w)
     | (None, w) \<Rightarrow> trial_conns x wg_network sub_id ets w)"

definition trial_requested :: "mail_ext \<Rightarrow> trial_req \<Rightarrow> email_store \<Rightarrow> bool" where
  "trial_requested m req st =
    ((case tr_user req of Some u \<Rightarrow> check_email_hmac m u st | None \<Rightarrow> False) \<or>
     (case tr_email req of Some e \<Rightarrow> check_email_hmac m e st | None \<Rightarrow> False))"

definition save_trial :: "ext \<Rightarrow> mail_ext \<Rightarrow> string option \<Rightarrow> uuid \<Rightarrow> datetime \<Rightarrow> string \<Rightarrow>
    world \<times> email_store \<Rightarrow> world \<times> email_store" where
  "save_trial x m who sub_id now ref_by ws = (case who of
      None \<Rightarrow> ws
    | Some e \<Rightarrow> (tick (fst ws), save_trial_hmac m (x_uuid_str x) (io_fails m (w_tick (fst ws))) e sub_id
        now ref_by (snd ws)))"

record trial_config =
  tc_network :: ip_addr_mask
  tc_system_codes :: "string list"
  tc_envs :: "env list"
  tc_protos :: "proto_tag list"
  tc_days :: int
  tc_bonus :: int
  tc_limit_bytes :: int

definition post_trial_handler :: "ext \<Rightarrow> mail_ext \<Rightarrow> trial_config \<Rightarrow> trial_req \<Rightarrow> world \<times> email_store \<Rightarrow>
    (world \<times> email_store) handled" where
  "post_trial_handler x m cfg req ws = (case ws of (w, st) \<Rightarrow>
     if tr_user req \<noteq> None \<and> tr_email req \<noteq> None
     then (Err (Custom ''Only one param is allowed''), w, st)
     else if trial_requested m req st then (Ret (bad_request ''Trial already requested''), w, st)
     else
      (let sub_id = x_new_uuid x (w_tick w); w = tick w in
       case referrer (tc_system_codes cfg) (tc_bonus cfg) (tr_referred_by req) (mem_subs w) of
         None \<Rightarrow> (Ret (bad_request ''Refer code not found''), w, st)
       | Some (bonus_days, sub_id_to_update) \<Rightarrow>
          (case reward x sub_id_to_update bonus_days w of
             (Panic, w) \<Rightarrow> (Panic, w, st)
           | (Err e, w) \<Rightarrow> (Ret (internal_error (''Couldn'' @ [CHR 0x27] @ ''t add bonus days: '' @ x_err_str x e)), w, st)
           | (Ret _, w) \<Rightarrow>
              (let now = utc_now x w; w = tick w in
               case (x_plus_days x now (tc_days cfg), get_uuid_last_octet_simple (x_uuid_str x) sub_id) of
                 (Some expires_at, Some ref_code) \<Rightarrow>
                  (let s = subscription_new (utc_now x w) sub_id (tr_referred_by req) ref_code
                         (Some expires_at) (Some (tc_limit_bytes cfg));
                       w = tick w
                   in case add_sub x s w of
                     (Ret (Ok new_sub_id), w) \<Rightarrow>
                       (case trial_conns x (tc_network cfg) new_sub_id
                            (List.product (tc_envs cfg) (tc_protos cfg)) w of
                          (Some msg, w) \<Rightarrow> (Ret (internal_error msg), w, st)
                        | (None, w) \<Rightarrow>
                           (let ref_by = (case tr_referred_by req of Some r \<Rightarrow> r | None \<Rightarrow> ''WEB'')
                            in (Ret (success_response ''Trial activated. Check email'' (Some sub_id) INone),
                                save_trial x m (tr_email req) sub_id now ref_by
                                  (save_trial x m (tr_user req) sub_id now ref_by (w, st)))))
                   | (Panic, w) \<Rightarrow> (Panic, w, st)
                   | (_, w) \<Rightarrow> (Ret (internal_error ''Failed to add sub''), w, st))
               | _ \<Rightarrow> (Panic, w, st)))))"

section \<open>Nodes\<close>

record node_request =
  nq_env :: env
  nq_hostname :: string
  nq_address :: u32
  nq_inbounds :: "proto_tag \<Rightarrow> inbound option"
  nq_uuid :: uuid
  nq_label :: string
  nq_interface :: string
  nq_cores :: nat
  nq_max_bandwidth_bps :: int
  nq_country :: string
  nq_type :: "node_type option"

definition as_node :: "datetime \<Rightarrow> node_request \<Rightarrow> node" where
  "as_node now q = \<lparr>n_uuid = nq_uuid q, n_env = nq_env q, n_hostname = nq_hostname q,
     n_address = nq_address q, n_status = Online, n_label = nq_label q, n_interface = nq_interface q,
     n_created_at = now, n_modified_at = now, n_inbounds = nq_inbounds q, n_cores = nq_cores q,
     n_max_bandwidth_bps = nq_max_bandwidth_bps q, n_country = nq_country q,
     n_type = (case nq_type q of Some t \<Rightarrow> t | None \<Rightarrow> Common)\<rparr>"

definition post_node_handler :: "ext \<Rightarrow> node_request \<Rightarrow> world \<Rightarrow> world handled" where
  "post_node_handler x req w =
    (let n = as_node (utc_now x w) req; node_id = nq_uuid req; w = tick w in
     case add_node x node_id n w of
       (Err e, w) \<Rightarrow> (Ret (internal_error (''INTERNAL_SERVER_ERROR '' @ x_err_str x e @ '' for '' @
          x_uuid_str x node_id)), w)
     | (Panic, w) \<Rightarrow> (Panic, w)
     | (Ret st, w) \<Rightarrow>
        (let ok = (\<lambda>i w. (Ret (success_response ''Ok'' (Some i) IId),
               snd (sync_node_status x node_id (n_env n) Online w)))
         in case st of
           Ok i \<Rightarrow> ok i w
         | AlreadyExist i \<Rightarrow> ok i w
         | NotModified i \<Rightarrow> ok i w
         | _ \<Rightarrow> (Ret (bad_request ''Operation not supported''), w)))"

end
