(* ===== verification/HandlerInv.thy ===== *)
theory HandlerInv
  imports Handlers
begin

text \<open>
  The invariant of the server as its clients drive it: on top of the cache invariant, memory and
  table have the same connections, and no two connections share a WireGuard IPv4 address. The
  handlers keep it because an address is only handed out above all those in use; everything else
  only sets flags.
\<close>

section \<open>Address allocation\<close>

lemma alloc_wg_in_network: "alloc_wg net m = Inr ip \<Longrightarrow> contains_ipv4 net ip"
  by (auto simp: alloc_wg_def split: option.splits if_splits)

lemma first_peer_pos: "first_peer_ip net = Some ip \<Longrightarrow> 0 < ip"
  by (auto simp: first_peer_ip_def word_less_nat_alt dest!: increment_ipv4_Some split: option.splits if_splits)

lemma increment_less: "increment_ipv4 a = Some b \<Longrightarrow> a < b"
  by (auto simp: word_less_nat_alt dest: increment_ipv4_Some)

definition wg_ip :: "conn \<Rightarrow> u32 option" where
  "wg_ip c = Option.bind (proto_wireguard (c_proto c)) (\<lambda>w. as_ipv4 (wg_address w))"

lemma alloc_wg_fresh:
  assumes "alloc_wg net m = Inr ip" and "conns_wg_ok m" and "(i, c) \<in> set m" and "wg_ip c = Some a"
  shows "a < ip"
proof -
  from assms(4) obtain w where w: "proto_wireguard (c_proto c) = Some w" "as_ipv4 (wg_address w) = Some a"
    by (auto simp: wg_ip_def bind_eq_Some_conv)
  with assms(2,3) obtain l where l: "get_last_wg_addr m = Some l"
    using get_last_wg_addr_None [of m] by fastforce
  have bound: "a \<le> (case as_ipv4 l of Some l \<Rightarrow> l | None \<Rightarrow> 0)"
    by (rule get_last_wg_addr_bound [OF l assms(3) w])
  show ?thesis
  proof (cases "as_ipv4 l")
    case None
    with l assms(1) have "first_peer_ip net = Some ip"
      by (auto simp: alloc_wg_def split: option.splits if_splits)
    with bound None show ?thesis by (auto dest: first_peer_pos)
  next
    case (Some b)
    with l assms(1) have "increment_ipv4 b = Some ip"
      by (auto simp: alloc_wg_def split: option.splits if_splits)
    with bound Some show ?thesis by (auto dest: increment_less)
  qed
qed

section \<open>The invariant\<close>

definition coherent :: "world \<Rightarrow> bool" where
  "coherent w = (\<forall>i. hm_get (mem_conns w) i = None \<longleftrightarrow> hm_get (db_table w) i = None)"

definition wg_unique :: "conn connections \<Rightarrow> bool" where
  "wg_unique m = (\<forall>i j c d a. hm_get m i = Some c \<longrightarrow> hm_get m j = Some d \<longrightarrow>
     wg_ip c = Some a \<longrightarrow> wg_ip d = Some a \<longrightarrow> i = j)"

definition wg_inv :: "world \<Rightarrow> bool" where
  "wg_inv w = (coherent w \<and> conns_wg_ok (mem_conns w) \<and> wg_unique (mem_conns w))"

definition srv_inv :: "ext \<Rightarrow> world \<Rightarrow> bool" where
  "srv_inv x w = (api_inv x w \<and> wg_inv w)"

lemma srv_invD: "srv_inv x w \<Longrightarrow> api_inv x w" "srv_inv x w \<Longrightarrow> wg_inv w"
  by (simp_all add: srv_inv_def)

lemma srv_inv_hm_wf: "srv_inv x w \<Longrightarrow> hm_wf (mem_conns w)"
  by (simp add: srv_inv_def api_inv_def conns_ok_def)

lemma conns_wg_ok_iff:
  "hm_wf m \<Longrightarrow> conns_wg_ok m \<longleftrightarrow> (\<forall>i c. hm_get m i = Some c \<longrightarrow>
     proto_tag_of (c_proto c) = Wireguard \<longrightarrow> proto_wireguard (c_proto c) \<noteq> None)"
  by (auto simp: conns_wg_ok_def map_of_eq_Some_iff)

text \<open>What every operation but the creation of a connection does to the two stores.\<close>

definition same_conns :: "world \<Rightarrow> world \<Rightarrow> bool" where
  "same_conns w w' = ((\<forall>i. hm_get (mem_conns w') i = hm_get (mem_conns w) i \<or>
       (\<exists>a b f. hm_get (mem_conns w) i = Some a \<and> hm_get (mem_conns w') i = Some b \<and> marked f a b)) \<and>
     (\<forall>i. hm_get (db_table w') i = None \<longleftrightarrow> hm_get (db_table w) i = None))"

lemma marked_trans': "marked f a b \<Longrightarrow> marked g b c \<Longrightarrow> marked g a c"
  by (auto simp: marked_def ops_simps)

lemma marked_proto: "marked f a b \<Longrightarrow> c_proto b = c_proto a"
  by (auto simp: marked_def ops_simps)

lemma same_conns_refl [simp]: "same_conns w w"
  by (simp add: same_conns_def)

lemma same_conns_trans:
  assumes "same_conns u v" and "same_conns v w"
  shows "same_conns u w"
proof -
  have "hm_get (mem_conns w) i = hm_get (mem_conns u) i \<or>
      (\<exists>a b f. hm_get (mem_conns u) i = Some a \<and> hm_get (mem_conns w) i = Some b \<and> marked f a b)" for i
  proof -
    from assms have "hm_get (mem_conns v) i = hm_get (mem_conns u) i \<or>
        (\<exists>a b f. hm_get (mem_conns u) i = Some a \<and> hm_get (mem_conns v) i = Some b \<and> marked f a b)"
      and "hm_get (mem_conns w) i = hm_get (mem_conns v) i \<or>
        (\<exists>a b f. hm_get (mem_conns v) i = Some a \<and> hm_get (mem_conns w) i = Some b \<and> marked f a b)"
      by (simp_all add: same_conns_def)
    then show ?thesis by (auto dest: marked_trans')
  qed
  with assms show ?thesis by (simp add: same_conns_def)
qed

lemma same_connsI:
  "mem_conns w' = mem_conns w \<Longrightarrow> db_table w' = db_table w \<Longrightarrow> same_conns w w'"
  by (simp add: same_conns_def)

lemma same_conns_back:
  assumes "same_conns w w'" and "hm_get (mem_conns w') i = Some b"
  obtains a where "hm_get (mem_conns w) i = Some a" "c_proto a = c_proto b"
proof -
  from assms have "hm_get (mem_conns w) i = Some b \<or> (\<exists>a f. hm_get (mem_conns w) i = Some a \<and> marked f a b)"
    unfolding same_conns_def by (metis option.inject)
  then show ?thesis using that marked_proto by metis
qed

lemma wg_inv_same:
  assumes "wg_inv w" and "same_conns w w'" and "hm_wf (mem_conns w)" and "hm_wf (mem_conns w')"
  shows "wg_inv w'"
proof -
  have "coherent w'"
    using assms(1,2) unfolding wg_inv_def coherent_def same_conns_def by (metis option.distinct(1))
  moreover have "conns_wg_ok (mem_conns w')"
    using assms(1,3) same_conns_back [OF assms(2)]
    by (auto simp: conns_wg_ok_iff assms(4) wg_inv_def) metis
  moreover have "wg_unique (mem_conns w')"
    unfolding wg_unique_def
  proof (intro allI impI)
    fix i j c d a
    assume "hm_get (mem_conns w') i = Some c" "hm_get (mem_conns w') j = Some d"
      and ips: "wg_ip c = Some a" "wg_ip d = Some a"
    then obtain c' d' where "hm_get (mem_conns w) i = Some c'" "c_proto c' = c_proto c"
        "hm_get (mem_conns w) j = Some d'" "c_proto d' = c_proto d"
      by (metis same_conns_back [OF assms(2)])
    with ips assms(1) show "i = j" by (auto simp: wg_inv_def wg_unique_def wg_ip_def)
  qed
  ultimately show ?thesis by (simp add: wg_inv_def)
qed

lemma srv_inv_same:
  assumes "srv_inv x w" and "api_inv x w'" and "same_conns w w'"
  shows "srv_inv x w'"
  using assms wg_inv_same [of w w'] by (auto simp: srv_inv_def api_inv_def conns_ok_def)

section \<open>Operations that set flags only\<close>

lemma same_conns_mark:
  assumes "mem_conns w' = hm_modify i (\<lambda>c. set_modified_at t (set_deleted b c)) (mem_conns w)"
    and "\<And>j. hm_get (db_table w') j = None \<longleftrightarrow> hm_get (db_table w) j = None"
  shows "same_conns w w'"
proof -
  have "\<exists>f. marked f c (set_modified_at t (set_deleted b c))" for c by (blast intro: markedI)
  then show ?thesis using assms by (cases "hm_get (mem_conns w) i") (auto simp: same_conns_def)
qed

lemma pg_conn_marks_dom:
  "hm_get (db_conns (snd (pg_conn_delete f i d))) j = None \<longleftrightarrow> hm_get (db_conns d) j = None"
  "hm_get (db_conns (snd (pg_conn_restore f i d))) j = None \<longleftrightarrow> hm_get (db_conns d) j = None"
  by (auto simp: pg_conn_delete_def pg_conn_restore_def)

lemma delete_same: "same_conns w (snd (delete_connection x i c w))"
proof (rule delete_cases [of w i x c])
  fix old e
  assume "w_mem (snd (delete_connection x i c w)) = w_mem w"
    "w_db (snd (delete_connection x i c w)) = snd (pg_conn_delete False i (w_db w))"
  then show ?thesis by (simp add: same_conns_def pg_conn_marks_dom)
next
  fix old
  assume "w_db (snd (delete_connection x i c w)) = snd (pg_conn_delete False i (w_db w))"
    "mem_conns (snd (delete_connection x i c w)) =
      hm_modify i (\<lambda>c. set_modified_at (x_clock x (w_tick w + 2)) (set_deleted True c)) (mem_conns w)"
  then show ?thesis by (intro same_conns_mark) (simp_all add: pg_conn_marks_dom)
qed (simp_all add: same_connsI)

lemma restore_task_same: "same_conns w (snd (restore_task x ic w))"
proof (cases ic)
  case (Pair i c)
  show ?thesis
    unfolding Pair
  proof (rule restore_task_elim [where x = x and i = i and c = c and w = w])
    fix old
    assume "w_db (snd (restore_task x (i, c) w)) = snd (pg_conn_restore False i (w_db w))"
      "mem_conns (snd (restore_task x (i, c) w)) =
        hm_modify i (\<lambda>c. set_modified_at (x_clock x (w_tick w + 2)) (set_deleted False c)) (mem_conns w)"
    then show "same_conns w (snd (restore_task x (i, c) w))"
      by (intro same_conns_mark) (simp_all add: pg_conn_marks_dom)
  qed (simp add: same_connsI)
qed

lemma fold_same: "(\<And>a w. same_conns w (f a w)) \<Longrightarrow> same_conns w (fold f as w)"
  by (induction "as" arbitrary: w) (auto intro: same_conns_trans)

lemma restore_by_subscription_same: "same_conns w (snd (restore_connections_by_subscription x s w))"
  unfolding restore_by_subscription_fold by (intro fold_same restore_task_same)

lemma update_sub_same: "same_conns w (snd (update_sub x i q w))"
  by (intro same_connsI) (simp_all add: update_sub_frame)

lemma add_sub_same: "same_conns w (snd (add_sub x s w))"
  by (intro same_connsI) (simp_all add: add_sub_frame)

lemma add_node_same: "same_conns w (snd (add_node x i n w))"
  by (intro same_connsI) (simp_all add: add_node_def split_beta split: sum.split)

lemma sync_node_status_same: "same_conns w (snd (sync_node_status x u e st w))"
  by (intro same_connsI) (simp_all add: sync_node_status_def split_beta split: sum.split option.split)

lemma publish_same: "same_conns w (snd (publish x t msg w))"
  by (intro same_connsI) (simp_all add: publish_def)

lemma key_same:
  "same_conns w (snd (run_db x (\<lambda>f t. pg_key_insert f k) w))"
  "same_conns w (snd (run_db x (\<lambda>f t. pg_key_activate f t k) w))"
  "same_conns w (snd (run_db x (\<lambda>f t d. (g f d, d)) w))"
  by (intro same_connsI; simp)+

lemma tick_same: "same_conns w (tick w)"
  by (intro same_connsI) simp_all

lemma add_days_same: "same_conns w (snd (add_days x i days w))"
proof (rule add_days_shape [of w x i days])
  fix v
  assume "mem_conns v = mem_conns w" "db_table v = db_table w"
    and s: "snd (add_days x i days w) = v \<or>
      snd (add_days x i days w) = snd (restore_connections_by_subscription x i v)"
  then have "same_conns w v" by (intro same_connsI)
  with s same_conns_trans [OF _ restore_by_subscription_same] show ?thesis by auto
qed

lemma delete_all_same: "same_conns w (delete_all x ics w)"
  unfolding delete_all_def by (rule fold_same) (simp add: delete_same split_beta)

lemma filter_subs_same: "same_conns w (snd (filter_subs x sel ss w))"
  by (rule same_connsI) (simp_all add: filter_subs_frame)

lemma rounds_same:
  "same_conns w (cleanup_expired_connections x w)" "same_conns w (cleanup_expired_subscriptions x w)"
  "same_conns w (restore_subscriptions x w)"
  unfolding cleanup_expired_connections_def cleanup_expired_subscriptions_def restore_subscriptions_def
    Let_def split_beta
  by (rule same_conns_trans [OF tick_same delete_all_same]
      same_conns_trans [OF filter_subs_same fold_same [OF delete_all_same]]
      same_conns_trans [OF filter_subs_same fold_same [OF restore_by_subscription_same]])+

section \<open>Creating connections\<close>

lemma add_conn_stored:
  "hm_get (db_table w) i = None \<Longrightarrow> \<not> x_db_fails x (w_tick w) \<Longrightarrow>
     mem_conns (snd (add_conn x i c w)) = snd (conns_add i c (mem_conns w)) \<and>
     db_table (snd (add_conn x i c w)) =
       hm_insert i (columns_of_row (x_v6_str x) (conn_row_of i c)) (db_table w)"
  by (simp add: add_conn_def split_beta pg_conn_insert_def conn_row_of_def)

lemma add_conn_refused:
  "hm_get (db_table w) i \<noteq> None \<or> x_db_fails x (w_tick w) \<Longrightarrow> snd (add_conn x i c w) = tick w \<and>
     (\<exists>e. fst (add_conn x i c w) = Err (SDatabase e))"
  by (auto simp: add_conn_def split_beta pg_conn_insert_def conn_row_of_def run_db_def)

definition fresh_conn :: "conn \<Rightarrow> conn connections \<Rightarrow> bool" where
  "fresh_conn c m = ((proto_tag_of (c_proto c) = Wireguard \<longrightarrow> proto_wireguard (c_proto c) \<noteq> None) \<and>
     (\<forall>a. wg_ip c = Some a \<longrightarrow> (\<forall>i d. hm_get m i = Some d \<longrightarrow> wg_ip d \<noteq> Some a)))"

lemma add_conn_srv:
  assumes inv: "srv_inv x w" and fresh: "fresh_conn c (mem_conns w)"
  shows "srv_inv x (snd (add_conn x i c w))"
proof -
  have api: "api_inv x (snd (add_conn x i c w))" using inv by (simp add: srv_inv_def add_conn_inv)
  show ?thesis
  proof (cases "hm_get (db_table w) i = None \<and> \<not> x_db_fails x (w_tick w)")
    case False
    with add_conn_refused [of w i x c] api show ?thesis
      by (intro srv_inv_same [OF inv]) (auto simp: tick_same)
  next
    case True
    note wg = srv_invD(2) [OF inv]
    from True wg have n: "hm_get (mem_conns w) i = None" by (simp add: wg_inv_def coherent_def)
    with True have m: "mem_conns (snd (add_conn x i c w)) = hm_insert i c (mem_conns w)"
      and d: "db_table (snd (add_conn x i c w)) =
        hm_insert i (columns_of_row (x_v6_str x) (conn_row_of i c)) (db_table w)"
      using add_conn_stored [of w i x c] by (simp_all add: conns_add_def)
    have "coherent (snd (add_conn x i c w))"
      using wg by (auto simp: wg_inv_def coherent_def m d)
    moreover have "conns_wg_ok (hm_insert i c (mem_conns w))"
      using wg fresh srv_inv_hm_wf [OF inv]
      by (auto simp: conns_wg_ok_iff fresh_conn_def wg_inv_def split: if_splits)
    moreover have "wg_unique (hm_insert i c (mem_conns w))"
      using wg fresh by (auto simp: wg_inv_def wg_unique_def fresh_conn_def split: if_splits)
    ultimately show ?thesis using api by (simp add: srv_inv_def wg_inv_def m)
  qed
qed

lemma new_proto_tick: "snd (new_proto x net tag w) = tick w"
  by (simp add: new_proto_def)

lemma new_proto_fresh:
  assumes "srv_inv x w" and "fst (new_proto x net tag w) = Inr p" and "c_proto c = p"
  shows "fresh_conn c (mem_conns w)"
proof (cases "tag = Wireguard")
  case True
  with assms(2) obtain ip where a: "alloc_wg net (mem_conns w) = Inr ip"
      and p: "p = ProtoWireguard \<lparr>keys = \<lparr>privkey = x_privkey x (w_tick w)\<rparr>,
        wg_address = \<lparr>address = V4 ip, cidr = 32\<rparr>\<rparr>"
    by (auto simp: new_proto_def split: sum.splits)
  from p assms(3) have "wg_ip c = Some ip" "proto_wireguard (c_proto c) \<noteq> None"
    by (simp_all add: wg_ip_def as_ipv4_def)
  note ip = a this
  have "hm_get (mem_conns w) i = Some d \<Longrightarrow> wg_ip d \<noteq> Some ip" for i d
    using alloc_wg_fresh [OF ip(1), of i d ip] srv_invD(2) [OF assms(1)]
    by (auto simp: wg_inv_def dest: map_of_SomeD)
  with ip show ?thesis by (simp add: fresh_conn_def)
next
  case False
  with assms(2,3) show ?thesis
    by (cases tag) (auto simp: new_proto_def fresh_conn_def wg_ip_def)
qed

section \<open>The handlers keep the invariant\<close>

lemma srv_intros:
  assumes "srv_inv x w"
  shows srv_tick: "srv_inv x (tick w)"
    and srv_publish: "srv_inv x (snd (publish x t msg w))"
    and srv_delete: "srv_inv x (snd (delete_connection x i c w))"
    and srv_add_sub: "srv_inv x (snd (add_sub x s w))"
    and srv_update_sub: "srv_inv x (snd (update_sub x i q w))"
    and srv_add_days: "srv_inv x (snd (add_days x i days w))"
    and srv_add_node: "srv_inv x (snd (add_node x i n w))"
    and srv_status: "srv_inv x (snd (sync_node_status x i e st w))"
    and srv_key_insert: "srv_inv x (snd (run_db x (\<lambda>f t. pg_key_insert f k) w))"
    and srv_key_activate: "srv_inv x (snd (run_db x (\<lambda>f t. pg_key_activate f t k) w))"
    and srv_rounds: "srv_inv x (cleanup_expired_connections x w)"
      "srv_inv x (cleanup_expired_subscriptions x w)" "srv_inv x (restore_subscriptions x w)"
  using srv_invD(1) [OF assms]
  by (auto intro!: srv_inv_same [OF assms] api_inv_tick api_inv_pub delete_connection_inv add_sub_inv
      update_sub_inv add_days_inv add_node_inv sync_node_status_inv api_inv_key rounds_inv tick_same
      publish_same delete_same add_sub_same update_sub_same add_days_same add_node_same
      sync_node_status_same key_same rounds_same)

lemma run_db_read: "snd (run_db x (\<lambda>f t d. (g f d, d)) w) = tick w"
  by (simp add: run_db_def)

lemma srv_read: "srv_inv x w \<Longrightarrow> srv_inv x (snd (run_db x (\<lambda>f t d. (g f d, d)) w))"
  unfolding run_db_read by (rule srv_tick)

lemma announce_srv: "srv_inv x w \<Longrightarrow> srv_inv x (snd (announce x i c w))"
  by (auto simp: announce_def split: option.split intro: srv_tick srv_publish)

text \<open>Drawing the parameters of a connection, two more events, storing and announcing it.\<close>

lemma store_new_srv:
  assumes "srv_inv x w" and "fst (new_proto x net tag w) = Inr p" and "c_proto c = p"
  shows "srv_inv x (snd (add_conn x i c (tick (tick (tick w)))))"
  using assms new_proto_fresh [OF assms] by (intro add_conn_srv srv_tick) simp_all

lemma create_connection_srv: "srv_inv x w \<Longrightarrow> srv_inv x (snd (create_connection_handler x req net w))"
  unfolding create_connection_handler_def Let_def
  by (auto simp: split_beta new_proto_tick conn_new_def
      split: option.split sum.split outcome.split status.split
      intro!: srv_tick announce_srv store_new_srv)

lemma delete_connection_handler_srv: "srv_inv x w \<Longrightarrow> srv_inv x (snd (delete_connection_handler x i w))"
  by (auto simp: delete_connection_handler_def split_beta split: option.split outcome.split status.split
      intro: srv_delete)

lemma get_connections_srv: "srv_inv x w \<Longrightarrow> srv_inv x (snd (get_connections_handler x req w))"
  by (auto simp: get_connections_handler_def split_beta Let_def split: sum.split intro: srv_publish)

lemma reward_srv: "srv_inv x w \<Longrightarrow> srv_inv x (snd (reward x i days w))"
  by (auto simp: reward_def split_beta split: option.split outcome.split intro: srv_add_days)

lemma post_subscription_srv:
  "srv_inv x w \<Longrightarrow> srv_inv x (snd (post_subscription_handler x req bonus codes w))"
  unfolding post_subscription_handler_def Let_def
  by (auto simp: split_beta split: option.split outcome.split status.split
      intro!: srv_tick srv_add_sub reward_srv)

lemma put_subscription_srv: "srv_inv x w \<Longrightarrow> srv_inv x (snd (put_subscription_handler x i req w))"
  by (auto simp: put_subscription_handler_def split_beta split: outcome.split status.split
      intro: srv_update_sub)

lemma key_handlers_srv:
  assumes "srv_inv x w"
  shows "srv_inv x (snd (get_key_validate_handler x k code secret w))"
    "srv_inv x (snd (post_key_handler x k days dist secret w))"
    "srv_inv x (snd (post_activate_key_handler x code sub_id w))"
  using assms
  by (auto simp: get_key_validate_handler_def post_key_handler_def post_activate_key_handler_def
      split_beta Let_def split: option.split outcome.split status.split sum.split
      intro!: srv_read srv_tick srv_key_insert srv_key_activate srv_add_days)

lemma post_node_srv: "srv_inv x w \<Longrightarrow> srv_inv x (snd (post_node_handler x req w))"
  by (auto simp: post_node_handler_def split_beta Let_def split: outcome.split status.split
      intro!: srv_tick srv_add_node srv_status)

lemma trial_conn_srv: "srv_inv x w \<Longrightarrow> srv_inv x (snd (trial_conn x net s et w))"
  unfolding trial_conn_def Let_def
  by (auto simp: split_beta new_proto_tick conn_new_def split: sum.split outcome.split status.split
      intro!: srv_tick announce_srv store_new_srv)

lemma trial_conns_srv: "srv_inv x w \<Longrightarrow> srv_inv x (snd (trial_conns x net s ets w))"
proof (induction ets arbitrary: w)
  case (Cons et ets)
  then show ?case using trial_conn_srv [OF Cons.prems, of net s et]
    by (auto simp: split_beta split: option.split)
qed simp

lemma save_trial_srv: "srv_inv x (fst ws) \<Longrightarrow> srv_inv x (fst (save_trial x m who s t r ws))"
  by (auto simp: save_trial_def split: option.split intro: srv_tick)

lemma post_trial_srv:
  "srv_inv x w \<Longrightarrow> srv_inv x (fst (snd (post_trial_handler x m cfg req (w, st))))"
  unfolding post_trial_handler_def Let_def
  by (auto simp: split_beta split: option.split outcome.split status.split
      intro!: srv_tick srv_add_sub reward_srv trial_conns_srv save_trial_srv)

section \<open>Reloading keeps the invariant\<close>

lemma row_core_wg:
  assumes "v6_laws vs vp"
    and "row_core (columns_of_row vs (conn_row_of i c)) = row_core (columns_of_row vs (conn_row_of i d))"
  shows "wg_ip c = wg_ip d"
proof -
  have inj: "mask_to_string vs a = mask_to_string vs b \<Longrightarrow> address a = address b" for a b
  proof -
    assume e: "mask_to_string vs a = mask_to_string vs b"
    have "split_once (CHR ''/'') (mask_to_string vs m) =
        Some (ip_to_string vs (address m), dec_string (unat (cidr m)))" for m
      by (simp add: mask_to_string_def split_once_append ip_no_slash [OF assms(1)])
    with e have "ip_to_string vs (address a) = ip_to_string vs (address b)"
      by (metis option.inject prod.inject)
    with ip_from_to [OF assms(1)] show "address a = address b" by (metis option.inject)
  qed
  from assms(2) have "map_option (\<lambda>w. mask_to_string vs (wg_address w)) (proto_wireguard (c_proto c)) =
      map_option (\<lambda>w. mask_to_string vs (wg_address w)) (proto_wireguard (c_proto d))"
    by (simp add: row_core_def columns_of_row_def conn_row_of_def)
  then show ?thesis
    by (cases "proto_wireguard (c_proto c)"; cases "proto_wireguard (c_proto d)")
       (auto simp: wg_ip_def as_ipv4_def dest: inj)
qed

lemma conn_of_row_wg:
  "conn_of_row r = Inr c \<Longrightarrow> proto_tag_of (c_proto c) = Wireguard \<Longrightarrow> proto_wireguard (c_proto c) \<noteq> None"
  by (auto simp: conn_of_row_def split: sum.splits proto_tag.splits option.splits)

lemma get_state_srv:
  assumes inv: "srv_inv x w" and ext: "ext_ok x"
  shows "srv_inv x (snd (get_state_from_db x w))"
proof (cases "get_state_from_db x w" rule: prod.exhaust)
  case (Pair r w')
  note laws = ext [unfolded ext_ok_def]
  note api = srv_invD(1) [OF inv]
  have api': "api_inv x w'" using get_state_inv [OF api laws] Pair by simp
  from Pair show ?thesis
  proof (cases rule: get_state_cases)
    case (failed e)
    then show ?thesis using Pair api' by (auto intro!: srv_inv_same [OF inv] same_connsI)
  next
    case (loaded ns cs ss rows)
    have p: "get_state_from_db x w = (Inr (), w')" and wf: "hm_wf (db_table w)"
      using Pair loaded api by (simp_all add: api_inv_def db_wf_def)
    note gets = get_state_conns [OF p wf] and dom = get_state_conns_dom [OF p wf]
    have coh: "coherent w'" using dom loaded(2) by (simp add: coherent_def)
    have ok: "conns_wg_ok (mem_conns w')"
      using gets by (auto simp: conns_wg_ok_iff dest: conn_of_row_wg)
    have old: "\<exists>d. hm_get (mem_conns w) i = Some d \<and> wg_ip d = wg_ip c"
      if c: "hm_get (mem_conns w') i = Some c" for i c
    proof -
      have "hm_get (mem_conns w) i \<noteq> None"
        using c dom [of i] srv_invD(2) [OF inv] by (auto simp: wg_inv_def coherent_def)
      then obtain d where d: "hm_get (mem_conns w) i = Some d" by auto
      have "conn_backed (x_v6_str x) (w_db w) i d" "conn_backed (x_v6_str x) (w_db w') i c"
        using d c api api' by (auto simp: api_inv_def dest: conns_okD(3))
      then have "row_core (columns_of_row (x_v6_str x) (conn_row_of i d)) =
          row_core (columns_of_row (x_v6_str x) (conn_row_of i c))"
        using loaded(2) by (auto simp: conn_backed_def split: option.splits)
      with d row_core_wg [OF laws] show ?thesis by blast
    qed
    have "wg_unique (mem_conns w')"
      unfolding wg_unique_def
    proof (intro allI impI)
      fix i j c d a
      assume "hm_get (mem_conns w') i = Some c" "hm_get (mem_conns w') j = Some d"
        "wg_ip c = Some a" "wg_ip d = Some a"
      with old [of i c] old [of j d] srv_invD(2) [OF inv] show "i = j"
        by (auto simp: wg_inv_def wg_unique_def)
    qed
    with coh ok api' Pair show ?thesis by (simp add: srv_inv_def wg_inv_def)
  qed
qed

section \<open>The server as its clients drive it\<close>

inductive srv_step :: "ext \<Rightarrow> codec \<Rightarrow> mail_ext \<Rightarrow> world \<times> email_store \<Rightarrow> world \<times> email_store \<Rightarrow> bool"
  for x k m where
  srv_create: "srv_step x k m (w, st) (snd (create_connection_handler x cq net w), st)"
| srv_remove: "srv_step x k m (w, st) (snd (delete_connection_handler x i w), st)"
| srv_sync: "srv_step x k m (w, st) (snd (get_connections_handler x ct w), st)"
| srv_post_sub: "srv_step x k m (w, st) (snd (post_subscription_handler x sq bonus codes w), st)"
| srv_put_sub: "srv_step x k m (w, st) (snd (put_subscription_handler x i sq w), st)"
| srv_validate: "srv_step x k m (w, st) (snd (get_key_validate_handler x k code secret w), st)"
| srv_post_key: "srv_step x k m (w, st) (snd (post_key_handler x k days dist secret w), st)"
| srv_activate: "srv_step x k m (w, st) (snd (post_activate_key_handler x code i w), st)"
| srv_trial: "srv_step x k m (w, st) (snd (post_trial_handler x m cfg tq (w, st)))"
| srv_node: "srv_step x k m (w, st) (snd (post_node_handler x nq w), st)"
| srv_cleanup_conns: "srv_step x k m (w, st) (cleanup_expired_connections x w, st)"
| srv_cleanup_subs: "srv_step x k m (w, st) (cleanup_expired_subscriptions x w, st)"
| srv_restore_subs: "srv_step x k m (w, st) (restore_subscriptions x w, st)"
| srv_reload: "srv_step x k m (w, st) (snd (get_state_from_db x w), st)"
| srv_time: "srv_step x k m (w, st) (tick w, st)"

lemma srv_step_inv: "ext_ok x \<Longrightarrow> srv_step x k m ws ws' \<Longrightarrow> srv_inv x (fst ws) \<Longrightarrow> srv_inv x (fst ws')"
  by (erule srv_step.cases)
     (auto intro: create_connection_srv delete_connection_handler_srv get_connections_srv
       post_subscription_srv put_subscription_srv key_handlers_srv post_trial_srv post_node_srv
       srv_rounds get_state_srv srv_tick)

interpretation srv: preserved "srv_step x k m" "\<lambda>ws. ext_ok x \<longrightarrow> srv_inv x (fst ws)" for x k m
  by unfold_locales (auto intro: srv_step_inv)

text \<open>The server starts by loading tables it wrote itself, in which no address is given twice.\<close>

definition srv_start :: "ext \<Rightarrow> world \<Rightarrow> bool" where
  "srv_start x w = (\<exists>d w0. api_start x d w0 \<and> get_state_from_db x w0 = (Inr (), w) \<and>
     wg_unique (mem_conns w))"

lemma srv_start_inv:
  assumes "srv_start x w" and "ext_ok x"
  shows "srv_inv x w"
proof -
  from assms(1) obtain d w0 where s: "api_start x d w0" and g: "get_state_from_db x w0 = (Inr (), w)"
      and u: "wg_unique (mem_conns w)"
    by (auto simp: srv_start_def)
  have wf: "hm_wf (db_table w0)" using s by (simp add: api_start_def db_wf_def)
  have "api_inv x w"
    using get_state_inv [OF api_start_inv [OF s]] assms(2) g by (simp add: ext_ok_def)
  moreover have "w_db w = w_db w0" using g by (cases rule: get_state_cases) auto
  then have "coherent w" using get_state_conns_dom [OF g wf] by (simp add: coherent_def)
  moreover have "conns_wg_ok (mem_conns w)"
    using get_state_conns [OF g wf] by (auto simp: conns_wg_ok_iff dest: conn_of_row_wg)
  ultimately show ?thesis using u by (simp add: srv_inv_def wg_inv_def)
qed

lemma srv_reach_inv:
  assumes "ext_ok x" and "srv_start x w0" and "(srv_step x k m)\<^sup>*\<^sup>* (w0, st0) (w, st)"
  shows "srv_inv x w"
  using srv.reach_inv [OF assms(3)] assms(1) srv_start_inv [OF assms(2,1)] by simp

end
