(* ===== verification/Backends.thy ===== *)
theory Backends
  imports ConnStore
begin

unbundle bit_operations_syntax

text \<open>
  What a node drives: Xray's gRPC API (\<open>proto/xray/{client,vless,vmess,shadowsocks,stats}.rs\<close>,
  \<open>bin/node/stats.rs\<close>) and the WireGuard interface (\<open>proto/wireguard.rs\<close>). A request that the
  back end accepts is recorded in the node's state; what the back ends answer, and whether they
  answer, is the parameter \<open>agent_ext\<close>, indexed by a counter of external events. The protobuf
  encodings of the requests are left out: a request is recorded with its fields.
\<close>

section \<open>The state of a node\<close>

datatype account =
    VlessAccount string string string
  | VmessAccount string
  | ShadowsocksAccount string string bool

record user =
  us_level :: nat
  us_email :: string
  us_account :: account

datatype operation = AddUser user | RemoveUser string

record wg_peer =
  wp_allowed_ips :: "ip_addr_mask list"
  wp_rx_bytes :: u64
  wp_tx_bytes :: u64

datatype node_call =
    AlterInbound string operation
  | GetStats string bool
  | GetStatsOnline string bool
  | ConfigurePeer "u8 list" ip_addr_mask
  | RemovePeer "u8 list"

record agent_ext =
  ne_clock :: "nat \<Rightarrow> datetime"
  ne_fails :: "nat \<Rightarrow> bool"
  ne_peers :: "nat \<Rightarrow> (u8 list \<times> wg_peer) list option"
  ne_stat_value :: "nat \<Rightarrow> string \<Rightarrow> int option"
  ne_users_count :: "nat \<Rightarrow> proto_tag \<Rightarrow> int option"
  ne_from_timestamp :: "int \<Rightarrow> nat \<Rightarrow> datetime option"
  ne_b64_decode :: "string \<Rightarrow> string + u8 list"
  ne_b64_encode :: "u8 list \<Rightarrow> string"
  ne_x25519 :: "u8 list \<Rightarrow> u8 list"
  ne_uuid_str :: "uuid \<Rightarrow> string"
  ne_err_str :: "error \<Rightarrow> string"
  ne_has_xray :: bool
  ne_has_stats :: bool
  ne_has_wg :: bool

record node_state =
  ns_mem :: "base connections"
  ns_calls :: "node_call list"
  ns_tick :: nat

text \<open>A call to Xray or to the WireGuard interface is recorded when it succeeds.\<close>

definition ext_call :: "agent_ext \<Rightarrow> node_call \<Rightarrow> error \<Rightarrow> node_state \<Rightarrow> (error + unit) \<times> node_state" where
  "ext_call x call e s =
    (if ne_fails x (ns_tick s) then (Inl e, s\<lparr>ns_tick := Suc (ns_tick s)\<rparr>)
     else (Inr (), s\<lparr>ns_calls := ns_calls s @ [call], ns_tick := Suc (ns_tick s)\<rparr>))"

lemma ext_call_simps [simp]:
  "ns_mem (snd (ext_call x c e s)) = ns_mem s"
  "ns_tick (snd (ext_call x c e s)) = Suc (ns_tick s)"
  "ns_calls (snd (ext_call x c e s)) = (if ne_fails x (ns_tick s) then ns_calls s else ns_calls s @ [c])"
  "fst (ext_call x c e s) = (if ne_fails x (ns_tick s) then Inl e else Inr ())"
  by (simp_all add: ext_call_def)

section \<open>Users of Xray\<close>

datatype conn_flow = Vision | Direct | NoFlow

fun flow_to_string :: "conn_flow \<Rightarrow> string" where
  "flow_to_string Vision = ''xtls-rprx-vision''"
| "flow_to_string Direct = ''xtls-rprx-direct''"
| "flow_to_string NoFlow = ''''"

text \<open>The three \<open>ConnInfo\<close> types with the fields their constructors set.\<close>

datatype conn_info =
    VlessInfo (ci_uuid: uuid) proto_tag (ci_level: nat) (ci_email: string) "string option" conn_flow
  | VmessInfo (ci_uuid: uuid) proto_tag (ci_level: nat) (ci_email: string)
  | SsInfo (ci_uuid: uuid) string proto_tag (ci_level: nat) (ci_email: string) "string option"

definition pony_email :: "agent_ext \<Rightarrow> uuid \<Rightarrow> string" where
  "pony_email x i = ne_uuid_str x i @ ''@pony''"

definition vless_new :: "agent_ext \<Rightarrow> uuid \<Rightarrow> conn_flow \<Rightarrow> proto_tag \<Rightarrow> conn_info" where
  "vless_new x i flow tag = VlessInfo i tag 0 (pony_email x i) (Some ''none'') flow"

definition vmess_new :: "agent_ext \<Rightarrow> uuid \<Rightarrow> conn_info" where
  "vmess_new x i = VmessInfo i Vmess 0 (pony_email x i)"

definition ss_new :: "agent_ext \<Rightarrow> uuid \<Rightarrow> string option \<Rightarrow> conn_info" where
  "ss_new x i password = SsInfo i ''chacha20-ietf-poly1305'' Shadowsocks 0 (pony_email x i) password"

fun ci_tag :: "conn_info \<Rightarrow> proto_tag" where
  "ci_tag (VlessInfo _ tag _ _ _ _) = tag"
| "ci_tag (VmessInfo _ tag _ _) = tag"
| "ci_tag (SsInfo _ _ tag _ _ _) = tag"

text \<open>\<open>to_user\<close>; \<open>Err\<close> carries the text of the boxed error. The cipher type of a Shadowsocks
  account is kept under its name.\<close>

fun to_user :: "agent_ext \<Rightarrow> conn_info \<Rightarrow> (string, user) outcome" where
  "to_user x (VlessInfo i tag level email encryption flow) =
     Ret \<lparr>us_level = level, us_email = email, us_account = VlessAccount (ne_uuid_str x i) (flow_to_string flow)
       (case encryption of Some e \<Rightarrow> e | None \<Rightarrow> ''none'')\<rparr>"
| "to_user x (VmessInfo i tag level email) =
     Ret \<lparr>us_level = level, us_email = email, us_account = VmessAccount (ne_uuid_str x i)\<rparr>"
| "to_user x (SsInfo i cipher tag level email password) =
     (if cipher \<notin> {''aes-128-gcm'', ''aes-256-gcm'', ''chacha20-ietf-poly1305''}
      then Err ''Unsupported cipher type''
      else (case password of
          None \<Rightarrow> Err ''Missing password''
        | Some p \<Rightarrow> Ret \<lparr>us_level = level, us_email = email, us_account = ShadowsocksAccount p cipher False\<rparr>))"

text \<open>\<open>ProtocolConn::create\<close> and \<open>remove\<close>. The user is built with \<open>expect\<close>, which would panic.\<close>

definition info_create :: "agent_ext \<Rightarrow> conn_info \<Rightarrow> node_state \<Rightarrow> (error, unit) outcome \<times> node_state" where
  "info_create x ci s = (case to_user x ci of
      Ret u \<Rightarrow> (case ext_call x (AlterInbound (tag_to_string (ci_tag ci)) (AddUser u)) Grpc s of
          (Inl e, s) \<Rightarrow> (Err e, s)
        | (Inr _, s) \<Rightarrow> (Ret (), s))
    | _ \<Rightarrow> (Panic, s))"

definition info_remove :: "agent_ext \<Rightarrow> conn_info \<Rightarrow> node_state \<Rightarrow> (error + unit) \<times> node_state" where
  "info_remove x ci s =
     ext_call x (AlterInbound (tag_to_string (ci_tag ci)) (RemoveUser (ci_email ci))) Grpc s"

text \<open>\<open>HandlerActions\<close>: the user of each protocol; \<open>remove\<close> ignores what Xray answers.\<close>

definition xray_info :: "agent_ext \<Rightarrow> uuid \<Rightarrow> proto_tag \<Rightarrow> string option \<Rightarrow> string \<Rightarrow> error + conn_info" where
  "xray_info x i tag password what = (case tag of
      VlessTcpReality \<Rightarrow> Inr (vless_new x i Vision tag)
    | VlessGrpcReality \<Rightarrow> Inr (vless_new x i Direct tag)
    | VlessXhttpReality \<Rightarrow> Inr (vless_new x i NoFlow tag)
    | Vmess \<Rightarrow> Inr (vmess_new x i)
    | Shadowsocks \<Rightarrow> (case password of
        Some p \<Rightarrow> Inr (ss_new x i (Some p))
      | None \<Rightarrow> Inl (Custom (what @ '' SS user error, password not provided'')))
    | _ \<Rightarrow> Inl (Custom ''Not supported Proto''))"

definition xray_create :: "agent_ext \<Rightarrow> uuid \<Rightarrow> proto_tag \<Rightarrow> string option \<Rightarrow> node_state \<Rightarrow>
    (error, unit) outcome \<times> node_state" where
  "xray_create x i tag password s = (case xray_info x i tag password ''Create'' of
      Inl e \<Rightarrow> (Err e, s)
    | Inr ci \<Rightarrow> info_create x ci s)"

definition xray_remove :: "agent_ext \<Rightarrow> uuid \<Rightarrow> proto_tag \<Rightarrow> string option \<Rightarrow> node_state \<Rightarrow>
    (error, unit) outcome \<times> node_state" where
  "xray_remove x i tag password s = (case xray_info x i tag password ''Remove'' of
      Inl e \<Rightarrow> (Err e, s)
    | Inr ci \<Rightarrow> (Ret (), snd (info_remove x ci s)))"

text \<open>Every user that is built can be encoded, so creating one never panics.\<close>

lemma to_user_ok:
  assumes "xray_info x i tag pw what = Inr ci"
  obtains u where "to_user x ci = Ret u" "us_email u = pony_email x i" "ci_email ci = pony_email x i"
    "ci_tag ci = tag"
  using assms by (auto simp: xray_info_def vless_new_def vmess_new_def ss_new_def
      split: proto_tag.splits option.splits)

lemma xray_create_cases:
  obtains (refused) e where "xray_create x i tag pw s = (Err e, s)"
  | (sent) u where "us_email u = pony_email x i"
      "xray_create x i tag pw s = (if ne_fails x (ns_tick s) then Err Grpc else Ret (),
         snd (ext_call x (AlterInbound (tag_to_string tag) (AddUser u)) Grpc s))"
proof (cases "xray_info x i tag pw ''Create''")
  case (Inl e)
  then show ?thesis by (intro refused) (simp add: xray_create_def)
next
  case (Inr ci)
  then obtain u where "to_user x ci = Ret u" "us_email u = pony_email x i" "ci_tag ci = tag"
    by (rule to_user_ok)
  with Inr show ?thesis
    by (cases "ne_fails x (ns_tick s)", intro sent)
       (simp_all add: xray_create_def info_create_def ext_call_def sent)
qed

lemma xray_frame [simp]:
  "ns_mem (snd (xray_create x i tag pw s)) = ns_mem s"
  "ns_mem (snd (xray_remove x i tag pw s)) = ns_mem s"
proof -
  show "ns_mem (snd (xray_create x i tag pw s)) = ns_mem s"
    by (rule xray_create_cases [of x i tag pw s]) simp_all
  show "ns_mem (snd (xray_remove x i tag pw s)) = ns_mem s"
    by (simp add: xray_remove_def info_remove_def split: sum.split)
qed

section \<open>Statistics\<close>

datatype prefix = ConnPrefix uuid | InboundPrefix proto_tag

fun as_tag :: "prefix \<Rightarrow> proto_tag option" where
  "as_tag (InboundPrefix tag) = Some tag"
| "as_tag (ConnPrefix _) = None"

definition base_name :: "agent_ext \<Rightarrow> prefix \<Rightarrow> string" where
  "base_name x p = (case p of
      InboundPrefix tag \<Rightarrow> ''inbound>>>'' @ tag_to_string tag
    | ConnPrefix i \<Rightarrow> ''user>>>'' @ pony_email x i)"

definition stat_name :: "agent_ext \<Rightarrow> prefix \<Rightarrow> stat \<Rightarrow> string option" where
  "stat_name x p st =
    (if st \<in> {ConnStat Downlink, ConnStat Uplink, InboundStat Downlink, InboundStat Uplink}
     then Some (base_name x p @ ''>>>traffic>>>'' @ stat_to_string st)
     else if st = ConnStat OnlineKind then Some (base_name x p @ ''>>>'' @ stat_to_string st)
     else None)"

text \<open>\<open>stat\<close> answers with the optional value Xray has under the name; errors carry their status
  text.\<close>

definition get_stat :: "agent_ext \<Rightarrow> prefix \<Rightarrow> stat \<Rightarrow> bool \<Rightarrow> node_state \<Rightarrow> (string + int option) \<times> node_state" where
  "get_stat x p st reset s =
    (if \<not> ne_has_stats x then (Inl (''Xray Stats client doesn'' @ [CHR 0x27] @ ''t exist''), s)
     else (case stat_name x p st of
        None \<Rightarrow> (Inl ''Unsupported stat type'', s)
      | Some name \<Rightarrow>
         (case ext_call x (if st = ConnStat OnlineKind then GetStatsOnline name reset
               else GetStats name reset) Grpc s of
            (Inl e, s) \<Rightarrow> (Inl (''Stat request failed: '' @ ne_err_str x e), s)
          | (Inr _, s') \<Rightarrow> (Inr (ne_stat_value x (ns_tick s) name), s'))))"

definition reset_stats :: "agent_ext \<Rightarrow> uuid \<Rightarrow> node_state \<Rightarrow> (string + unit) \<times> node_state" where
  "reset_stats x i s =
    (let (_, s) = get_stat x (ConnPrefix i) (ConnStat Downlink) True s;
         (_, s) = get_stat x (ConnPrefix i) (ConnStat Uplink) True s;
         (_, s) = get_stat x (ConnPrefix i) (ConnStat OnlineKind) True s
     in (Inr (), s))"

definition value_or_0 :: "string + int option \<Rightarrow> int" where
  "value_or_0 r = (case r of Inr (Some v) \<Rightarrow> v | _ \<Rightarrow> 0)"

record conn_stat =
  cs_online :: int
  cs_downlink :: int
  cs_uplink :: int

definition conn_stats :: "agent_ext \<Rightarrow> prefix \<Rightarrow> node_state \<Rightarrow> conn_stat \<times> node_state" where
  "conn_stats x p s =
    (let (down, s) = get_stat x p (ConnStat Downlink) False s;
         (up, s) = get_stat x p (ConnStat Uplink) False s;
         (online, s) = get_stat x p (ConnStat OnlineKind) False s
     in (\<lparr>cs_online = value_or_0 online, cs_downlink = value_or_0 down, cs_uplink = value_or_0 up\<rparr>, s))"

text \<open>The counter of an inbound's users is read from the handler client; the outer \<open>None\<close> is an
  error.\<close>

definition conn_count :: "agent_ext \<Rightarrow> proto_tag \<Rightarrow> node_state \<Rightarrow> int option option \<times> node_state" where
  "conn_count x tag s =
    (if \<not> ne_has_xray x then (None, s)
     else (map_option Some (ne_users_count x (ns_tick s) tag), s\<lparr>ns_tick := Suc (ns_tick s)\<rparr>))"

record in_stat =
  in_downlink :: int
  in_uplink :: int
  in_conn_count :: int

definition inbound_stats :: "agent_ext \<Rightarrow> prefix \<Rightarrow> node_state \<Rightarrow> (string, in_stat) outcome \<times> node_state" where
  "inbound_stats x p s = (case as_tag p of
      None \<Rightarrow> (Panic, s)
    | Some tag \<Rightarrow>
       (let (down, s) = get_stat x p (InboundStat Downlink) False s;
            (up, s) = get_stat x p (InboundStat Uplink) False s;
            (count, s) = conn_count x tag s
        in (case (down, up, count) of
              (Inr _, Inr _, Some c) \<Rightarrow> Ret \<lparr>in_downlink = value_or_0 down, in_uplink = value_or_0 up,
                 in_conn_count = (case c of Some n \<Rightarrow> n | None \<Rightarrow> 0)\<rparr>
            | _ \<Rightarrow> Err ''Failed to fetch inbound stats'', s)))"

lemma stats_frame [simp]:
  "ns_mem (snd (get_stat x p st r s)) = ns_mem s"
  "ns_mem (snd (reset_stats x i s)) = ns_mem s"
  "ns_mem (snd (conn_stats x p s)) = ns_mem s"
  "ns_mem (snd (conn_count x tag s)) = ns_mem s"
  "ns_mem (snd (inbound_stats x p s)) = ns_mem s"
proof -
  have g: "ns_mem (snd (get_stat x p st r s)) = ns_mem s" for p st r s
    by (auto simp: get_stat_def ext_call_def split: option.split)
  have c: "ns_mem (snd (conn_count x tag s)) = ns_mem s" for tag s by (simp add: conn_count_def)
  show "ns_mem (snd (get_stat x p st r s)) = ns_mem s" by (rule g)
  show "ns_mem (snd (conn_count x tag s)) = ns_mem s" by (rule c)
  show "ns_mem (snd (reset_stats x i s)) = ns_mem s" "ns_mem (snd (conn_stats x p s)) = ns_mem s"
    by (simp_all add: reset_stats_def conn_stats_def split_beta g)
  show "ns_mem (snd (inbound_stats x p s)) = ns_mem s"
    by (simp add: inbound_stats_def split_beta Let_def g c split: option.split)
qed

section \<open>The WireGuard interface\<close>

definition decode_pubkey :: "agent_ext \<Rightarrow> string \<Rightarrow> error + u8 list" where
  "decode_pubkey x key = (case ne_b64_decode x key of
      Inl e \<Rightarrow> Inl (Custom (''Failed to decode pubkey: '' @ e))
    | Inr bytes \<Rightarrow>
        if length bytes \<noteq> 32
        then Inl (Custom (''Invalid WireGuard public key length: '' @ dec_string (length bytes)))
        else Inr bytes)"

definition wg_create :: "agent_ext \<Rightarrow> string \<Rightarrow> ip_addr_mask \<Rightarrow> node_state \<Rightarrow> (error + unit) \<times> node_state" where
  "wg_create x key ip s = (case decode_pubkey x key of
      Inl e \<Rightarrow> (Inl e, s)
    | Inr k \<Rightarrow> ext_call x (ConfigurePeer k ip) WireguardInterface s)"

definition wg_delete :: "agent_ext \<Rightarrow> string \<Rightarrow> node_state \<Rightarrow> (error + unit) \<times> node_state" where
  "wg_delete x key s = (case decode_pubkey x key of
      Inl e \<Rightarrow> (Inl e, s)
    | Inr k \<Rightarrow> ext_call x (RemovePeer k) WireguardInterface s)"

text \<open>Reading the interface is an external event with no effect on the node.\<close>

definition wg_is_exist :: "agent_ext \<Rightarrow> string \<Rightarrow> node_state \<Rightarrow> bool" where
  "wg_is_exist x key s = (case decode_pubkey x key of
      Inl _ \<Rightarrow> False
    | Inr k \<Rightarrow> (case ne_peers x (ns_tick s) of
        None \<Rightarrow> False
      | Some peers \<Rightarrow> map_of peers k \<noteq> None))"

definition peer_stats :: "agent_ext \<Rightarrow> string \<Rightarrow> node_state \<Rightarrow> error + int \<times> int" where
  "peer_stats x key s = (case ne_peers x (ns_tick s) of
      None \<Rightarrow> Inl WireguardInterface
    | Some peers \<Rightarrow> (case decode_pubkey x key of
        Inl e \<Rightarrow> Inl e
      | Inr k \<Rightarrow> (case map_of peers k of
          None \<Rightarrow> Inl (Custom (''Peer with pubkey '' @ key @ '' not found''))
        | Some p \<Rightarrow> Inr (sint (wp_rx_bytes p), sint (wp_tx_bytes p)))))"

text \<open>The /32 addresses of the peers.\<close>

definition peer_ips :: "(u8 list \<times> wg_peer) list \<Rightarrow> u32 list" where
  "peer_ips peers = List.map_filter (\<lambda>m. case address m of
      V4 ip \<Rightarrow> if cidr m = 32 then Some ip else None
    | V6 _ \<Rightarrow> None) (concat (map (wp_allowed_ips \<circ> snd) peers))"

definition last_ip :: "(u8 list \<times> wg_peer) list option \<Rightarrow> error + u32" where
  "last_ip data = (case data of
      None \<Rightarrow> Inl WireguardInterface
    | Some peers \<Rightarrow> (case rev (sort (peer_ips peers)) of
        [] \<Rightarrow> Inl (Custom ''No /32 IPs found in peers'')
      | ip # _ \<Rightarrow> Inr ip))"

text \<open>\<open>1u32 << (32 - cidr)\<close> as a release build computes it: the difference wraps at eight bits and
  the shift distance is taken modulo 32.\<close>

definition shift_mask :: "u8 \<Rightarrow> u32" where
  "shift_mask c = NOT (push_bit (unat ((32 - c) AND 31)) 1 - 1)"

definition next_available_ip_mask ::
    "ip_addr_mask \<Rightarrow> u32 \<Rightarrow> (u8 list \<times> wg_peer) list option \<Rightarrow> error + ip_addr_mask" where
  "next_available_ip_mask net interface_ip data = (case address net of
      V6 _ \<Rightarrow> Inl (Custom ''Only IPv4 networks are supported'')
    | V4 base_ip \<Rightarrow>
       (let netmask = shift_mask (cidr net);
            network_addr = base_ip AND netmask;
            broadcast_addr = network_addr OR NOT netmask
        in (case data of
            None \<Rightarrow> Inl WireguardInterface
          | Some peers \<Rightarrow>
             (case List.find (\<lambda>ip. ip \<notin> set (interface_ip # peer_ips peers))
                  (map of_nat [unat (network_addr + 1) ..< unat (broadcast_addr - 1)]) of
                Some ip \<Rightarrow> Inr \<lparr>address = V4 ip, cidr = 32\<rparr>
              | None \<Rightarrow> Inl (Custom ''No available IPs in the subnet'')))))"

lemma wg_frame [simp]:
  "ns_mem (snd (wg_create x k ip s)) = ns_mem s" "ns_mem (snd (wg_delete x k s)) = ns_mem s"
  by (simp_all add: wg_create_def wg_delete_def split: sum.split)

end
