(* ===== verification/Agents.thy ===== *)
theory Agents
  imports Backends
begin

text \<open>
  The two subscribers of the message bus: the authentication service (\<open>bin/auth/{tasks,handlers}.rs\<close>)
  and the node (\<open>bin/node/{tasks,snapshot}.rs\<close>, with the Xray and WireGuard clients of
  \<open>proto/xray/client.rs\<close> and \<open>proto/wireguard.rs\<close>). Both filter by topic and apply batches of
  messages to a store of connections; the node also drives Xray and the WireGuard interface, whose
  answers are parameters and whose calls are recorded. What the two have in common is the locale
  \<open>subscriber\<close>.
\<close>

section \<open>Topic filters\<close>

fun auth_accepts :: "uuid \<Rightarrow> topic \<Rightarrow> bool" where
  "auth_accepts me AuthTopic = True"
| "auth_accepts me MetricsTopic = False"
| "auth_accepts me (Updates _) = False"
| "auth_accepts me (Init u) = (u = me)"

fun node_accepts :: "uuid \<Rightarrow> env \<Rightarrow> topic \<Rightarrow> bool" where
  "node_accepts me e AuthTopic = False"
| "node_accepts me e MetricsTopic = False"
| "node_accepts me e (Init u) = (u = me)"
| "node_accepts me e (Updates e') = (e' = e)"

section \<open>The authentication service\<close>

text \<open>\<open>msg.expires_at.map(Into::into)\<close>: the outer \<open>None\<close> is a panic.\<close>

definition msg_expires :: "(int \<Rightarrow> nat \<Rightarrow> datetime option) \<Rightarrow> message \<Rightarrow> datetime option option" where
  "msg_expires from_timestamp msg = (case m_expires_at msg of
      None \<Rightarrow> Some None
    | Some r \<Rightarrow> map_option Some (datetime_of_rkyv from_timestamp r))"

definition auth_apply :: "(int \<Rightarrow> nat \<Rightarrow> datetime option) \<Rightarrow> datetime \<Rightarrow> message \<Rightarrow> base connections \<Rightarrow>
    (error, unit) outcome \<times> base connections" where
  "auth_apply from_timestamp now msg mem =
    (let add = (case m_token msg of
         None \<Rightarrow> (Ret (), mem)
       | Some token \<Rightarrow> (case msg_expires from_timestamp msg of
           None \<Rightarrow> (Panic, mem)
         | Some ex \<Rightarrow> (Ret (), snd (conns_add (m_conn_id msg)
             (base_new now (ProtoHysteria2 token) ex (m_subscription_id msg)) mem))))
     in case m_action msg of
       Create \<Rightarrow> add
     | Update \<Rightarrow> add
     | Delete \<Rightarrow> (Ret (), snd (conns_remove (m_conn_id msg) mem))
     | ResetStat \<Rightarrow> (Ret (), mem))"

text \<open>The loop over a batch ends at the first error; \<open>clock\<close> gives the time of each round.\<close>

fun auth_batch :: "(int \<Rightarrow> nat \<Rightarrow> datetime option) \<Rightarrow> (nat \<Rightarrow> datetime) \<Rightarrow> message list \<Rightarrow> base connections \<Rightarrow>
    (error, unit) outcome \<times> base connections" where
  "auth_batch ft clock [] mem = (Ret (), mem)"
| "auth_batch ft clock (msg # msgs) mem = (case auth_apply ft (clock 0) msg mem of
     (Ret _, mem) \<Rightarrow> auth_batch ft (\<lambda>n. clock (Suc n)) msgs mem
   | r \<Rightarrow> r)"

text \<open>One round of \<open>run_subscriber\<close>: the topic is parsed and filtered, an undecodable payload is
  dropped, an error of the batch is logged.\<close>

definition auth_receive :: "(string \<Rightarrow> uuid option) \<Rightarrow> (int \<Rightarrow> nat \<Rightarrow> datetime option) \<Rightarrow> (nat \<Rightarrow> datetime) \<Rightarrow>
    uuid \<Rightarrow> string \<times> message list option \<Rightarrow> base connections \<Rightarrow> base connections" where
  "auth_receive uuid_parse ft clock me tp mem = (case tp of (topic_str, payload) \<Rightarrow>
     (case topic_from_str uuid_parse topic_str of
        Inl _ \<Rightarrow> mem
      | Inr t \<Rightarrow>
          if \<not> auth_accepts me t then mem
          else (case payload of None \<Rightarrow> mem | Some msgs \<Rightarrow> snd (auth_batch ft clock msgs mem))))"

definition auth_handler :: "uuid \<Rightarrow> base connections \<Rightarrow> bool \<times> uuid option" where
  "auth_handler token mem = (case validate_token b_proto token mem of
      Some i \<Rightarrow> (True, Some i)
    | None \<Rightarrow> (False, None))"

section \<open>The node\<close>

definition wg_pubkey :: "agent_ext \<Rightarrow> wg_param \<Rightarrow> error + string" where
  "wg_pubkey x wg = pubkey (ne_b64_decode x) (ne_b64_encode x) (ne_x25519 x) (keys wg)"

definition base_of_msg :: "agent_ext \<Rightarrow> proto \<Rightarrow> message \<Rightarrow> node_state \<Rightarrow> base option" where
  "base_of_msg x p msg s = (case msg_expires (ne_from_timestamp x) msg of
      None \<Rightarrow> None
    | Some ex \<Rightarrow> Some (base_new (ne_clock x (ns_tick s)) p ex (m_subscription_id msg)))"

abbreviation add_mem :: "uuid \<Rightarrow> base \<Rightarrow> node_state \<Rightarrow> node_state" where
  "add_mem i c s \<equiv> s\<lparr>ns_mem := snd (conns_add i c (ns_mem s))\<rparr>"

definition unsupported :: error where
  "unsupported = Custom ''Is not supported, or built without support the proto''"

text \<open>\<open>handle_message\<close>, by action and protocol, in a build with both back ends. WireGuard is added
  to memory first and to the interface afterwards, Xray the other way round.\<close>

definition handle_wg_create :: "agent_ext \<Rightarrow> message \<Rightarrow> node_state \<Rightarrow> (error, unit) outcome \<times> node_state" where
  "handle_wg_create x msg s = (case m_wg msg of
      None \<Rightarrow> (Err (Custom ''Missing WireGuard keys''), s)
    | Some wg \<Rightarrow> (case base_of_msg x (ProtoWireguard wg) msg s of
        None \<Rightarrow> (Panic, s)
      | Some c \<Rightarrow>
          (let s = add_mem (m_conn_id msg) c s in
           if \<not> ne_has_wg x then (Err (Custom ''WireGuard API is unavailable''), s)
           else (case wg_pubkey x wg of
               Inl _ \<Rightarrow> (Ret (), s)
             | Inr pk \<Rightarrow>
                 if wg_is_exist x pk s then (Err (Custom ''WG User already exist''), s)
                 else (case wg_create x pk (wg_address wg) s of
                     (Inl e, s) \<Rightarrow> (Err (Custom (''Failed to create WireGuard peer: '' @ ne_err_str x e)), s)
                   | (Inr _, s) \<Rightarrow> (Ret (), s))))))"

definition handle_xray_create :: "agent_ext \<Rightarrow> proto \<Rightarrow> string option \<Rightarrow> message \<Rightarrow> node_state \<Rightarrow>
    (error, unit) outcome \<times> node_state" where
  "handle_xray_create x p password msg s = (case base_of_msg x p msg s of
      None \<Rightarrow> (Panic, s)
    | Some c \<Rightarrow>
        if \<not> ne_has_xray x then (Err Grpc, s)
        else (case xray_create x (m_conn_id msg) (m_tag msg) password s of
            (Err e, s) \<Rightarrow> (Err (Custom (''Failed to create conn '' @ ne_uuid_str x (m_conn_id msg) @ '': '' @
               ne_err_str x e)), s)
          | (Panic, s) \<Rightarrow> (Panic, s)
          | (Ret _, s) \<Rightarrow> (Ret (), add_mem (m_conn_id msg) c s)))"

definition handle_wg_delete :: "agent_ext \<Rightarrow> message \<Rightarrow> node_state \<Rightarrow> (error, unit) outcome \<times> node_state" where
  "handle_wg_delete x msg s =
    (if \<not> ne_has_wg x then (Err (Custom ''WireGuard API is unavailable''), s)
     else (case m_wg msg of
        None \<Rightarrow> (Err (Custom ''Missing WireGuard keys in message''), s)
      | Some wg \<Rightarrow> (case wg_pubkey x wg of
          Inl e \<Rightarrow> (Err e, s)
        | Inr pk \<Rightarrow> (case wg_delete x pk s of
            (Inl e, s) \<Rightarrow> (Err (Custom (''Failed to delete WireGuard peer: '' @ ne_err_str x e)), s)
          | (Inr _, s) \<Rightarrow> (Ret (), s\<lparr>ns_mem := snd (conns_remove (m_conn_id msg) (ns_mem s))\<rparr>)))))"

definition handle_xray_delete :: "agent_ext \<Rightarrow> message \<Rightarrow> node_state \<Rightarrow> (error, unit) outcome \<times> node_state" where
  "handle_xray_delete x msg s =
    (if \<not> ne_has_xray x then (Err Grpc, s)
     else (case xray_remove x (m_conn_id msg) (m_tag msg) (m_password msg) s of
        (Err e, s) \<Rightarrow> (Err (Custom (''Couldn'' @ [CHR 0x27] @ ''t remove connection from Xray: '' @
           ne_err_str x e)), s)
      | (Panic, s) \<Rightarrow> (Panic, s)
      | (Ret _, s) \<Rightarrow> (Ret (), s\<lparr>ns_mem := snd (conns_remove (m_conn_id msg) (ns_mem s))\<rparr>)))"

definition handle_message :: "agent_ext \<Rightarrow> message \<Rightarrow> node_state \<Rightarrow> (error, unit) outcome \<times> node_state" where
  "handle_message x msg s =
    (if m_action msg = Create \<or> m_action msg = Update then
       (if m_tag msg = Wireguard then handle_wg_create x msg s
        else if is_xray_tag (m_tag msg) then handle_xray_create x (ProtoXray (m_tag msg)) None msg s
        else if m_tag msg = Shadowsocks then (case m_password msg of
            Some pw \<Rightarrow> handle_xray_create x (ProtoShadowsocks pw) (Some pw) msg s
          | None \<Rightarrow> (Err (Custom ''Password not provided for Shadowsocks user''), s))
        else (Err unsupported, s))
     else if m_action msg = Delete then
       (if m_tag msg = Wireguard then handle_wg_delete x msg s
        else if is_xray_tag (m_tag msg) \<or> m_tag msg = Shadowsocks then handle_xray_delete x msg s
        else (Err unsupported, s))
     else (case reset_stats x (m_conn_id msg) s of
         (Inl e, s) \<Rightarrow> (Err (Custom (''Couldn'' @ [CHR 0x27] @ ''t reset stat: '' @ e)), s)
       | (Inr _, s) \<Rightarrow> (Ret (), s)))"

text \<open>\<open>try_join_all\<close> over the messages of a batch, which drops the remaining ones at the first
  error. The messages are handled one after the other, as they are when no call suspends.\<close>

fun node_batch :: "agent_ext \<Rightarrow> message list \<Rightarrow> node_state \<Rightarrow> (error, unit) outcome \<times> node_state" where
  "node_batch x [] s = (Ret (), s)"
| "node_batch x (msg # msgs) s = (case handle_message x msg s of
     (Ret _, s) \<Rightarrow> node_batch x msgs s
   | r \<Rightarrow> r)"

definition node_receive :: "(string \<Rightarrow> uuid option) \<Rightarrow> agent_ext \<Rightarrow> uuid \<Rightarrow> env \<Rightarrow>
    string \<times> message list option \<Rightarrow> node_state \<Rightarrow> node_state" where
  "node_receive uuid_parse x me e tp s = (case tp of (topic_str, payload) \<Rightarrow>
     (case topic_from_str uuid_parse topic_str of
        Inl _ \<Rightarrow> s
      | Inr t \<Rightarrow>
          if \<not> node_accepts me e t then s
          else (case payload of None \<Rightarrow> s | Some msgs \<Rightarrow> snd (node_batch x msgs s))))"

section \<open>Restarting a node\<close>

text \<open>The snapshot of the memory, and what is told to the back ends after loading it. Each
  connection is restored by a task of its own; an empty memory is an error.\<close>

record snapshot =
  sn_timestamp :: u64
  sn_memory :: "base connections"
  sn_version :: nat

definition create_snapshot :: "datetime \<Rightarrow> base connections \<Rightarrow> snapshot" where
  "create_snapshot now mem = \<lparr>sn_timestamp = word_of_int (now div 10 ^ 9), sn_memory = mem, sn_version = 1\<rparr>"

definition restore_wg_connections :: "agent_ext \<Rightarrow> node_state \<Rightarrow> (error + unit) \<times> node_state" where
  "restore_wg_connections x s =
    (if ns_mem s = [] then (Inl (Custom ''Empty snapshot''), s)
     else (Inr (), fold (\<lambda>(_, c) s. (case proto_wireguard (b_proto c) of
         None \<Rightarrow> s
       | Some wg \<Rightarrow> if \<not> ne_has_wg x then s else (case wg_pubkey x wg of
             Inl _ \<Rightarrow> s
           | Inr pk \<Rightarrow> snd (wg_create x pk (wg_address wg) s))))
       (filter (\<lambda>(_, c). proto_tag_of (b_proto c) = Wireguard) (ns_mem s)) s))"

definition restore_xray_connections :: "agent_ext \<Rightarrow> node_state \<Rightarrow> (error + unit) \<times> node_state" where
  "restore_xray_connections x s =
    (if ns_mem s = [] then (Inl (Custom ''Empty snapshot''), s)
     else (Inr (), fold (\<lambda>(i, c) s.
         if \<not> ne_has_xray x then s
         else snd (xray_create x i (proto_tag_of (b_proto c))
           (if proto_tag_of (b_proto c) = Shadowsocks then proto_password (b_proto c) else None) s))
       (filter (\<lambda>(_, c). is_xray_tag (proto_tag_of (b_proto c)) \<or> proto_tag_of (b_proto c) = Shadowsocks)
         (ns_mem s)) s))"

definition load_snapshot :: "snapshot \<Rightarrow> node_state \<Rightarrow> node_state" where
  "load_snapshot sn s = s\<lparr>ns_mem := sn_memory sn\<rparr>"

definition node_restart :: "agent_ext \<Rightarrow> snapshot \<Rightarrow> node_state \<Rightarrow> node_state" where
  "node_restart x sn s =
    snd (restore_xray_connections x (snd (restore_wg_connections x (load_snapshot sn s))))"

end
