(* ===== verification/AgentLaws.thy ===== *)
theory AgentLaws
  imports Agents
begin

text \<open>
  What the subscribers guarantee: which published messages reach them, that the authentication
  service implements a map of tokens, and what each outcome of a message leaves behind on a node.
\<close>

section \<open>Subscribers\<close>

locale subscriber =
  fixes uuid_parse :: "string \<Rightarrow> uuid option"
    and accepts :: "topic \<Rightarrow> bool"
    and apply_batch :: "message list \<Rightarrow> 's \<Rightarrow> 's"
    and receive :: "string \<times> message list option \<Rightarrow> 's \<Rightarrow> 's"
  assumes receive_parsed: "topic_from_str uuid_parse ts = Inr t \<Longrightarrow>
      receive (ts, Some msgs) s = (if accepts t then apply_batch msgs s else s)"
    and receive_bad_topic: "topic_from_str uuid_parse ts = Inl e \<Longrightarrow> receive (ts, p) s = s"
    and receive_bad_payload: "receive (ts, None) s = s"
begin

text \<open>A published message is applied exactly where its topic, in the form the parser gives it, is
  accepted.\<close>

lemma receive_published:
  assumes "uuid_laws us uuid_parse"
  shows "receive (topic_to_string us t, Some msgs) s =
    (if accepts (topic_norm t) then apply_batch msgs s else s)"
  using topic_from_to [OF assms, of t] by (rule receive_parsed)

lemma receive_log:
  assumes "uuid_laws us uuid_parse"
  shows "fold (\<lambda>(t, msgs). receive (topic_to_string us t, Some msgs)) log s =
    fold (\<lambda>(t, msgs). apply_batch msgs) (filter (\<lambda>(t, _). accepts (topic_norm t)) log) s"
  by (induction log arbitrary: s) (auto simp: receive_published [OF assms])

end

interpretation auth_sub: subscriber up "auth_accepts me" "\<lambda>msgs mem. snd (auth_batch ft clock msgs mem)"
    "auth_receive up ft clock me" for up me ft clock
  by unfold_locales (auto simp: auth_receive_def split: sum.split)

interpretation node_sub: subscriber up "node_accepts me e" "\<lambda>msgs s. snd (node_batch x msgs s)"
    "node_receive up x me e" for up me e x
  by unfold_locales (auto simp: node_receive_def split: sum.split)

lemma node_accepts_norm:
  "node_accepts me e (topic_norm t) \<longleftrightarrow> t = Init me \<or> (\<exists>e'. t = Updates e' \<and> env_norm e' = e)"
  by (cases t) auto

lemma auth_accepts_norm: "auth_accepts me (topic_norm t) \<longleftrightarrow> t = AuthTopic \<or> t = Init me"
  by (cases t) auto

section \<open>The authentication service implements a token map\<close>

text \<open>The specification: a connection's token is set once and removed by a deletion.\<close>

definition token_spec :: "message \<Rightarrow> (uuid \<Rightarrow> uuid option) \<Rightarrow> uuid \<Rightarrow> uuid option" where
  "token_spec msg f = (case m_action msg of
      Delete \<Rightarrow> f(m_conn_id msg := None)
    | ResetStat \<Rightarrow> f
    | _ \<Rightarrow> (case (f (m_conn_id msg), m_token msg) of
        (None, Some t) \<Rightarrow> f(m_conn_id msg \<mapsto> t)
      | _ \<Rightarrow> f))"

definition tokens_of :: "base connections \<Rightarrow> uuid \<Rightarrow> uuid option" where
  "tokens_of mem i = Option.bind (hm_get mem i) (\<lambda>c. proto_token (b_proto c))"

definition auth_ok :: "base connections \<Rightarrow> bool" where
  "auth_ok mem = (hm_wf mem \<and> (\<forall>(_, c) \<in> set mem. proto_token (b_proto c) \<noteq> None))"

lemma auth_ok_iff:
  "auth_ok mem \<longleftrightarrow> hm_wf mem \<and> (\<forall>i c. hm_get mem i = Some c \<longrightarrow> proto_token (b_proto c) \<noteq> None)"
  by (auto simp: auth_ok_def map_of_eq_Some_iff)

lemma proto_token_Some: "proto_token p = Some t \<longleftrightarrow> p = ProtoHysteria2 t"
  by (cases p) auto

lemma auth_apply_ok: "auth_ok mem \<Longrightarrow> auth_ok (snd (auth_apply ft now msg mem))"
  by (auto simp: auth_apply_def Let_def auth_ok_iff conns_add_get conns_remove_get base_new_def
      split: action.split option.split if_splits)

lemma auth_apply_refines:
  assumes "auth_ok mem" and "fst (auth_apply ft now msg mem) \<noteq> Panic"
  shows "tokens_of (snd (auth_apply ft now msg mem)) = token_spec msg (tokens_of mem)"
proof
  fix i
  have some: "tokens_of mem j = None \<longleftrightarrow> hm_get mem j = None" for j
    using assms(1) by (cases "hm_get mem j") (auto simp: auth_ok_iff tokens_of_def)
  show "tokens_of (snd (auth_apply ft now msg mem)) i = token_spec msg (tokens_of mem) i"
    using assms(2) some [of "m_conn_id msg"]
    by (cases "m_action msg"; cases "m_token msg"; cases "hm_get mem (m_conn_id msg)")
       (auto simp: auth_apply_def Let_def token_spec_def tokens_of_def conns_add_get conns_remove_get
         base_new_def split: option.splits)
qed

lemma auth_apply_outcome:
  "fst (auth_apply ft now msg mem) = Ret () \<or> fst (auth_apply ft now msg mem) = Panic"
  by (auto simp: auth_apply_def Let_def split: action.split option.split)

lemma auth_batch_refines:
  assumes "auth_ok mem" and "fst (auth_batch ft clock msgs mem) \<noteq> Panic"
  shows "fst (auth_batch ft clock msgs mem) = Ret () \<and> auth_ok (snd (auth_batch ft clock msgs mem)) \<and>
    tokens_of (snd (auth_batch ft clock msgs mem)) = fold token_spec msgs (tokens_of mem)"
  using assms
proof (induction msgs arbitrary: clock mem)
  case (Cons msg msgs)
  obtain r mem' where a: "auth_apply ft (clock 0) msg mem = (r, mem')" by force
  with Cons.prems(2) auth_apply_outcome [of ft "clock 0" msg mem] have r: "r = Ret ()"
    by (auto split: outcome.splits)
  have "auth_ok mem'" "tokens_of mem' = token_spec msg (tokens_of mem)"
    using auth_apply_ok [OF Cons.prems(1), of ft "clock 0" msg]
      auth_apply_refines [OF Cons.prems(1), of ft "clock 0" msg] a r by auto
  with Cons.IH [of mem' "\<lambda>n. clock (Suc n)"] Cons.prems(2) a r show ?case by simp
qed simp

text \<open>Authentication answers by the token map.\<close>

lemma auth_handler_iff:
  assumes "auth_ok mem"
  shows "fst (auth_handler t mem) \<longleftrightarrow> (\<exists>i. tokens_of mem i = Some t)"
proof -
  have "validate_token b_proto t mem = None \<longleftrightarrow> (\<forall>i. tokens_of mem i \<noteq> Some t)"
    using assms validate_token_None [of mem b_proto t]
    by (auto simp: auth_ok_iff tokens_of_def bind_eq_Some_conv proto_token_Some)
  then show ?thesis by (cases "validate_token b_proto t mem") (auto simp: auth_handler_def)
qed

lemma auth_handler_id:
  assumes "auth_ok mem" and "auth_handler t mem = (ok, Some i)"
  shows "ok \<and> tokens_of mem i = Some t"
  using assms validate_token_Some [of mem b_proto t i]
  by (auto simp: auth_handler_def auth_ok_iff tokens_of_def split: option.splits)

section \<open>Messages on a node\<close>

text \<open>What each branch leaves in memory, by its outcome.\<close>

lemma wg_create_outcome:
  "(\<exists>c. ns_mem (snd (handle_wg_create x msg s)) = snd (conns_add (m_conn_id msg) c (ns_mem s))) \<or>
   fst (handle_wg_create x msg s) \<noteq> Ret () \<and> ns_mem (snd (handle_wg_create x msg s)) = ns_mem s"
  by (auto simp: handle_wg_create_def Let_def split_beta split: option.split sum.split)

lemma xray_create_outcome:
  "fst (handle_xray_create x p pw msg s) = Ret () \<and>
     (\<exists>c. ns_mem (snd (handle_xray_create x p pw msg s)) = snd (conns_add (m_conn_id msg) c (ns_mem s))) \<or>
   fst (handle_xray_create x p pw msg s) \<noteq> Ret () \<and>
     ns_mem (snd (handle_xray_create x p pw msg s)) = ns_mem s"
  by (auto simp: handle_xray_create_def split_beta split: option.split outcome.split)

lemma wg_delete_outcome:
  "fst (handle_wg_delete x msg s) = Ret () \<and>
     ns_mem (snd (handle_wg_delete x msg s)) = snd (conns_remove (m_conn_id msg) (ns_mem s)) \<or>
   fst (handle_wg_delete x msg s) \<noteq> Ret () \<and> ns_mem (snd (handle_wg_delete x msg s)) = ns_mem s"
  by (auto simp: handle_wg_delete_def split_beta split: option.split sum.split)

lemma xray_delete_outcome:
  "fst (handle_xray_delete x msg s) = Ret () \<and>
     ns_mem (snd (handle_xray_delete x msg s)) = snd (conns_remove (m_conn_id msg) (ns_mem s)) \<or>
   fst (handle_xray_delete x msg s) \<noteq> Ret () \<and> ns_mem (snd (handle_xray_delete x msg s)) = ns_mem s"
  by (auto simp: handle_xray_delete_def split_beta split: outcome.split)

lemmas node_outcomes = wg_create_outcome xray_create_outcome wg_delete_outcome xray_delete_outcome

text \<open>The three kinds of messages.\<close>

lemma handle_create:
  assumes "m_action msg = Create \<or> m_action msg = Update"
  obtains (wg) "m_tag msg = Wireguard" "handle_message x msg s = handle_wg_create x msg s"
  | (xray) p pw where "m_tag msg \<noteq> Wireguard" "handle_message x msg s = handle_xray_create x p pw msg s"
  | (refused) e where "m_tag msg \<noteq> Wireguard" "handle_message x msg s = (Err e, s)"
proof -
  consider "m_tag msg = Wireguard" | "m_tag msg \<noteq> Wireguard" "is_xray_tag (m_tag msg)"
    | "m_tag msg = Shadowsocks" "\<not> is_xray_tag (m_tag msg)"
    | "m_tag msg \<noteq> Wireguard" "\<not> is_xray_tag (m_tag msg)" "m_tag msg \<noteq> Shadowsocks" by blast
  then show ?thesis
  proof cases
    case 1
    with assms show ?thesis by (intro wg) (auto simp: handle_message_def)
  next
    case 2
    with assms show ?thesis by (intro xray) (auto simp: handle_message_def)
  next
    case 3
    show ?thesis
    proof (cases "m_password msg")
      case None
      with 3 assms show ?thesis by (intro refused) (auto simp: handle_message_def)
    next
      case (Some pw)
      with 3 assms show ?thesis by (intro xray) (auto simp: handle_message_def)
    qed
  next
    case 4
    with assms show ?thesis by (intro refused) (auto simp: handle_message_def)
  qed
qed

lemma handle_delete:
  assumes "m_action msg = Delete"
  obtains (wg) "handle_message x msg s = handle_wg_delete x msg s"
  | (xray) "handle_message x msg s = handle_xray_delete x msg s"
  | (refused) e where "handle_message x msg s = (Err e, s)"
proof -
  consider "m_tag msg = Wireguard" | "m_tag msg \<noteq> Wireguard" "is_xray_tag (m_tag msg) \<or> m_tag msg = Shadowsocks"
    | "m_tag msg \<noteq> Wireguard" "\<not> (is_xray_tag (m_tag msg) \<or> m_tag msg = Shadowsocks)" by blast
  then show ?thesis
  proof cases
    case 1
    with assms show ?thesis by (intro wg) (simp add: handle_message_def)
  next
    case 2
    with assms show ?thesis by (intro xray) (simp add: handle_message_def)
  next
    case 3
    with assms show ?thesis by (intro refused) (simp add: handle_message_def)
  qed
qed

lemma handle_reset: "m_action msg = ResetStat \<Longrightarrow> ns_mem (snd (handle_message x msg s)) = ns_mem s"
  by (simp add: handle_message_def split_beta split: sum.split)

text \<open>Whatever the outcome, only the connection of the message is added or removed.\<close>

lemma handle_message_mem:
  "ns_mem (snd (handle_message x msg s)) = ns_mem s \<or>
   (\<exists>c. ns_mem (snd (handle_message x msg s)) = snd (conns_add (m_conn_id msg) c (ns_mem s))) \<or>
   ns_mem (snd (handle_message x msg s)) = snd (conns_remove (m_conn_id msg) (ns_mem s))"
proof (cases "m_action msg")
  case Create
  then have "m_action msg = Create \<or> m_action msg = Update" by simp
  then show ?thesis using wg_create_outcome [of x msg s] xray_create_outcome [of x _ _ msg s]
    by (cases rule: handle_create [where x = x and s = s]) auto
next
  case Update
  then have "m_action msg = Create \<or> m_action msg = Update" by simp
  then show ?thesis using wg_create_outcome [of x msg s] xray_create_outcome [of x _ _ msg s]
    by (cases rule: handle_create [where x = x and s = s]) auto
next
  case Delete
  then show ?thesis using wg_delete_outcome [of x msg s] xray_delete_outcome [of x msg s]
    by (cases rule: handle_delete [where x = x and s = s]) auto
next
  case ResetStat
  then show ?thesis by (simp add: handle_reset)
qed

lemma handle_message_other:
  "j \<noteq> m_conn_id msg \<Longrightarrow> hm_get (ns_mem (snd (handle_message x msg s))) j = hm_get (ns_mem s) j"
  using handle_message_mem [of x msg s] by (auto simp: conns_add_get conns_remove_get)

lemma handle_delete_removes:
  assumes "m_action msg = Delete" and "fst (handle_message x msg s) = Ret ()"
  shows "hm_get (ns_mem (snd (handle_message x msg s))) (m_conn_id msg) = None"
  using assms wg_delete_outcome [of x msg s] xray_delete_outcome [of x msg s]
  by (cases rule: handle_delete [where x = x and s = s]) (auto simp: conns_remove_get)

lemma handle_create_adds:
  assumes "m_action msg = Create \<or> m_action msg = Update" and "fst (handle_message x msg s) = Ret ()"
  shows "hm_get (ns_mem (snd (handle_message x msg s))) (m_conn_id msg) \<noteq> None"
proof -
  have added: "hm_get (snd (conns_add i c m)) i \<noteq> None" for i and c :: base and m
    by (auto simp: conns_add_get)
  from assms show ?thesis
  proof (cases rule: handle_create [where x = x and s = s])
    case wg
    with assms(2) wg_create_outcome [of x msg s] added show ?thesis by auto
  next
    case (xray p pw)
    with assms(2) xray_create_outcome [of x p pw msg s] added show ?thesis by auto
  qed simp
qed

text \<open>An error leaves the memory alone except for the WireGuard connection that was added before
  the interface was asked.\<close>

lemma handle_error_mem:
  assumes "fst (handle_message x msg s) = Err e"
    and "\<not> (m_tag msg = Wireguard \<and> (m_action msg = Create \<or> m_action msg = Update))"
  shows "ns_mem (snd (handle_message x msg s)) = ns_mem s"
proof (cases "m_action msg = Create \<or> m_action msg = Update")
  case True
  then show ?thesis
  proof (cases rule: handle_create [where x = x and s = s])
    case wg
    with True assms(2) show ?thesis by simp
  next
    case (xray p pw)
    with assms(1) xray_create_outcome [of x p pw msg s] show ?thesis by auto
  qed simp
next
  case False
  then consider "m_action msg = Delete" | "m_action msg = ResetStat" by (cases "m_action msg") auto
  then show ?thesis
  proof cases
    case 1
    from 1 assms(1) wg_delete_outcome [of x msg s] xray_delete_outcome [of x msg s] show ?thesis
      by (cases rule: handle_delete [where x = x and s = s]) auto
  qed (rule handle_reset)
qed

lemma handle_message_wf: "hm_wf (ns_mem s) \<Longrightarrow> hm_wf (ns_mem (snd (handle_message x msg s)))"
  using handle_message_mem [of x msg s] by auto

lemma node_batch_wf: "hm_wf (ns_mem s) \<Longrightarrow> hm_wf (ns_mem (snd (node_batch x msgs s)))"
proof (induction msgs arbitrary: s)
  case (Cons msg msgs)
  obtain r s' where h: "handle_message x msg s = (r, s')" by force
  with handle_message_wf [OF Cons.prems, of x msg] have "hm_wf (ns_mem s')" by simp
  with Cons.IH h show ?case by (auto split: outcome.splits)
qed simp

text \<open>A batch stops at the first message that fails.\<close>

lemma node_batch_append:
  "node_batch x (xs @ ys) s = (case node_batch x xs s of
     (Ret _, s') \<Rightarrow> node_batch x ys s' | r \<Rightarrow> r)"
  by (induction xs arbitrary: s) (auto split: outcome.splits prod.splits)

lemma node_batch_stop:
  assumes "node_batch x xs s = (Ret (), s1)" and "handle_message x msg s1 = (Err e, s2)"
  shows "node_batch x (xs @ msg # ys) s = (Err e, s2)"
  using assms by (simp add: node_batch_append)

end
