(* ===== verification/Sample.thy ===== *)
theory Sample
  imports HandlerInv AgentLaws
begin

text \<open>
  Concrete parameters and states that the witnesses of the properties use: a clock that starts in
  2001 and advances by a second, no failures, a printer and a parser for IPv6 addresses and UUIDs
  that satisfy the laws asked of them, and small stores.
\<close>

section \<open>Parameters\<close>

definition sample_v6_str :: "u128 \<Rightarrow> string" where
  "sample_v6_str a = CHR '':'' # dec_string (unat a)"

definition sample_v6_parse :: "string \<Rightarrow> u128 option" where
  "sample_v6_parse s = map_option of_nat (parse_digits 0 (drop 1 s))"

lemma sample_v6_laws: "v6_laws sample_v6_str sample_v6_parse"
proof -
  have "CHR ''.'' \<notin> set (sample_v6_str a)" "CHR ''/'' \<notin> set (sample_v6_str a)" for a
    by (simp_all add: sample_v6_str_def dec_string_no)
  then show ?thesis
    by (simp add: v6_laws_def ipv4_from_str_def split_on_no sample_v6_parse_def)
       (simp add: sample_v6_str_def parse_digits_dec_string split: option.split)
qed

definition sample_uuid_str :: "uuid \<Rightarrow> string" where
  "sample_uuid_str u = replicate 24 (CHR ''0'') @ dec_string (unat u)"

definition sample_uuid_parse :: "string \<Rightarrow> uuid option" where
  "sample_uuid_parse s = map_option of_nat (parse_digits 0 (drop 24 s))"

lemma ascii_lower_digit: "d < 10 \<Longrightarrow> ascii_lower (digit_char d) = digit_char d"
  by (simp add: ascii_lower_def digit_char_def Let_def)

lemma ascii_lower_0: "ascii_lower (CHR ''0'') = CHR ''0''"
  by code_simp

lemma sample_uuid_laws: "uuid_laws sample_uuid_str sample_uuid_parse"
proof -
  have "to_lowercase (dec_string n) = dec_string n" for n
    unfolding to_lowercase_def by (rule map_idI) (auto dest!: dec_string_digits simp: ascii_lower_digit)
  moreover have "to_lowercase (replicate 24 (CHR ''0'')) = replicate 24 (CHR ''0'')"
    by (simp only: to_lowercase_def map_replicate ascii_lower_0)
  ultimately have "is_lower (sample_uuid_str u)" for u
    by (simp only: is_lower_def sample_uuid_str_def to_lowercase_append)
  moreover have "drop 24 (sample_uuid_str u) = dec_string (unat u)" for u
    by (simp only: sample_uuid_str_def drop_append length_replicate drop_replicate) simp
  ultimately show ?thesis
    by (simp add: uuid_laws_def sample_uuid_parse_def parse_digits_dec_string)
qed

definition sample_plus_days :: plus_days where
  "sample_plus_days t n = Some (t + n * day)"

lemma sample_plus_days_laws: "plus_days_laws sample_plus_days"
  by (simp add: plus_days_laws_def sample_plus_days_def)

definition sample_clock :: "nat \<Rightarrow> datetime" where
  "sample_clock n = 10 ^ 18 + int n * 10 ^ 9"

definition sample_ext :: ext where
  "sample_ext = \<lparr>x_clock = sample_clock, x_db_fails = (\<lambda>_. False), x_send_fails = (\<lambda>_. False),
     x_ser_fails = (\<lambda>_. False), x_new_uuid = (\<lambda>n. of_nat (n + 1000)), x_password = (\<lambda>_. ''secret''),
     x_privkey = (\<lambda>_. ''key''), x_random = (\<lambda>_. [1, 2, 3, 4, 5, 6]), x_plus_days = sample_plus_days,
     x_uuid_str = sample_uuid_str, x_v6_str = sample_v6_str, x_v6_parse = sample_v6_parse,
     x_err_str = (\<lambda>_. ''error'')\<rparr>"

lemma sample_ext_ok: "ext_ok sample_ext"
  using sample_v6_laws by (simp add: ext_ok_def sample_ext_def)

lemma sample_healthy [simp]: "healthy_at sample_ext n" "healthy_from sample_ext n"
  by (simp_all add: healthy_from_def healthy_at_def sample_ext_def)

section \<open>States\<close>

definition sample_now :: datetime where
  "sample_now = 10 ^ 18"

text \<open>A VLESS connection of subscription 7, a Hysteria2 connection of the same subscription that is
  deleted, and a WireGuard connection.\<close>

definition sample_conn :: conn where
  "sample_conn = \<lparr>c_env = Production, c_proto = ProtoXray VlessTcpReality, c_subscription_id = Some 7,
     c_created_at = 0, c_modified_at = 0, c_expires_at = Some (sample_now - 1), c_is_deleted = False\<rparr>"

definition sample_h2 :: conn where
  "sample_h2 = \<lparr>c_env = Ru, c_proto = ProtoHysteria2 42, c_subscription_id = Some 7,
     c_created_at = 0, c_modified_at = 0, c_expires_at = None, c_is_deleted = True\<rparr>"

definition sample_wg :: conn where
  "sample_wg = \<lparr>c_env = Dev, c_proto = ProtoWireguard \<lparr>keys = \<lparr>privkey = ''k''\<rparr>,
       wg_address = \<lparr>address = V4 0x0A000005, cidr = 32\<rparr>\<rparr>, c_subscription_id = None,
     c_created_at = 0, c_modified_at = 0, c_expires_at = None, c_is_deleted = False\<rparr>"

definition sample_sub :: subscription where
  "sample_sub = \<lparr>s_id = 7, s_expires_at = Some (sample_now + 1000 * day), s_referred_by = None,
     s_refer_code = ''abc'', s_created_at = 0, s_updated_at = 0, s_is_deleted = False,
     s_limit_bytes = None, s_downlink_bytes = None\<rparr>"

definition sample_expired :: subscription where
  "sample_expired = sample_sub\<lparr>s_expires_at := Some (sample_now - day)\<rparr>"

definition sample_key :: key where
  "sample_key = \<lparr>k_id = 5, k_code = ''CODE'', k_days = 30, k_activated = False,
     k_subscription_id = None, k_created_at = 0, k_modified_at = 0, k_distributor = []\<rparr>"

definition sample_node :: node where
  "sample_node = \<lparr>n_uuid = 9, n_env = Production, n_hostname = ''host'', n_address = 0x01020304,
     n_status = Online, n_label = ''label'', n_interface = ''eth0'', n_created_at = 0, n_modified_at = 0,
     n_inbounds = Map.empty, n_cores = 2, n_max_bandwidth_bps = 100, n_country = ''NL'', n_type = Common\<rparr>"

definition row_of :: "uuid \<Rightarrow> conn \<Rightarrow> uuid \<times> conn_columns" where
  "row_of i c = (i, columns_of_row sample_v6_str (conn_row_of i c))"

definition sample_db :: db where
  "sample_db = \<lparr>db_conns = [row_of 1 sample_conn, row_of 2 sample_h2, row_of 3 sample_wg],
     db_subs = [(7, sample_sub)], db_keys = [(5, sample_key)], db_nodes = [], db_inbounds = []\<rparr>"

definition sample_world :: world where
  "sample_world = \<lparr>w_mem = \<lparr>connections = [(1, sample_conn), (2, sample_h2), (3, sample_wg)],
       subscriptions = [(7, sample_sub)], nodes = []\<rparr>,
     w_db = sample_db, w_pub = [], w_tick = 0\<rparr>"

lemmas sample_defs = sample_world_def sample_db_def row_of_def sample_conn_def sample_h2_def
  sample_wg_def sample_sub_def sample_expired_def sample_key_def sample_now_def

lemma sample_simps [simp]:
  "mem_conns sample_world = [(1, sample_conn), (2, sample_h2), (3, sample_wg)]"
  "mem_subs sample_world = [(7, sample_sub)]"
  "w_db sample_world = sample_db" "w_tick sample_world = 0" "w_pub sample_world = []"
  "c_is_deleted sample_conn = False" "c_is_deleted sample_h2 = True" "c_is_deleted sample_wg = False"
  by (simp_all add: sample_world_def sample_conn_def sample_h2_def sample_wg_def)

end
