(* ===== verification/DataProps.thy ===== *)
theory DataProps
  imports Sample
begin

text \<open>
  Properties of the data the program computes with and exchanges: network masks and addresses,
  activation codes, textual forms, database rows, message time stamps, patches and stores.
\<close>

section \<open>Addresses\<close>

text \<open>C39. \<open>IpAddrMask::contains_ipv4\<close> decides membership in the interval from the network address
  to the broadcast address, for every IPv4 network with a prefix length of at most 32.\<close>

theorem contains_ipv4_interval:
  assumes "cidr m \<le> 32" and "address m = V4 b" and "broadcast m = V4 hi"
  shows "contains_ipv4 m ip \<longleftrightarrow> unat (b AND netmask4 (cidr m)) \<le> unat ip \<and> unat ip \<le> unat hi"
proof -
  let ?n = "32 - unat (cidr m)"
  have c: "unat (cidr m) \<le> 32" using assms(1) by (simp add: word_le_nat_alt)
  have dz: "unat (drop_bit k a) = unat a div 2 ^ k" for k and a :: u32
    by (simp only: unat_drop_bit_eq) (simp add: drop_bit_eq_div)
  have low: "unat (b AND netmask4 (cidr m)) = 2 ^ ?n * (unat b div 2 ^ ?n)"
  proof (cases "cidr m = 0")
    case True
    then show ?thesis using unat_bound [of b] by (simp add: netmask4_def)
  next
    case False
    show ?thesis by (simp only: netmask4_eq [OF assms(1) False] unat_and_netmask dz)
  qed
  have "hi = b OR (if 32 \<le> cidr m then 0 else drop_bit (unat (cidr m)) (-1))"
    using assms(2,3) by (simp add: broadcast_def)
  also have "\<dots> = b OR mask ?n"
  proof (cases "cidr m = 32")
    case False
    with assms(1) have "\<not> 32 \<le> cidr m" by simp
    then show ?thesis using or_low_mask_eq [of "unat (cidr m)" b] c by simp
  qed simp
  finally have high: "unat hi = 2 ^ ?n * (unat b div 2 ^ ?n) + (2 ^ ?n - 1)"
    by (simp add: unat_or_mask dz)
  have "contains_ipv4 m ip \<longleftrightarrow> unat b div 2 ^ ?n = unat ip div 2 ^ ?n"
    using contains_ipv4_prefix [OF assms(1,2)] by (simp add: word_unat_eq_iff dz)
  then show ?thesis using interval_iff_div [of "2 ^ ?n" "unat b" "unat ip"] by (simp add: low high)
qed

theorem contains_ipv4_interval_witness:
  "contains_ipv4 \<lparr>address = V4 0x0A000000, cidr = 8\<rparr> 0x0A0B0C0D"
  using contains_ipv4_interval [of "\<lparr>address = V4 0x0A000000, cidr = 8\<rparr>" "0x0A000000" "0x0AFFFFFF" "0x0A0B0C0D"]
  by (simp add: broadcast_def netmask4_def mask_eq_exp_minus_1)

text \<open>A mask survives printing and parsing exactly when its prefix length is in range; nothing
  else parses to it, and what parses is in range.\<close>

theorem mask_text_roundtrip:
  assumes "v6_laws vs vp"
  shows "mask_from_str vp (mask_to_string vs m) = (if cidr_ok m then Some m else None)"
proof (cases "cidr_ok m")
  case True
  with mask_from_to [OF assms] show ?thesis by simp
next
  case False
  show ?thesis
  proof (cases "mask_from_str vp (mask_to_string vs m)")
    case (Some m')
    with mask_from_to_eq [OF assms Some] mask_from_str_cidr_ok [OF Some] False show ?thesis by simp
  qed (use False in simp)
qed

theorem mask_text_roundtrip_witness:
  "mask_from_str sample_v6_parse (mask_to_string sample_v6_str \<lparr>address = V4 0x0A000001, cidr = 24\<rparr>)
     = Some \<lparr>address = V4 0x0A000001, cidr = 24\<rparr>"
  using mask_text_roundtrip [OF sample_v6_laws, of "\<lparr>address = V4 0x0A000001, cidr = 24\<rparr>"]
  by (simp add: cidr_ok_def)

section \<open>Activation codes\<close>

text \<open>Sixteen letters stand for the half bytes: a codec with the laws of base32.\<close>

definition half_char :: "nat \<Rightarrow> char" where
  "half_char n = char_of (65 + n mod 16)"

fun half_encode :: "u8 list \<Rightarrow> string" where
  "half_encode [] = []"
| "half_encode (b # bs) = half_char (unat b div 16) # half_char (unat b mod 16) # half_encode bs"

fun half_decode :: "string \<Rightarrow> u8 list option" where
  "half_decode [] = Some []"
| "half_decode [c] = None"
| "half_decode (c # d # cs) = map_option (\<lambda>bs. of_nat ((of_char c - 65) * 16 + (of_char d - 65)) # bs)
     (half_decode cs)"

definition half_codec :: codec where
  "half_codec = \<lparr>b32_encode = half_encode, b32_decode = half_decode,
     hmac_sha256 = (\<lambda>key msg. replicate 32 (sum_list key + 3 * sum_list msg))\<rparr>"

lemma half_char_val: "n < 16 \<Longrightarrow> (of_char (half_char n) :: nat) = 65 + n"
  by (simp add: half_char_def)

lemma half_roundtrip: "half_decode (half_encode bs) = Some bs"
proof (induction bs)
  case (Cons b bs)
  have "unat b div 16 < 16" using unat_bound [of b] by simp
  then have "(of_char (half_char (unat b div 16)) - 65) * 16 + (of_char (half_char (unat b mod 16)) - 65) = unat b"
    by (simp add: half_char_val)
  with Cons show ?case by (simp del: of_nat_add)
qed simp

lemma half_chars: "c \<in> set (half_encode bs) \<Longrightarrow> \<exists>n < 16. c = half_char n"
proof (induction bs)
  case (Cons b bs)
  have "unat b div 16 < 16" using unat_bound [of b] by simp
  moreover have "unat b mod 16 < 16" by simp
  moreover from Cons.prems have "c = half_char (unat b div 16) \<or> c = half_char (unat b mod 16) \<or>
      c \<in> set (half_encode bs)" by simp
  ultimately show ?case using Cons.IH by blast
qed simp

lemma half_codec_laws: "code_laws half_codec"
proof -
  have up: "ascii_upper (half_char n) = half_char n" if "n < 16" for n
    using that half_char_val [OF that] by (simp add: ascii_upper_def Let_def)
  have nd: "half_char n \<noteq> CHR ''-''" if "n < 16" for n
    using half_char_val [OF that] by auto
  have "to_uppercase (half_encode bs) = half_encode bs" for bs
    unfolding to_uppercase_def by (rule map_idI) (use up half_chars in blast)
  moreover have "CHR ''-'' \<notin> set (half_encode bs)" for bs
    using nd half_chars [of "CHR ''-''" bs] by metis
  ultimately show ?thesis by (simp add: code_laws_def half_codec_def half_roundtrip)
qed

text \<open>C40. A generated activation code is accepted under its secret and yields the days and the
  distributor it was made for, negative day counts included.\<close>

theorem code_roundtrip:
  assumes "code_laws k" and "length r = 6" and "distributor_new name = Inr d"
  shows "code_parse k (code_new k r n d secret) secret = Some (n, d) \<and>
    code_is_valid k (code_new k r n d secret) secret \<and> distributor_as_str d = name"
proof -
  have d: "length name = 4" "d = as_bytes name"
    using assms(3) by (auto simp: distributor_new_def split: if_splits)
  then have "length d = 4" by (simp add: as_bytes_def)
  then have "code_parse k (code_new k r n d secret) secret = Some (n, d)"
    using parse_bytes_payload [OF assms(1,2), of d n secret]
    by (simp add: code_new_def code_parse_bytes decode_formatted [OF assms(1)])
  moreover have "char_of (unat (of_char c :: u8)) = c" for c
  proof -
    have "(of_char c :: nat) < 256" by (rule nat_of_char_less_256)
    moreover have "(of_char c :: u8) = of_nat (of_char c)" by (simp only: of_nat_of_char)
    ultimately have "unat (of_char c :: u8) = of_char c" by (simp add: unat_of_nat)
    then show ?thesis by simp
  qed
  then have "distributor_as_str d = name"
    by (simp add: d(2) distributor_as_str_def as_bytes_def map_idI)
  ultimately show ?thesis by (simp add: code_is_valid_def)
qed

theorem code_roundtrip_witness:
  "code_parse half_codec (code_new half_codec [1, 2, 3, 4, 5, 6] (-30) (as_bytes ''FRKN'') [9, 9]) [9, 9]
     = Some (-30, as_bytes ''FRKN'')"
proof -
  have "distributor_new ''FRKN'' = Inr (as_bytes ''FRKN'')" by code_simp
  from code_roundtrip [OF half_codec_laws _ this] show ?thesis by simp
qed

text \<open>A code in which one byte of the sixteen is replaced by another is rejected, whichever byte
  it is and under every secret: the checksum notices.\<close>

theorem code_tamper_rejected:
  assumes "code_laws k" and "length r = 6" and "length d = 4" and "i < 16"
    and "b \<noteq> code_payload k r n d secret ! i"
  shows "code_parse k (format_code (to_uppercase (b32_encode k ((code_payload k r n d secret)[i := b])))) secret'
    = None"
proof -
  let ?p = "code_payload k r n d secret"
  have l: "length ?p = 16" using code_payload_length [OF assms(1-3)] .
  have "checksum (take 15 ?p) = ?p ! 15"
    using parse_bytes_payload [OF assms(1-3), of n secret] by (simp add: parse_bytes_def split: if_splits)
  then have "checksum (take 15 (?p[i := b])) \<noteq> ?p[i := b] ! 15"
  proof (cases "i = 15")
    case False
    with assms(4) have i: "i < 15" by simp
    with l have "take 15 (?p[i := b]) = (take 15 ?p)[i := b]" by (simp add: take_update_swap)
    moreover have "take 15 ?p ! i = ?p ! i" "i < length (take 15 ?p)" using i l by simp_all
    ultimately have "checksum (take 15 (?p[i := b])) = checksum (take 15 ?p) - ?p ! i + b"
      by (simp add: checksum_update)
    also have "\<dots> = ?p ! 15 + (b - ?p ! i)"
      using \<open>checksum (take 15 ?p) = ?p ! 15\<close> by simp
    finally have "checksum (take 15 (?p[i := b])) = ?p ! 15 + (b - ?p ! i)" .
    with False assms(5) show ?thesis by simp
  qed (use assms(5) l in simp)
  then have "parse_bytes k (?p[i := b]) secret' = None" by (simp add: parse_bytes_def)
  then show ?thesis by (simp add: code_parse_bytes decode_formatted [OF assms(1)])
qed

theorem code_tamper_rejected_witness:
  "code_parse half_codec (format_code (to_uppercase (b32_encode half_codec
     ((code_payload half_codec [1, 2, 3, 4, 5, 6] 30 (as_bytes ''FRKN'') [9])[7 := 31])))) [9] = None"
proof -
  have "length (as_bytes ''FRKN'') = 4" by code_simp
  moreover have "(31 :: u8) \<noteq> code_payload half_codec [1, 2, 3, 4, 5, 6] 30 (as_bytes ''FRKN'') [9] ! 7"
    by code_simp
  ultimately show ?thesis
    using code_tamper_rejected [OF half_codec_laws, of "[1, 2, 3, 4, 5, 6]" "as_bytes ''FRKN''" 7] by simp
qed

section \<open>Text on the wire and in the tables\<close>

text \<open>A topic is read back from its wire form exactly when it is not an updates topic of a
  custom environment whose name has upper-case letters; such a topic comes back lower-cased.\<close>

theorem topic_wire_roundtrip:
  assumes "uuid_laws us up"
  shows "topic_from_str up (topic_to_string us t) = Inr t \<longleftrightarrow>
    (\<forall>name. t = Updates (CustomEnv name) \<longrightarrow> to_lowercase name = name)"
proof -
  have "topic_from_str up (topic_to_string us t) = Inr (topic_norm t)" by (rule topic_from_to [OF assms])
  moreover have "topic_norm t = t \<longleftrightarrow> (\<forall>name. t = Updates (CustomEnv name) \<longrightarrow> to_lowercase name = name)"
  proof (cases t)
    case (Updates e)
    then show ?thesis by (cases e) auto
  qed simp_all
  ultimately show ?thesis by simp
qed

theorem topic_wire_roundtrip_witness:
  "topic_from_str sample_uuid_parse (topic_to_string sample_uuid_str (Init 77)) = Inr (Init 77) \<and>
   topic_from_str sample_uuid_parse (topic_to_string sample_uuid_str (Updates (CustomEnv ''Lab'')))
     \<noteq> Inr (Updates (CustomEnv ''Lab''))"
proof -
  have "to_lowercase ''Lab'' \<noteq> ''Lab''" by code_simp
  then show ?thesis
    using topic_wire_roundtrip [OF sample_uuid_laws, of "Init 77"]
      topic_wire_roundtrip [OF sample_uuid_laws, of "Updates (CustomEnv ''Lab'')"] by simp
qed

section \<open>Stores\<close>

text \<open>The stores of nodes and of subscriptions are upserts: what was added is found under its
  key, other keys are not affected, adding it again changes nothing and says so, and every entry
  stays under its own key.\<close>

theorem stores_upsert:
  assumes "nodes_wf ns" and "subs_wf ss"
  shows "nodes_get e u (snd (nodes_add n ns)) =
      (if (e, u) = (n_env n, n_uuid n) then Some n else nodes_get e u ns) \<and>
    nodes_add n (snd (nodes_add n ns)) = (AlreadyExist (n_uuid n), snd (nodes_add n ns)) \<and>
    hm_get (snd (subs_add s ss)) i = (if i = s_id s then Some s else hm_get ss i) \<and>
    subs_add s (snd (subs_add s ss)) = (AlreadyExist (s_id s), snd (subs_add s ss)) \<and>
    nodes_wf (snd (nodes_add n ns)) \<and> subs_wf (snd (subs_add s ss))"
proof (intro conjI)
  have wf: "hm_wf ss" using assms(2) by (simp add: subs_wf_def)
  show "nodes_get e u (snd (nodes_add n ns)) =
      (if (e, u) = (n_env n, n_uuid n) then Some n else nodes_get e u ns)"
    using nds.lookup_add [OF assms(1), of n "(e, u)"] by simp
  show "hm_get (snd (subs_add s ss)) i = (if i = s_id s then Some s else hm_get ss i)"
    using subs.lookup_add [OF wf] .
  show "subs_add s (snd (subs_add s ss)) = (AlreadyExist (s_id s), snd (subs_add s ss))"
    using subs.add_twice [OF wf] .
qed (rule nds.add_twice [OF assms(1)] nds.wf_add [OF assms(1)] subs_wf_add [OF assms(2)])+

theorem stores_upsert_witness:
  "hm_get (snd (subs_add sample_expired [(7, sample_sub)])) 7 = Some sample_expired"
proof -
  have wf: "nodes_wf []" "subs_wf [(7, sample_sub)]"
    by (simp_all add: nodes_wf_def subs_wf_def sample_sub_def)
  have "s_id sample_expired = 7" by (simp add: sample_expired_def sample_sub_def)
  moreover from stores_upsert [OF wf, of Production 0 sample_node sample_expired 7]
  have "hm_get (snd (subs_add sample_expired [(7, sample_sub)])) 7 =
      (if 7 = s_id sample_expired then Some sample_expired else hm_get [(7 :: uuid, sample_sub)] 7)" by blast
  ultimately show ?thesis by simp
qed

text \<open>The two connection types implement the same accessors: a new password is accepted exactly
  for a Shadowsocks connection and is then its password; nothing else changes.\<close>

lemma set_password_both:
  "(case conn_set_password pw c of
      Inl e \<Rightarrow> e = pw_error \<and> (pw = None \<or> proto_password (c_proto c) = None)
    | Inr c' \<Rightarrow> proto_password (c_proto c') = pw \<and> c_is_deleted c' = c_is_deleted c \<and> pw \<noteq> None) \<and>
   (case base_set_password pw (base_of_conn c) of
      Inl e \<Rightarrow> conn_set_password pw c = Inl e
    | Inr b \<Rightarrow> \<exists>c'. conn_set_password pw c = Inr c' \<and> b = base_of_conn c')"
proof -
  have "(case conn_set_password pw c of
      Inl e \<Rightarrow> e = pw_error \<and> (pw = None \<or> proto_password (c_proto c) = None)
    | Inr c' \<Rightarrow> proto_password (c_proto c') = pw \<and> c_is_deleted c' = c_is_deleted c \<and> pw \<noteq> None)"
    using api_ops.set_password_Inr [of pw c] api_ops.set_password_Inl_iff [of pw c]
    by (auto split: sum.splits)
  moreover have "(case base_set_password pw (base_of_conn c) of
      Inl e \<Rightarrow> conn_set_password pw c = Inl e
    | Inr b \<Rightarrow> \<exists>c'. conn_set_password pw c = Inr c' \<and> b = base_of_conn c')"
    by (cases "c_proto c"; cases pw)
       (simp_all add: base_set_password_def conn_set_password_def base_of_conn_def)
  ultimately show ?thesis ..
qed

section \<open>An instance of the mail parameters\<close>

definition sample_mail :: mail_ext where
  "sample_mail = \<lparr>hmac_hex = (\<lambda>e. dec_string (length e)), to_rfc3339 = (\<lambda>t. (if t < 0 then ''-'' else ''+'') @
     dec_string (nat \<bar>t\<bar>)), parse_datetime = (\<lambda>s. map_option (\<lambda>n. if hd s = CHR ''-'' then - int n else int n)
     (parse_digits 0 (tl s))), io_fails = (\<lambda>_. False)\<rparr>"

lemma sample_mail_laws: "mail_laws sample_mail"
proof -
  have no: "CHR 0x0A \<notin> set (dec_string n)" "CHR '','' \<notin> set (dec_string n)" for n
    by (rule dec_string_no, code_simp)+
  then show ?thesis
    by (auto simp: mail_laws_def sample_mail_def plain_def parse_digits_dec_string)
qed

end
