(* ===== verification/ServerProps.thy ===== *)
theory ServerProps
  imports DataProps
begin

text \<open>
  Properties of the API server's operations: deletion, the background rounds, reloading, what
  holds in every reachable state, subscriptions, keys and the handlers.
\<close>

section \<open>Deleting connections\<close>

text \<open>C3. A deletion that reports success has marked the connection in memory and its row in the
  table, has published exactly one delete message, on the connection's topic, and has touched
  nothing else in memory or in the table.\<close>

theorem delete_connection_effect:
  assumes "delete_connection x i c w = (Ret (Ok i), w')"
  shows "w_pub w' = w_pub w @ [(conn_topic c, [as_delete_message c i])] \<and>
    (\<forall>j. hm_get (db_table w') j =
      (if j = i then map_option (\<lambda>t. t\<lparr>t_is_deleted := True\<rparr>) (hm_get (db_table w) i)
       else hm_get (db_table w) j)) \<and>
    (\<exists>old t. hm_get (mem_conns w) i = Some old \<and> \<not> c_is_deleted old \<and>
      hm_get (mem_conns w') i = Some (old\<lparr>c_is_deleted := True, c_modified_at := t\<rparr>)) \<and>
    (\<forall>j. j \<noteq> i \<longrightarrow> hm_get (mem_conns w') j = hm_get (mem_conns w) j) \<and>
    mem_subs w' = mem_subs w \<and> mem_nodes w' = mem_nodes w"
  using assms
proof (cases rule: delete_connection_cases)
  case (deleted old)
  then show ?thesis by (auto simp: pg_conn_delete_def ops_simps)
qed simp_all

lemma sample_delete:
  "delete_connection sample_ext 1 sample_conn sample_world =
     (Ret (Ok 1), snd (delete_connection sample_ext 1 sample_conn sample_world))"
proof -
  have "fst (delete_connection sample_ext 1 sample_conn sample_world) = Ret (Ok 1)"
    by (rule delete_connection_ok [of _ _ sample_conn]) simp_all
  then show ?thesis by (metis prod.collapse)
qed

theorem delete_connection_effect_witness:
  "w_pub (snd (delete_connection sample_ext 1 sample_conn sample_world)) =
     [(Updates Production, [as_delete_message sample_conn 1])]"
  using delete_connection_effect [OF sample_delete] by (simp add: conn_topic_def sample_conn_def)

text \<open>A deletion that fails, in the database or on the bus, leaves memory as it was and has
  published nothing; repeating it once the failure is over succeeds and publishes the message.\<close>

theorem delete_connection_retry:
  assumes "delete_connection x i c w = (Err e, w')"
    and "healthy_at x (w_tick w')" and "healthy_at x (w_tick w' + 1)"
  shows "w_mem w' = w_mem w \<and> w_pub w' = w_pub w \<and>
    fst (delete_connection x i c w') = Ret (Ok i) \<and>
    w_pub (snd (delete_connection x i c w')) = w_pub w @ [(conn_topic c, [as_delete_message c i])]"
proof -
  from assms(1) obtain old where old: "hm_get (mem_conns w) i = Some old" "\<not> c_is_deleted old"
      and same: "w_mem w' = w_mem w" "w_pub w' = w_pub w"
    by (cases rule: delete_connection_cases) auto
  have ok: "fst (delete_connection x i c w') = Ret (Ok i)"
    using delete_connection_ok [OF _ _ assms(2,3)] old same(1) by simp
  moreover have "w_pub (snd (delete_connection x i c w')) = w_pub w' @ [(conn_topic c, [as_delete_message c i])]"
    by (rule delete_cases [of w' i x c]) (use ok in auto)
  ultimately show ?thesis using same by simp
qed

text \<open>The first statement fails, nothing afterwards.\<close>

definition flaky_ext :: ext where
  "flaky_ext = sample_ext\<lparr>x_db_fails := (\<lambda>n. n = 0)\<rparr>"

theorem delete_connection_retry_witness:
  "fst (delete_connection flaky_ext 1 sample_conn sample_world) = Err (SDatabase Database) \<and>
   fst (delete_connection flaky_ext 1 sample_conn (snd (delete_connection flaky_ext 1 sample_conn sample_world)))
     = Ret (Ok 1)"
proof -
  let ?d = "delete_connection flaky_ext 1 sample_conn sample_world"
  have r: "?d = (Err (SDatabase Database), tick sample_world)"
    by (simp add: delete_connection_def run_db_def pg_conn_delete_def flaky_ext_def)
  have "healthy_at flaky_ext (w_tick (tick sample_world))" "healthy_at flaky_ext (w_tick (tick sample_world) + 1)"
    by (simp_all add: healthy_at_def flaky_ext_def sample_ext_def)
  from delete_connection_retry [OF r this] r show ?thesis by simp
qed

text \<open>Deleting again after a successful deletion does nothing and reports that nothing was
  modified, whatever connection value the caller passes.\<close>

lemma delete_connection_idempotent:
  assumes "delete_connection x i c w = (Ret (Ok i), w')"
  shows "delete_connection x i c2 w' = (Ret (NotModified i), w')"
proof -
  from assms obtain b where "hm_get (mem_conns w') i = Some b" "c_is_deleted b"
    by (cases rule: delete_connection_cases) (auto simp: ops_simps)
  then show ?thesis by (simp add: delete_connection_def)
qed

section \<open>Background rounds\<close>

lemma expired_conns_iff:
  "hm_wf m \<Longrightarrow> (i, c) \<in> set (expired_conns now m) \<longleftrightarrow> hm_get m i = Some c \<and>
     (\<exists>e. c_expires_at c = Some e \<and> e \<le> now) \<and> \<not> c_is_deleted c"
  using hm.filter_entries_iff [of m i c "\<lambda>(_, c). case c_expires_at c of
      Some e \<Rightarrow> e \<le> now \<and> \<not> c_is_deleted c | None \<Rightarrow> False"]
  by (auto simp: expired_conns_def split: option.splits)

lemma delete_all_published:
  assumes "healthy_from x (w_tick w)" and "distinct (map fst ics)"
    and "\<forall>(i, c) \<in> set ics. \<exists>a. hm_get (mem_conns w) i = Some a \<and> \<not> c_is_deleted a"
  shows "w_pub (delete_all x ics w) = w_pub w @ map (\<lambda>(i, c). (conn_topic c, [as_delete_message c i])) ics"
  using assms
proof (induction ics arbitrary: w)
  case (Cons ic ics)
  obtain i c where ic: "ic = (i, c)" by force
  let ?w = "snd (delete_connection x i c w)"
  obtain a where a: "hm_get (mem_conns w) i = Some a" "\<not> c_is_deleted a" using Cons.prems(3) ic by auto
  have ok: "fst (delete_connection x i c w) = Ret (Ok i)"
    by (rule delete_connection_ok [OF a]) (use Cons.prems(1) in \<open>simp_all add: healthy_from_def\<close>)
  have p: "w_pub ?w = w_pub w @ [(conn_topic c, [as_delete_message c i])]"
    by (rule delete_cases [of w i x c]) (use ok in auto)
  have h: "healthy_from x (w_tick ?w)"
    using Cons.prems(1) delete_connection_tick by (rule healthy_from_mono)
  have rest: "\<forall>(j, d) \<in> set ics. \<exists>b. hm_get (mem_conns ?w) j = Some b \<and> \<not> c_is_deleted b"
  proof (clarify)
    fix j d
    assume m: "(j, d) \<in> set ics"
    then have "j \<noteq> i" using Cons.prems(2) ic by force
    moreover from m Cons.prems(3) obtain b where "hm_get (mem_conns w) j = Some b" "\<not> c_is_deleted b"
      by auto
    ultimately show "\<exists>b. hm_get (mem_conns ?w) j = Some b \<and> \<not> c_is_deleted b"
      by (simp add: delete_connection_get)
  qed
  have "delete_all x (ic # ics) w = delete_all x ics ?w" by (simp add: delete_all_def ic)
  with Cons.IH [OF h _ rest] Cons.prems(2) p ic show ?case by simp
qed (simp add: delete_all_def)

text \<open>One round of \<open>cleanup_expired_connections\<close> in a healthy environment deletes every
  connection whose expiry has passed, publishes exactly one delete message for each of them that
  was not deleted before, and leaves every other connection as it is.\<close>

theorem cleanup_connections_round:
  assumes "healthy_from x (w_tick w)" and "hm_wf (mem_conns w)" and "hm_get (mem_conns w) i = Some c"
  shows "(if (\<exists>e. c_expires_at c = Some e \<and> e \<le> utc_now x w) \<and> \<not> c_is_deleted c
      then \<exists>c'. hm_get (mem_conns (cleanup_expired_connections x w)) i = Some c' \<and> c_is_deleted c' \<and>
             c_proto c' = c_proto c
      else hm_get (mem_conns (cleanup_expired_connections x w)) i = Some c) \<and>
    w_pub (cleanup_expired_connections x w) = w_pub w @
      map (\<lambda>(i, c). (conn_topic c, [as_delete_message c i])) (expired_conns (utc_now x w) (mem_conns w))"
proof -
  let ?ics = "expired_conns (utc_now x w) (mem_conns w)"
  let ?w' = "delete_all x ?ics (tick w)"
  have w': "cleanup_expired_connections x w = ?w'" by (simp add: cleanup_expired_connections_def Let_def)
  have h: "healthy_from x (w_tick (tick w))" using assms(1) by (rule healthy_from_mono) simp
  have d: "distinct (map fst ?ics)"
    unfolding expired_conns_def by (rule hm.distinct_filter_entries [OF assms(2)])
  have "\<forall>(i, c) \<in> set ?ics. \<exists>a. hm_get (mem_conns (tick w)) i = Some a \<and> \<not> c_is_deleted a"
    using expired_conns_iff [OF assms(2)] by auto
  from delete_all_published [OF h d this]
  have pub: "w_pub ?w' = w_pub w @ map (\<lambda>(i, c). (conn_topic c, [as_delete_message c i])) ?ics" by simp
  have "if (i, c) \<in> set ?ics
      then \<exists>c'. hm_get (mem_conns ?w') i = Some c' \<and> c_is_deleted c' \<and> c_proto c' = c_proto c
      else hm_get (mem_conns ?w') i = Some c"
  proof (cases "(i, c) \<in> set ?ics")
    case True
    obtain b where b: "hm_get (mem_conns ?w') i = Some b" "c_is_deleted b"
      using del.batch_done [OF h True] assms(3) by (auto simp: delete_all_def)
    moreover have "c_proto b = c_proto c"
      using del.batch_rel [of x ?ics "tick w" i] assms(3) b(1)
      by (auto simp: delete_all_def dest: marked_proto)
    ultimately show ?thesis using True by simp
  next
    case False
    then have "i \<notin> fst ` set ?ics"
      using expired_conns_iff [OF assms(2)] assms(3) by force
    with False assms(3) del.batch_other [of i ?ics x "tick w"] show ?thesis by (simp add: delete_all_def)
  qed
  with pub w' expired_conns_iff [OF assms(2), of i c] assms(3) show ?thesis by simp
qed

theorem cleanup_connections_round_witness:
  "\<exists>c'. hm_get (mem_conns (cleanup_expired_connections sample_ext sample_world)) 1 = Some c' \<and> c_is_deleted c'"
proof -
  have "\<exists>e. c_expires_at sample_conn = Some e \<and> e \<le> utc_now sample_ext sample_world"
    by (simp add: utc_now_def sample_ext_def sample_clock_def sample_conn_def sample_now_def)
  with cleanup_connections_round [of sample_ext sample_world 1 sample_conn] show ?thesis by auto
qed

lemma is_active_mono: "is_active t s \<Longrightarrow> t' \<le> t \<Longrightarrow> is_active t' s"
  by (auto simp: is_active_def split: option.splits)

lemma filter_subs_inactive:
  assumes "mono (x_clock x)" and "(i, s) \<in> set ss" and "\<not> is_active (utc_now x w) s"
  shows "i \<in> set (fst (filter_subs x Not ss w))"
proof -
  from assms(2) obtain k where k: "k < length ss" "ss ! k = (i, s)" by (auto simp: in_set_conv_nth)
  have "x_clock x (w_tick w) \<le> x_clock x (w_tick w + k)" using assms(1) by (simp add: mono_def)
  with assms(3) have "\<not> is_active (x_clock x (w_tick w + k)) s"
    by (auto simp: utc_now_def dest: is_active_mono)
  with k show ?thesis by (auto simp: filter_subs_iff)
qed

text \<open>C24. One round of \<open>cleanup_expired_subscriptions\<close> in a healthy environment leaves no undeleted
  connection of a subscription that is inactive when the round starts (the clock does not run
  backwards).\<close>

theorem cleanup_subscriptions_round:
  assumes "healthy_from x (w_tick w)" and "mono (x_clock x)" and "hm_wf (mem_conns w)"
    and "hm_get (mem_subs w) sub = Some s" and "\<not> is_active (utc_now x w) s"
    and "hm_get (mem_conns (cleanup_expired_subscriptions x w)) i = Some c"
    and "c_subscription_id c = Some sub"
  shows "c_is_deleted c"
proof -
  let ?f = "filter_subs x Not (mem_subs w) w"
  have "sub \<in> set (fst ?f)"
    using assms(4) by (intro filter_subs_inactive [OF assms(2) _ assms(5)]) (rule map_of_SomeD)
  moreover have "cleanup_expired_subscriptions x w =
      fold (\<lambda>s w. fold (\<lambda>(i, c) w. snd (delete_connection x i c w)) (conns_to_delete s (mem_conns w)) w)
        (fst ?f) (snd ?f)"
    by (simp add: cleanup_expired_subscriptions_def split_beta delete_all_def [abs_def])
  moreover have "healthy_from x (w_tick (snd ?f))"
    using assms(1) by (rule healthy_from_mono) (simp add: filter_subs_frame)
  moreover have "hm_wf (mem_conns (snd ?f))" using assms(3) by (simp add: filter_subs_frame)
  ultimately show ?thesis
    using sdel.subs_done [of "snd ?f" x sub "fst ?f" i c] assms(6,7) by simp
qed

definition expired_world :: world where
  "expired_world = sample_world\<lparr>w_mem := (w_mem sample_world)\<lparr>subscriptions := [(7, sample_expired)]\<rparr>\<rparr>"

lemma sample_clock_mono: "mono (x_clock sample_ext)"
  by (auto simp: mono_def sample_ext_def sample_clock_def)

theorem cleanup_subscriptions_round_witness:
  "\<exists>c. hm_get (mem_conns (cleanup_expired_subscriptions sample_ext expired_world)) 1 = Some c \<and> c_is_deleted c"
proof -
  let ?w = "cleanup_expired_subscriptions sample_ext expired_world"
  have m: "mem_conns expired_world = mem_conns sample_world" "w_tick expired_world = 0"
      "hm_get (mem_subs expired_world) 7 = Some sample_expired"
    by (simp_all add: expired_world_def)
  have ina: "\<not> is_active (utc_now sample_ext expired_world) sample_expired"
    by (simp add: is_active_def utc_now_def m sample_ext_def sample_clock_def sample_expired_def sample_sub_def
        sample_now_def day_def)
  have g: "hm_get (mem_conns expired_world) 1 = Some sample_conn" by (simp add: m)
  have "same_conns expired_world ?w" by (rule rounds_same)
  then have "hm_get (mem_conns ?w) 1 = Some sample_conn \<or>
      (\<exists>b f. hm_get (mem_conns ?w) 1 = Some b \<and> marked f sample_conn b)"
    using g unfolding same_conns_def by (metis option.inject)
  then obtain b where b: "hm_get (mem_conns ?w) 1 = Some b" "c_subscription_id b = Some 7"
    by (auto simp: sample_conn_def dest: marked_subscription)
  have "c_is_deleted b"
    by (rule cleanup_subscriptions_round [OF _ sample_clock_mono _ m(3) ina b]) (simp_all add: m)
  with b show ?thesis by blast
qed

text \<open>C25. One round of \<open>restore_subscriptions\<close> in a healthy environment undeletes every connection
  of a subscription that stays active during the round, also a connection that was deleted on
  request: the round does not know why a connection was deleted.\<close>

theorem restore_round_undeletes:
  assumes "healthy_from x (w_tick w)" and "hm_wf (mem_conns w)"
    and "(sub, s) \<in> set (mem_subs w)" and "\<forall>n. is_active (x_clock x n) s"
    and "hm_get (mem_conns (restore_subscriptions x w)) i = Some c" and "c_subscription_id c = Some sub"
  shows "\<not> c_is_deleted c"
proof -
  let ?f = "filter_subs x id (mem_subs w) w"
  from assms(3) obtain k where "k < length (mem_subs w)" "mem_subs w ! k = (sub, s)"
    by (auto simp: in_set_conv_nth)
  with assms(4) have "sub \<in> set (fst ?f)" by (auto simp: filter_subs_iff)
  moreover have "restore_subscriptions x w =
      fold (\<lambda>s w. fold (\<lambda>ic w. snd (restore_task x ic w)) (conns_to_restore s (mem_conns w)) w)
        (fst ?f) (snd ?f)"
    by (simp add: restore_subscriptions_def split_beta restore_by_subscription_fold [abs_def])
  moreover have "healthy_from x (w_tick (snd ?f))"
    using assms(1) by (rule healthy_from_mono) (simp add: filter_subs_frame)
  moreover have "hm_wf (mem_conns (snd ?f))" using assms(2) by (simp add: filter_subs_frame)
  ultimately show ?thesis
    using sres.subs_done [of "snd ?f" x sub "fst ?f" i c] assms(5,6) by simp
qed

text \<open>A clock that stands still, so that the sample subscription is active throughout.\<close>

definition still_ext :: ext where
  "still_ext = sample_ext\<lparr>x_clock := (\<lambda>_. sample_now)\<rparr>"

theorem restore_round_undeletes_witness:
  "\<exists>c. hm_get (mem_conns (restore_subscriptions still_ext
      (snd (delete_connection still_ext 1 sample_conn sample_world)))) 1 = Some c \<and> \<not> c_is_deleted c"
proof -
  let ?d = "snd (delete_connection still_ext 1 sample_conn sample_world)"
  have h: "healthy_from still_ext n" for n
    by (simp add: healthy_from_def healthy_at_def still_ext_def sample_ext_def)
  have a: "\<forall>n. is_active (x_clock still_ext n) sample_sub"
    by (simp add: is_active_def still_ext_def sample_sub_def day_def)
  have s: "(7, sample_sub) \<in> set (mem_subs ?d)" by simp
  have "same_conns sample_world (restore_subscriptions still_ext ?d)"
    by (rule same_conns_trans [OF delete_same rounds_same(3)])
  then have "hm_get (mem_conns (restore_subscriptions still_ext ?d)) 1 = Some sample_conn \<or>
      (\<exists>b f. hm_get (mem_conns (restore_subscriptions still_ext ?d)) 1 = Some b \<and> marked f sample_conn b)"
    unfolding same_conns_def by (metis map_of_Cons_code(2) option.inject sample_simps(1))
  then obtain b where b: "hm_get (mem_conns (restore_subscriptions still_ext ?d)) 1 = Some b"
      "c_subscription_id b = Some 7"
    by (auto simp: sample_conn_def dest: marked_subscription)
  have "\<not> c_is_deleted b"
    by (rule restore_round_undeletes [OF h _ s a b]) simp
  with b show ?thesis by blast
qed

section \<open>Reloading and reachable states\<close>

text \<open>C26. Reloading is all or nothing: on an error the memory is unchanged; on success the memory
  holds exactly the connections of the table, deleted ones included, and exactly the subscriptions
  that are not deleted.\<close>

theorem reload_all_or_nothing:
  assumes "get_state_from_db x w = (r, w')" and "db_wf (w_db w)" and "subs_wf (db_subs (w_db w))"
  shows "w_db w' = w_db w \<and> (case r of
      Inl _ \<Rightarrow> w_mem w' = w_mem w
    | Inr _ \<Rightarrow>
        (\<forall>i. hm_get (mem_conns w') i = None \<longleftrightarrow> hm_get (db_table w) i = None) \<and>
        (\<forall>i c. hm_get (mem_conns w') i = Some c \<longleftrightarrow> (\<exists>t. hm_get (db_table w) i = Some t \<and>
           conn_of_row (row_of_columns (x_v6_parse x) i t) = Inr c)) \<and>
        (\<forall>i s. hm_get (mem_subs w') i = Some s \<longleftrightarrow>
           hm_get (db_subs (w_db w)) i = Some s \<and> \<not> s_is_deleted s))"
  using assms(1)
proof (cases rule: get_state_cases)
  case (loaded ns cs ss rows)
  then have g: "get_state_from_db x w = (Inr (), w')" using assms(1) by simp
  have wf: "hm_wf (db_table w)" using assms(2) by (simp add: db_wf_def)
  show ?thesis
    using loaded(1,2) get_state_conns_dom [OF g wf] get_state_conns(2) [OF g wf] get_state_subs(2) [OF g assms(3)]
    by simp
qed simp

definition empty_db :: db where
  "empty_db = \<lparr>db_conns = [], db_subs = [], db_keys = [], db_nodes = [], db_inbounds = []\<rparr>"

definition empty_world :: world where
  "empty_world = \<lparr>w_mem = cache_new, w_db = empty_db, w_pub = [], w_tick = 0\<rparr>"

theorem reload_all_or_nothing_witness:
  "w_mem (snd (get_state_from_db flaky_ext sample_world)) = w_mem sample_world"
proof -
  have "fst (get_state_from_db flaky_ext sample_world) = Inl Database"
    by (simp add: get_state_from_db_def run_db_def pg_node_all_def flaky_ext_def)
  then have g: "get_state_from_db flaky_ext sample_world =
      (Inl Database, snd (get_state_from_db flaky_ext sample_world))" by (metis prod.collapse)
  have "db_wf sample_db" "subs_wf (db_subs sample_db)"
    by (simp_all add: db_wf_def sample_db_def row_of_def subs_wf_def sample_sub_def)
  with reload_all_or_nothing [OF g] show ?thesis by simp
qed

end
