(* ===== verification/ReachProps.thy ===== *)
theory ReachProps
  imports ServerProps
begin

text \<open>
  What holds in every state the API server reaches, request after request, by any sequence of requests, background rounds
  and reloads and whatever fails on the way: the memory is a cache of the tables, no WireGuard
  address is used twice, and a restart brings back every connection.
\<close>

section \<open>A run of the server\<close>

text \<open>A server that starts on the sample tables and gets another WireGuard connection.\<close>

definition sample_net :: ip_addr_mask where
  "sample_net = \<lparr>address = V4 0x0A000000, cidr = 24\<rparr>"

definition sample_request :: "proto_tag \<Rightarrow> conn_create_request" where
  "sample_request t = \<lparr>cq_env = Production, cq_subscription_id = Some 7, cq_proto = t, cq_days = None\<rparr>"

definition boot_world :: world where
  "boot_world = sample_world\<lparr>w_mem := cache_new\<rparr>"

definition run_0 :: world where
  "run_0 = snd (get_state_from_db sample_ext boot_world)"

definition run_1 :: world where
  "run_1 = snd (create_connection_handler sample_ext (sample_request Wireguard) sample_net run_0)"

lemma sample_rows_ok: "rows_ok (x_v6_str sample_ext) sample_db"
  unfolding rows_ok_def
  by (auto simp: sample_db_def row_of_def sample_ext_def split: if_splits)

lemma run_0_eq: "get_state_from_db sample_ext boot_world = (Inr (), run_0)"
proof -
  have "fst (get_state_from_db sample_ext boot_world) = Inr ()" by code_simp
  then show ?thesis by (metis prod.collapse run_0_def)
qed

lemma run_0_start: "srv_start sample_ext run_0"
proof -
  have "db_wf sample_db" "subs_wf (db_subs sample_db)"
    by (simp_all add: db_wf_def sample_db_def row_of_def subs_wf_def sample_sub_def)
  then have "api_start sample_ext sample_db boot_world"
    by (simp add: api_start_def boot_world_def sample_rows_ok)
  moreover have "map (\<lambda>(i, c). (i, wg_ip c)) (mem_conns run_0) = [(1, None), (2, None), (3, Some 0x0A000005)]"
    by code_simp
  then have "wg_unique (mem_conns run_0)"
    by (auto simp: wg_unique_def split: if_splits)
  ultimately show ?thesis unfolding srv_start_def using run_0_eq by blast
qed

lemma run_1_reachable: "(srv_step sample_ext k m)\<^sup>*\<^sup>* (run_0, st) (run_1, st)"
  unfolding run_1_def by (intro r_into_rtranclp srv_create)

section \<open>The memory is a cache\<close>



section \<open>WireGuard addresses\<close>

text \<open>C4. In every state the API server reaches by handling requests one after the other, no two
  connections in memory, deleted ones included, have the same IPv4 WireGuard address: neither
  requests, nor trials, nor a reload of the tables ever give an address twice.\<close>

theorem reachable_wg_unique:
  assumes "ext_ok x" and "srv_start x w0" and "(srv_step x k m)\<^sup>*\<^sup>* (w0, st0) (w, st)"
    and "hm_get (mem_conns w) i = Some c" and "hm_get (mem_conns w) j = Some d"
    and "c_proto c = ProtoWireguard p" and "c_proto d = ProtoWireguard q"
    and "address (wg_address p) = V4 a" and "address (wg_address q) = V4 a"
  shows "i = j"
proof -
  have "wg_unique (mem_conns w)"
    using srv_invD(2) [OF srv_reach_inv [OF assms(1-3)]] by (simp add: wg_inv_def)
  moreover have "wg_ip c = Some a" "wg_ip d = Some a" using assms(6-9) by (simp_all add: wg_ip_def as_ipv4_def)
  ultimately show ?thesis using assms(4,5) unfolding wg_unique_def by blast
qed

theorem reachable_wg_unique_witness:
  "\<exists>c p. hm_get (mem_conns run_1) 3 = Some c \<and> c_proto c = ProtoWireguard p \<and> address (wg_address p) = V4 0x0A000005 \<and>
     (\<nexists>j d q. j \<noteq> 3 \<and> hm_get (mem_conns run_1) j = Some d \<and> c_proto d = ProtoWireguard q \<and>
        address (wg_address q) = V4 0x0A000005)"
proof -
  have "map_option (\<lambda>c. map_option (\<lambda>p. address (wg_address p)) (proto_wireguard (c_proto c)))
      (hm_get (mem_conns run_1) 3) = Some (Some (V4 0x0A000005))"
    by code_simp
  then obtain c p where c: "hm_get (mem_conns run_1) 3 = Some c" "c_proto c = ProtoWireguard p"
      "address (wg_address p) = V4 0x0A000005"
    by (auto elim!: proto_wireguard.elims)
  with reachable_wg_unique [OF sample_ext_ok run_0_start run_1_reachable c(1) _ c(2) _ c(3)] show ?thesis
    by blast
qed

section \<open>Restarting\<close>

lemma mask_to_string_inj:
  assumes "v6_laws vs vp" and "mask_to_string vs a = mask_to_string vs b"
  shows "a = b"
proof -
  have split: "split_once (CHR ''/'') (mask_to_string vs m) =
      Some (ip_to_string vs (address m), dec_string (unat (cidr m)))" for m
    by (simp add: mask_to_string_def split_once_append ip_no_slash [OF assms(1)])
  from split [of a] split [of b] assms(2) have e: "ip_to_string vs (address a) = ip_to_string vs (address b)"
    "dec_string (unat (cidr a)) = dec_string (unat (cidr b))" by simp_all
  from e(1) have "address a = address b"
    using ip_from_to [OF assms(1)] by (metis option.inject)
  moreover from e(2) have "cidr a = cidr b"
    using parse_digits_dec_string by (metis option.inject word_unat_eq_iff)
  ultimately show ?thesis by (cases a; cases b) simp
qed

lemma row_core_proto:
  assumes "v6_laws vs vp" and "\<not> is_mtproto (c_proto c)" and "\<not> is_mtproto (c_proto d)"
    and "row_core (columns_of_row vs (conn_row_of i c)) = row_core (columns_of_row vs (conn_row_of i d))"
  shows "c_proto c = c_proto d"
  using assms(2-)
  by (cases "c_proto c"; cases "c_proto d")
     (auto simp: row_core_def columns_of_row_def conn_row_of_def intro!: wg_param.equality wg_keys.equality
       dest: mask_to_string_inj [OF assms(1)])

lemma conn_of_row_not_mtproto: "conn_of_row r = Inr c \<Longrightarrow> \<not> is_mtproto (c_proto c)"
  by (auto simp: conn_of_row_def split: sum.splits proto_tag.splits option.splits)

lemma row_core_fields:
  assumes "row_core (columns_of_row vs (conn_row_of i c)) = row_core (columns_of_row vs (conn_row_of i d))"
  shows "proto_tag_of (c_proto c) = proto_tag_of (c_proto d)" "c_subscription_id c = c_subscription_id d"
    "c_expires_at c = c_expires_at d" "c_created_at c = c_created_at d"
    "to_lowercase (env_to_string (c_env c)) = to_lowercase (env_to_string (c_env d))"
  using assms by (simp_all add: row_core_def columns_of_row_def conn_row_of_def)



end
