(* ===== verification/BillingProps.thy ===== *)
theory BillingProps
  imports ReachProps
begin

text \<open>
  Subscriptions, keys and trials: what adding days does to memory and database and when they part,
  that a key and a trial are good for one use, and what creating a connection leaves behind.
\<close>

section \<open>Adding days\<close>

lemma restore_by_subscription_frame:
  "mem_subs (snd (restore_connections_by_subscription x i w)) = mem_subs w \<and>
   db_subs (w_db (snd (restore_connections_by_subscription x i w))) = db_subs (w_db w) \<and>
   db_keys (w_db (snd (restore_connections_by_subscription x i w))) = db_keys (w_db w)"
proof -
  have "mem_subs (snd (restore_task x ic w)) = mem_subs w \<and>
      db_subs (w_db (snd (restore_task x ic w))) = db_subs (w_db w) \<and>
      db_keys (w_db (snd (restore_task x ic w))) = db_keys (w_db w)" for ic w
    by (cases ic, simp, rule restore_task_elim [where x = x and i = "fst ic" and c = "snd ic" and w = w])
       (auto simp: pg_conn_restore_def)
  then have "mem_subs (fold (\<lambda>ic w. snd (restore_task x ic w)) ics w) = mem_subs w \<and>
      db_subs (w_db (fold (\<lambda>ic w. snd (restore_task x ic w)) ics w)) = db_subs (w_db w) \<and>
      db_keys (w_db (fold (\<lambda>ic w. snd (restore_task x ic w)) ics w)) = db_keys (w_db w)" for ics
    by (induction ics arbitrary: w) simp_all
  then show ?thesis by (simp add: restore_by_subscription_fold)
qed

text \<open>A successful extension, in terms of the events it consumes.\<close>

lemma add_days_success:
  assumes "add_days x i days w = (Ret st, w')" and "hm_get (mem_subs w) i = Some s"
  obtains e row e' v where
    "extended_expiry (x_plus_days x) (x_clock x (w_tick w + 1)) days (s_expires_at s) = Some e"
    "hm_get (db_subs (w_db w)) i = Some row"
    "extended_expiry (x_plus_days x) (x_clock x (w_tick w + 4)) days (s_expires_at row) = Some e'"
    "st = Updated (s_id row)"
    "mem_subs w' = hm_insert i (snd (set_sub_expires_at (x_clock x (w_tick w + 2)) (x_clock x (w_tick w + 3)) e s))
       (mem_subs w)"
    "db_subs (w_db w') = hm_insert i (row\<lparr>s_expires_at := Some e', s_updated_at := x_clock x (w_tick w + 4)\<rparr>)
       (db_subs (w_db w))"
    "db_keys (w_db w') = db_keys (w_db w)"
    "mem_conns v = mem_conns w" "w_tick v = w_tick w + 6"
    "w' = (if is_active (x_clock x (w_tick w)) s then v else snd (restore_connections_by_subscription x i v))"
proof -
  let ?w = "tick (tick w)"
  obtain e where e: "extended_expiry (x_plus_days x) (x_clock x (w_tick w + 1)) days (s_expires_at s) = Some e"
    using assms by (auto simp: add_days_def Let_def utc_now_def split: option.splits)
  let ?s = "snd (set_sub_expires_at (x_clock x (w_tick w + 2)) (x_clock x (w_tick w + 3)) e s)"
  let ?v = "tick (tick (set_subs (hm_insert i ?s (mem_subs ?w)) ?w))"
  obtain r u where q: "run_db x (\<lambda>fails now. pg_sub_add_days fails (x_db_fails x (Suc (w_tick ?v)))
      (x_plus_days x) now i days) ?v = (r, u)" by force
  from q assms e have w': "w' = (if is_active (x_clock x (w_tick w)) s then tick u
      else snd (restore_connections_by_subscription x i (tick u)))" and r: "\<exists>row. r = Ret row \<and> st = Updated (s_id row)"
    by (auto simp: add_days_def Let_def utc_now_def numeral_eq_Suc split: outcome.splits)
  from run_dbD [OF q] r obtain row e' where
    row: "hm_get (db_subs (w_db w)) i = Some row"
      "extended_expiry (x_plus_days x) (x_clock x (w_tick w + 4)) days (s_expires_at row) = Some e'"
      "st = Updated (s_id row)"
      "w_db u = (w_db w)\<lparr>db_subs := hm_insert i (row\<lparr>s_expires_at := Some e', s_updated_at := x_clock x (w_tick w + 4)\<rparr>)
         (db_subs (w_db w))\<rparr>"
    by (auto simp: pg_sub_add_days_def extended_expiry_def Let_def numeral_eq_Suc split: if_splits option.splits)
  have m: "w_mem u = w_mem ?v" "w_tick u = w_tick w + 5" using run_dbD [OF q] by simp_all
  show ?thesis
  proof (rule that [OF e row(1-3), of "tick u"])
    show "mem_subs w' = hm_insert i ?s (mem_subs w)"
      using restore_by_subscription_frame [of x i "tick u"] by (simp add: w' m)
    show "db_subs (w_db w') = hm_insert i (row\<lparr>s_expires_at := Some e', s_updated_at := x_clock x (w_tick w + 4)\<rparr>)
        (db_subs (w_db w))"
      using restore_by_subscription_frame [of x i "tick u"] by (simp add: w' row(4))
    show "db_keys (w_db w') = db_keys (w_db w)"
      using restore_by_subscription_frame [of x i "tick u"] by (simp add: w' row(4))
  qed (simp_all add: w' m)
qed

text \<open>The expiry a subscriber expects: the days count from the old expiry, or from now where that
  has passed or there is none.\<close>

definition prolonged :: "datetime \<Rightarrow> int \<Rightarrow> datetime option \<Rightarrow> datetime" where
  "prolonged now days old = (case old of Some e \<Rightarrow> max e now | None \<Rightarrow> now) + days * day"

lemma extended_expiry_prolonged:
  "plus_days_laws pd \<Longrightarrow> extended_expiry pd now days old = Some e \<Longrightarrow> e = prolonged now days old"
  by (auto simp: extended_expiry_def prolonged_def plus_days_laws_def max_def split: option.splits if_splits)

text \<open>C19. Adding days that reports success has extended the subscription in memory and its row, each
  from its own old expiry or from the current time where that is later, and no other subscription;
  where it was inactive and nothing fails, none of its connections stays deleted.\<close>

theorem add_days_extends:
  assumes "plus_days_laws (x_plus_days x)" and "0 < days"
    and "add_days x i days w = (Ret st, w')" and "hm_get (mem_subs w) i = Some s"
    and "x_clock x (w_tick w + 2) < x_clock x (w_tick w + 1) + day"
  shows "map_option s_expires_at (hm_get (mem_subs w') i) =
      Some (Some (prolonged (x_clock x (w_tick w + 1)) days (s_expires_at s))) \<and>
    (\<exists>row. hm_get (db_subs (w_db w)) i = Some row \<and> st = Updated (s_id row) \<and>
      map_option s_expires_at (hm_get (db_subs (w_db w')) i) =
        Some (Some (prolonged (x_clock x (w_tick w + 4)) days (s_expires_at row)))) \<and>
    (\<forall>j. j \<noteq> i \<longrightarrow> hm_get (mem_subs w') j = hm_get (mem_subs w) j \<and>
      hm_get (db_subs (w_db w')) j = hm_get (db_subs (w_db w)) j) \<and>
    (healthy_from x (w_tick w) \<and> hm_wf (mem_conns w) \<and> \<not> is_active (utc_now x w) s \<longrightarrow>
      (\<forall>j c. hm_get (mem_conns w') j = Some c \<and> c_subscription_id c = Some i \<longrightarrow> \<not> c_is_deleted c))"
  using assms(3,4)
proof (cases rule: add_days_success)
  case (1 e row e' v)
  have e: "e = prolonged (x_clock x (w_tick w + 1)) days (s_expires_at s)"
    by (rule extended_expiry_prolonged [OF assms(1) 1(1)])
  have "x_clock x (w_tick w + 1) + day \<le> e"
    using assms(2) mult_right_mono [of 1 days day]
    by (auto simp: e prolonged_def day_def split: option.split)
  with assms(5) have m: "snd (set_sub_expires_at (x_clock x (w_tick w + 2)) (x_clock x (w_tick w + 3)) e s) =
      s\<lparr>s_expires_at := Some e, s_updated_at := x_clock x (w_tick w + 3)\<rparr>"
    by (simp add: set_sub_expires_at_def)
  have undel: "\<not> c_is_deleted c" if "healthy_from x (w_tick w)" "hm_wf (mem_conns w)" "\<not> is_active (utc_now x w) s"
      "hm_get (mem_conns w') j = Some c" "c_subscription_id c = Some i" for j c
  proof -
    have "healthy_from x (w_tick v)" using that(1) by (rule healthy_from_mono) (simp add: 1)
    moreover have "hm_wf (mem_conns v)" using that(2) by (simp add: 1)
    moreover have "hm_get (mem_conns (fold (\<lambda>ic w. snd (restore_task x ic w)) (conns_to_restore i (mem_conns v)) v)) j = Some c"
      using that(3,4) by (simp add: 1(10) restore_by_subscription_fold utc_now_def)
    ultimately show ?thesis using sres.sub_done [of v x i j c] that(5) by simp
  qed
  show ?thesis
    using 1(2,4) extended_expiry_prolonged [OF assms(1) 1(3)] undel
    unfolding 1(5,6) m by (auto simp: e)
qed

lemma sample_add_days:
  "add_days sample_ext 7 30 expired_world = (Ret (Updated 7), snd (add_days sample_ext 7 30 expired_world))"
proof -
  have "fst (add_days sample_ext 7 30 expired_world) = Ret (Updated 7)" by code_simp
  then show ?thesis by (metis prod.collapse)
qed

theorem add_days_extends_witness:
  "map_option s_expires_at (hm_get (mem_subs (snd (add_days sample_ext 7 30 expired_world))) 7) =
     Some (Some (sample_now + 10 ^ 9 + 30 * day)) \<and>
   (\<nexists>c. hm_get (mem_conns (snd (add_days sample_ext 7 30 expired_world))) 2 = Some c \<and>
     c_subscription_id c = Some 7 \<and> c_is_deleted c)"
proof -
  have s: "hm_get (mem_subs expired_world) 7 = Some sample_expired" "w_tick expired_world = 0"
      "hm_wf (mem_conns expired_world)"
    by (simp_all add: expired_world_def)
  have c: "x_clock sample_ext n = sample_now + int n * 10 ^ 9" for n
    by (simp add: sample_ext_def sample_clock_def sample_now_def)
  have "\<not> is_active (utc_now sample_ext expired_world) sample_expired"
    by (simp add: is_active_def utc_now_def s c sample_expired_def day_def)
  moreover have "plus_days_laws (x_plus_days sample_ext)"
    using sample_plus_days_laws by (simp add: sample_ext_def)
  ultimately show ?thesis
    using add_days_extends [of sample_ext 30, OF _ _ sample_add_days s(1)] s
    by (simp add: c day_def prolonged_def sample_expired_def)
qed

text \<open>C36. Taking days away (a key may carry a negative number of days) can make memory and database
  disagree: where the new expiry lies in the past, the row gets it, while the subscription in
  memory is left as it was and stays active; the operation still reports success.\<close>

theorem add_days_diverges:
  assumes "plus_days_laws (x_plus_days x)" and "add_days x i days w = (Ret st, w')"
    and "hm_get (mem_subs w) i = Some s" and "s_expires_at s = Some e"
    and "hm_get (db_subs (w_db w)) i = Some row" and "s_expires_at row = Some e"
    and "\<forall>n \<le> 4. x_clock x (w_tick w + n) < e" and "\<forall>n \<le> 4. e + days * day \<le> x_clock x (w_tick w + n)"
  shows "hm_get (mem_subs w') i = Some s \<and>
    map_option s_expires_at (hm_get (db_subs (w_db w')) i) = Some (Some (e + days * day))"
  using assms(2,3)
proof (cases rule: add_days_success)
  case (1 a row' b v)
  have lt: "x_clock x (w_tick w + 1) < e" "x_clock x (w_tick w + 4) < e"
    and ge: "e + days * day \<le> x_clock x (w_tick w + 2)"
    using assms(7) [rule_format, of 1] assms(7) [rule_format, of 4] assms(8) [rule_format, of 2] by simp_all
  have "a = e + days * day" "b = e + days * day"
    using extended_expiry_prolonged [OF assms(1) 1(1)] extended_expiry_prolonged [OF assms(1) 1(3)] assms(4-6) 1(2) lt
    by (simp_all add: prolonged_def)
  with 1(5,6) ge show ?thesis by (simp add: set_sub_expires_at_def)
qed

theorem add_days_diverges_witness:
  "hm_get (mem_subs (snd (add_days still_ext 7 (- 1000) sample_world))) 7 = Some sample_sub \<and>
   map_option s_expires_at (hm_get (db_subs (w_db (snd (add_days still_ext 7 (- 1000) sample_world)))) 7) =
     Some (Some sample_now)"
proof -
  have "fst (add_days still_ext 7 (- 1000) sample_world) = Ret (Updated 7)" by code_simp
  then have a: "add_days still_ext 7 (- 1000) sample_world =
      (Ret (Updated 7), snd (add_days still_ext 7 (- 1000) sample_world))" by (metis prod.collapse)
  show ?thesis
    using add_days_diverges [OF _ a, of sample_sub "sample_now + 1000 * day" sample_sub] sample_plus_days_laws
    by (simp add: still_ext_def sample_ext_def sample_sub_def sample_db_def day_def)
qed

text \<open>C37. \<open>update_sub\<close> changes the memory before it writes the table: when the statement fails, the
  request's changes stay in memory although the operation reports an error, and the tables do not
  have them.\<close>

theorem update_sub_error_keeps_change:
  assumes "update_sub x i req w = (Err (SDatabase e), w')"
  shows "w_db w' = w_db w \<and> (\<exists>s s'. hm_get (mem_subs w) i = Some s \<and>
    apply_sub_req (x_plus_days x) (utc_now x w) req s = Some s' \<and> hm_get (mem_subs w') i = Some s')"
proof -
  from assms obtain s s' where s: "hm_get (mem_subs w) i = Some s"
      "apply_sub_req (x_plus_days x) (utc_now x w) req s = Some s'"
    by (auto simp: update_sub_def split: option.splits)
  with assms show ?thesis
    by (auto simp: update_sub_def Let_def run_db_def pg_sub_update_def tick_def
        split: option.splits if_splits prod.splits)
qed

definition sample_req :: sub_req where
  "sample_req = \<lparr>q_referred_by = None, q_refer_code = None, q_days = Some 10, q_limit_bytes = None\<rparr>"

definition broken_ext :: ext where
  "broken_ext = sample_ext\<lparr>x_db_fails := (\<lambda>_. True)\<rparr>"

theorem update_sub_error_keeps_change_witness:
  "\<exists>s'. hm_get (mem_subs (snd (update_sub broken_ext 7 sample_req sample_world))) 7 = Some s' \<and>
     s_expires_at s' = Some (sample_now + 1010 * day) \<and>
   w_db (snd (update_sub broken_ext 7 sample_req sample_world)) = sample_db"
proof -
  have "fst (update_sub broken_ext 7 sample_req sample_world) = Err (SDatabase Database)" by code_simp
  then have u: "update_sub broken_ext 7 sample_req sample_world =
      (Err (SDatabase Database), snd (update_sub broken_ext 7 sample_req sample_world))" by (metis prod.collapse)
  have "apply_sub_req (x_plus_days broken_ext) (utc_now broken_ext sample_world) sample_req sample_sub =
      Some (sample_sub\<lparr>s_expires_at := Some (sample_now + 1010 * day), s_updated_at := sample_now\<rparr>)"
    by (simp add: apply_sub_req_def sample_req_def broken_ext_def sample_ext_def Subs.extend_def sample_plus_days_def
        sample_sub_def utc_now_def sample_clock_def sample_now_def)
  with update_sub_error_keeps_change [OF u] show ?thesis by auto
qed

section \<open>Keys\<close>

text \<open>Rows of the table \<open>keys\<close> sit under their identifier.\<close>

definition keys_wf :: "db \<Rightarrow> bool" where
  "keys_wf d = (hm_wf (db_keys d) \<and> (\<forall>(i, k) \<in> set (db_keys d). k_id k = i))"

lemma find_update:
  assumes "hm_wf m" and "\<forall>(i, k) \<in> set m. k_id k = i" and "List.find (\<lambda>k. k_code k = code) (map snd m) = Some ky"
    and "k_code (f ky) = code"
  shows "List.find (\<lambda>k. k_code k = code) (map snd (hm_modify (k_id ky) f m)) = Some (f ky)"
  using assms
proof (induction m)
  case (Cons e m)
  obtain i k where e: "e = (i, k)" by force
  show ?case
  proof (cases "k_code k = code")
    case True
    with Cons.prems e show ?thesis by (simp add: hm_modify_def)
  next
    case False
    with Cons.prems e have fm: "List.find (\<lambda>k. k_code k = code) (map snd m) = Some ky" by simp
    then have "ky \<in> snd ` set m" by (auto simp: find_Some_iff intro: imageI nth_mem)
    with Cons.prems(2) e have "k_id ky \<in> fst ` set m" by force
    with Cons.prems(1) e have "k_id ky \<noteq> i" by auto
    with Cons.IH [OF _ _ fm Cons.prems(4)] Cons.prems False e show ?thesis
      by (auto simp: hm_modify_def split: option.splits)
  qed
qed simp

text \<open>What a successful activation did.\<close>

lemma activate_success:
  assumes "post_activate_key_handler x code i w = (Ret r, w')" and "r_status r = 200"
  obtains ky v st w1 t where "pg_key_get False code (w_db w) = Some ky" "\<not> k_activated ky"
    "add_days x i (sint (k_days ky)) w1 = (Ret (Updated st), v)" "w1 = tick w"
    "w_db w' = snd (pg_key_activate False t (key_activate (utc_now x v) i ky) (w_db v))"
    "w_mem w' = w_mem v"
proof -
  obtain o1 w1 where g: "run_db x (\<lambda>fails _ d. (pg_key_get fails code d, d)) w = (o1, w1)" by force
  then have w1: "w1 = tick w" and o1: "o1 = pg_key_get (x_db_fails x (w_tick w)) code (w_db w)"
    by (auto simp: run_db_def)
  from g assms obtain ky where ky: "o1 = Some ky" "\<not> k_activated ky"
    by (auto simp: post_activate_key_handler_def not_found_def bad_request_def split: option.splits if_splits)
  obtain q v where a: "add_days x i (sint (k_days ky)) w1 = (q, v)" by force
  from g ky a assms obtain st where q: "q = Ret (Updated st)"
    by (auto simp: post_activate_key_handler_def reply_defs split: outcome.splits status.splits)
  have o: "pg_key_get False code (w_db w) = Some ky"
    using ky(1) o1 by (auto simp: pg_key_get_def split: if_splits)
  show ?thesis
    by (rule that [OF o ky(2) a [unfolded q] w1, of "x_clock x (Suc (w_tick v))"])
       (use g ky a q assms in \<open>auto simp: post_activate_key_handler_def reply_defs Let_def run_db_def
         pg_key_activate_def tick_def split: if_splits\<close>)
qed

lemma add_days_keys: "db_keys (w_db (snd (add_days x i days w))) = db_keys (w_db w)"
proof -
  have pk: "db_keys (snd (pg_sub_add_days f g pd t i n d)) = db_keys d" for f g pd t n d
    by (simp add: pg_sub_add_days_def Let_def split: option.split)
  show ?thesis
    using restore_by_subscription_frame [of x i]
    by (auto simp: add_days_def Let_def split_beta pk split: option.split outcome.split)
qed


lemma sample_activation:
  "\<exists>r. post_activate_key_handler sample_ext ''CODE'' 7 sample_world =
     (Ret r, snd (post_activate_key_handler sample_ext ''CODE'' 7 sample_world)) \<and> r_status r = 200"
proof -
  have "(case fst (post_activate_key_handler sample_ext ''CODE'' 7 sample_world) of Ret r \<Rightarrow> r_status r | _ \<Rightarrow> 0) = 200"
    by code_simp
  then show ?thesis by (auto simp: prod_eq_iff split: outcome.splits)
qed


text \<open>C38. The days are added before the key is marked: when marking fails, the request is answered
  with an error, yet the subscription has been extended and the key can be used again.\<close>

theorem key_error_keeps_days:
  assumes "post_activate_key_handler x code i w =
      (Ret (bad_request (''Key activation failed: '' @ msg)), w')"
  shows "\<exists>ky st v. pg_key_get False code (w_db w) = Some ky \<and>
    add_days x i (sint (k_days ky)) (tick w) = (Ret (Updated st), v) \<and>
    w_mem w' = w_mem v \<and> w_db w' = w_db v \<and>
    pg_key_get False code (w_db w') = Some ky \<and> \<not> k_activated ky"
proof -
  obtain o1 w1 where g: "run_db x (\<lambda>fails _ d. (pg_key_get fails code d, d)) w = (o1, w1)" by force
  then have w1: "w1 = tick w" and o1: "o1 = pg_key_get (x_db_fails x (w_tick w)) code (w_db w)"
    by (auto simp: run_db_def)
  from g assms obtain ky where ky: "o1 = Some ky" "\<not> k_activated ky"
    by (auto simp: post_activate_key_handler_def not_found_def bad_request_def split: option.splits if_splits)
  obtain q v where a: "add_days x i (sint (k_days ky)) w1 = (q, v)" by force
  from g ky a assms obtain st where q: "q = Ret (Updated st)"
    by (auto simp: post_activate_key_handler_def reply_defs split: outcome.splits status.splits)
  have o: "pg_key_get False code (w_db w) = Some ky"
    using ky(1) o1 by (auto simp: pg_key_get_def split: if_splits)
  have w': "w_mem w' = w_mem v \<and> w_db w' = w_db v"
    using g ky a q assms by (auto simp: post_activate_key_handler_def reply_defs Let_def run_db_def
         pg_key_activate_def tick_def split: if_splits)
  have "db_keys (w_db v) = db_keys (w_db w)" using add_days_keys [of x i "sint (k_days ky)" w1] a w1 by simp
  with o ky(2) a q w1 w' show ?thesis by (auto simp: pg_key_get_def)
qed

text \<open>Only the last statement fails.\<close>

definition late_ext :: ext where
  "late_ext = sample_ext\<lparr>x_db_fails := (\<lambda>n. n = 8)\<rparr>"

theorem key_error_keeps_days_witness:
  "\<exists>ky. pg_key_get False ''CODE'' (w_db (snd (post_activate_key_handler late_ext ''CODE'' 7 sample_world))) = Some ky \<and>
     \<not> k_activated ky"
proof -
  have "fst (post_activate_key_handler late_ext ''CODE'' 7 sample_world) =
      Ret (bad_request (''Key activation failed: '' @ ''error''))"
    by code_simp
  then have h: "post_activate_key_handler late_ext ''CODE'' 7 sample_world =
      (Ret (bad_request (''Key activation failed: '' @ ''error'')),
       snd (post_activate_key_handler late_ext ''CODE'' 7 sample_world))"
    by (metis prod.collapse)
  from key_error_keeps_days [OF h] show ?thesis by blast
qed

section \<open>Trials\<close>

lemma save_trial_check:
  "check_email_hmac m e (snd (save_trial x m (Some e) i t r ws))"
  "check_email_hmac m e (snd ws) \<Longrightarrow> check_email_hmac m e (snd (save_trial x m who i t r ws))"
  by (auto simp: save_trial_def save_trial_hmac_def check_email_hmac_def Let_def split: option.splits)

lemma trial_success:
  assumes "post_trial_handler x m cfg req (w, st) = (Ret r, w', st')" and "r_status r = 200"
  shows "\<not> trial_requested m req st"
    and "\<exists>v i t rb. save_trial x m (tr_email req) i t rb (save_trial x m (tr_user req) i t rb (v, st)) = (w', st')"
  using assms
  by (auto simp: post_trial_handler_def reply_defs Let_def split: if_splits option.splits prod.splits outcome.splits
      status.splits)


definition trial_mail :: mail_ext where
  "trial_mail = \<lparr>hmac_hex = (\<lambda>s. s), to_rfc3339 = (\<lambda>_. ''2001''), parse_datetime = (\<lambda>_. Some 0), io_fails = (\<lambda>_. False)\<rparr>"

definition sample_trial_config :: trial_config where
  "sample_trial_config = \<lparr>tc_network = sample_net, tc_system_codes = [], tc_envs = [Production], tc_protos = [Hysteria2],
     tc_days = 3, tc_bonus = 7, tc_limit_bytes = 1000\<rparr>"

definition sample_trial :: trial_req where
  "sample_trial = \<lparr>tr_user = None, tr_email = Some ''a'', tr_referred_by = Some ''abc''\<rparr>"

definition empty_store :: email_store where
  "empty_store = \<lparr>es_store = [], es_file = None\<rparr>"


section \<open>Creating connections\<close>

text \<open>The connection a request asks for.\<close>

definition asked_for :: "conn_create_request \<Rightarrow> conn \<Rightarrow> bool" where
  "asked_for req c = (c_env c = cq_env req \<and> proto_tag_of (c_proto c) = cq_proto req \<and>
     c_subscription_id c = cq_subscription_id req \<and> \<not> c_is_deleted c)"

lemma new_proto_tag: "new_proto x net tag w = (Inr p, w') \<Longrightarrow> proto_tag_of p = tag"
  by (auto simp: new_proto_def split: proto_tag.splits sum.splits)

lemma announce_frame:
  assumes "announce x i c w = (q, w')"
  shows "w_mem w' = w_mem w" "w_db w' = w_db w"
    "w_pub w' = w_pub w \<or> (\<exists>t. create_topic c = Some t \<and> w_pub w' = w_pub w @ [(t, [as_create_message c i])])"
    "q = Inr () \<Longrightarrow> \<not> x_send_fails x (w_tick w) \<Longrightarrow>
       w_pub w' = w_pub w @ (case create_topic c of Some t \<Rightarrow> [(t, [as_create_message c i])] | None \<Rightarrow> [])"
  using assms by (auto simp: announce_def publish_def tick_def split: option.splits if_splits)

lemma add_conn_ok:
  assumes "add_conn x i c w = (Ret (Ok j), w')" and "coherent w"
  shows "j = i" "hm_get (mem_conns w) i = None" "hm_get (mem_conns w') i = Some c"
    "hm_get (db_table w') i = Some (columns_of_row (x_v6_str x) (conn_row_of i c))"
    "w_pub w' = w_pub w" "\<And>k. k \<noteq> i \<Longrightarrow> hm_get (mem_conns w') k = hm_get (mem_conns w) k"
proof -
  have n: "hm_get (db_table w) i = None"
    using assms(1) by (auto simp: add_conn_def run_db_def pg_conn_insert_def conn_row_of_def split: if_splits option.splits)
  with assms(2) have m: "hm_get (mem_conns w) i = None" by (simp add: coherent_def)
  with n assms(1) show "j = i" "hm_get (mem_conns w') i = Some c"
    "hm_get (db_table w') i = Some (columns_of_row (x_v6_str x) (conn_row_of i c))"
    "w_pub w' = w_pub w" "\<And>k. k \<noteq> i \<Longrightarrow> hm_get (mem_conns w') k = hm_get (mem_conns w) k"
    by (auto simp: add_conn_def run_db_def pg_conn_insert_def conn_row_of_def conns_add_def tick_def
        split: if_splits option.splits)
  show "hm_get (mem_conns w) i = None" by (rule m)
qed

lemma create_success:
  assumes "create_connection_handler x req net w = (Ret r, w')" and "r_status r = 200"
  obtains e p c i w4 where "sub_check x (cq_subscription_id req) (tick w) = None"
    "new_proto x net (cq_proto req) (tick (tick w)) = (Inr p, tick (tick (tick w)))"
    "c = conn_new (x_clock x (w_tick w + 3)) (cq_env req) (cq_subscription_id req) p e"
    "add_conn x i c (tick (tick (tick (tick (tick w))))) = (Ret (Ok i), w4)"
    "announce x i c w4 = (Inr (), w')" "r_response r = Some (i, IConnection c)"
proof -
  let ?w2 = "tick (tick w)" and ?i = "x_new_uuid x (w_tick w + 4)"
  from assms obtain e where e: "requested_expiry (x_plus_days x) (utc_now x w) (map_option uint (cq_days req)) = Some e"
    by (auto simp: create_connection_handler_def split: option.splits)
  with assms have sc: "sub_check x (cq_subscription_id req) (tick w) = None"
    by (auto simp: create_connection_handler_def sub_check_def reply_defs split: option.splits if_splits)
  obtain pr w3 where np: "new_proto x net (cq_proto req) ?w2 = (pr, w3)" by force
  then have w3: "w3 = tick ?w2" using new_proto_tick [of x net "cq_proto req" ?w2] by simp
  from e sc np assms obtain p where p: "pr = Inr p"
    by (auto simp: create_connection_handler_def reply_defs split: sum.splits)
  let ?c = "conn_new (x_clock x (w_tick w + 3)) (cq_env req) (cq_subscription_id req) p e"
  obtain st w4 where ac: "add_conn x ?i ?c (tick (tick (tick ?w2))) = (st, w4)" by force
  note run = e sc np w3 p ac and defs = create_connection_handler_def Let_def utc_now_def numeral_eq_Suc reply_defs
  from run assms obtain j where j: "st = Ret (Ok j)"
    by (cases st) (auto simp: defs split: status.splits)
  have "j = ?i" using ac j by (auto simp: add_conn_def conns_add_def split: prod.splits sum.splits option.splits)
  obtain q w5 where an: "announce x ?i ?c w4 = (q, w5)" by force
  from run assms j an obtain u where q: "q = Inr u" by (cases q) (auto simp: defs)
  from run assms j an q have r: "w5 = w'" "r_response r = Some (j, IConnection ?c)"
    by (auto simp: defs)
  show ?thesis
    by (rule that [OF sc _ refl, of p ?i e w4]) (use np w3 p ac j an q r \<open>j = ?i\<close> in simp_all)
qed

lemma create_effect:
  assumes "create_connection_handler x req net w = (Ret r, w')" and "r_status r = 200" and "coherent w"
  shows "\<exists>i c. r_response r = Some (i, IConnection c) \<and> asked_for req c \<and> hm_get (mem_conns w) i = None \<and>
    hm_get (mem_conns w') i = Some c \<and>
    hm_get (db_table w') i = Some (columns_of_row (x_v6_str x) (conn_row_of i c)) \<and>
    (\<forall>j. j \<noteq> i \<longrightarrow> hm_get (mem_conns w') j = hm_get (mem_conns w) j) \<and>
    (\<forall>s. cq_subscription_id req = Some s \<longrightarrow>
       (\<exists>sub. hm_get (mem_subs w) s = Some sub \<and> is_active (x_clock x (w_tick w + 1)) sub)) \<and>
    w_pub w' = w_pub w @ (case create_topic c of
       Some t \<Rightarrow> if x_send_fails x (w_tick w + 6) then [] else [(t, [as_create_message c i])]
     | None \<Rightarrow> [])"
  using assms(1,2)
proof (cases rule: create_success)
  case (1 e p c i w4)
  let ?w = "tick (tick (tick (tick (tick w))))"
  have "coherent ?w" using assms(3) by (simp add: coherent_def)
  note a = add_conn_ok [OF 1(4) this] and f = announce_frame(1,2) [OF 1(5)]
  have t4: "w_tick w4 = w_tick w + 6"
    using 1(4) by (auto simp: add_conn_def run_db_def tick_def split: prod.splits sum.splits)
  have pub: "w_pub w' = w_pub w4 @ (case create_topic c of
      Some t \<Rightarrow> if x_send_fails x (w_tick w + 6) then [] else [(t, [as_create_message c i])] | None \<Rightarrow> [])"
    using 1(5) t4 by (auto simp: announce_def publish_def tick_def split: option.splits if_splits)
  have sub: "\<exists>sub. hm_get (mem_subs w) s = Some sub \<and> is_active (x_clock x (w_tick w + 1)) sub"
    if "cq_subscription_id req = Some s" for s
    using 1(1) that by (auto simp: sub_check_def utc_now_def split: option.splits if_splits)
  have "asked_for req c" using new_proto_tag [OF 1(2)] by (simp add: asked_for_def 1(3) conn_new_def)
  with 1(6) a f pub sub show ?thesis by (intro exI [of _ i] exI [of _ c]) simp
qed



end
