(* ===== verification/NodeBoot.thy ===== *)
theory NodeBoot
  imports AgentLaws HandlerInv
begin

text \<open>
  How a node joins the system (\<open>bin/node/{node,http}.rs\<close>): it restores its snapshot, registers with
  the API server and asks for its connections, one request per protocol; the answers arrive on
  the message bus under the node's own topic. The HTTP requests are calls of the server's
  handlers; whether a request gets through is a parameter. The texts of HTTP errors are left out.
\<close>

section \<open>Requests\<close>

definition register_request :: "node \<Rightarrow> node_request" where
  "register_request n = \<lparr>nq_env = n_env n, nq_hostname = n_hostname n, nq_address = n_address n,
     nq_inbounds = n_inbounds n, nq_uuid = n_uuid n, nq_label = n_label n, nq_interface = n_interface n,
     nq_cores = n_cores n, nq_max_bandwidth_bps = n_max_bandwidth_bps n, nq_country = n_country n,
     nq_type = Some (n_type n)\<rparr>"

definition register_node :: "ext \<Rightarrow> bool \<Rightarrow> node \<Rightarrow> world \<Rightarrow> (error + unit) \<times> world" where
  "register_node x http_fails n w =
    (if http_fails then (Inl HttpError, w)
     else (case post_node_handler x (register_request n) w of
        (Ret r, w) \<Rightarrow> (if r_status r = 200 \<or> r_status r = 304 then Inr ()
           else Inl (Custom ''Registration failed''), w)
      | (_, w) \<Rightarrow> (Inl (Custom ''Registration failed''), w)))"

definition sync_request :: "node \<Rightarrow> proto_tag \<Rightarrow> u64 option \<Rightarrow> conn_type" where
  "sync_request n tag last_update = \<lparr>ct_proto = tag, ct_last_update = last_update, ct_env = n_env n,
     ct_topic = Init (n_uuid n)\<rparr>"

definition sync_connections :: "ext \<Rightarrow> bool \<Rightarrow> node \<Rightarrow> proto_tag \<Rightarrow> u64 option \<Rightarrow> world \<Rightarrow> (error + unit) \<times> world" where
  "sync_connections x http_fails n tag last_update w =
    (if http_fails then (Inl (Custom ''HTTP Send Error''), w)
     else (case get_connections_handler x (sync_request n tag last_update) w of
        (Ret r, w) \<Rightarrow>
          (if r_status r = 200 then (case r_response r of
              Some (_, ICount _) \<Rightarrow> Inr ()
            | _ \<Rightarrow> Inl (Custom ''Unexpected instance type''))
           else if r_status r = 304 then Inr () else Inl (Custom ''Status''), w)
      | (_, w) \<Rightarrow> (Inl (Custom ''Status''), w)))"

text \<open>The protocols a node asks for: Hysteria2 clients are known to the authentication service, and
  MTProto has no clients.\<close>

definition sync_tags :: "node \<Rightarrow> proto_tag list" where
  "sync_tags n = filter (\<lambda>t. t \<noteq> Hysteria2 \<and> t \<noteq> Mtproto) (filter (\<lambda>t. n_inbounds n t \<noteq> None) Enum.enum)"

fun sync_all :: "ext \<Rightarrow> bool \<Rightarrow> node \<Rightarrow> proto_tag list \<Rightarrow> u64 option \<Rightarrow> world \<Rightarrow> (error + unit) \<times> world" where
  "sync_all x hf n [] ts w = (Inr (), w)"
| "sync_all x hf n (t # tags) ts w = (case sync_connections x hf n t ts w of
     (Inl e, w) \<Rightarrow> (Inl e, w)
   | (Inr _, w) \<Rightarrow> sync_all x hf n tags ts w)"

text \<open>What arrives at the node of a list of published batches.\<close>

definition deliver :: "(uuid \<Rightarrow> string) \<Rightarrow> (string \<Rightarrow> uuid option) \<Rightarrow> agent_ext \<Rightarrow> node \<Rightarrow>
    (topic \<times> message list) list \<Rightarrow> node_state \<Rightarrow> node_state" where
  "deliver us up ax n log s =
     fold (\<lambda>(t, msgs). node_receive up ax (n_uuid n) (n_env n) (topic_to_string us t, Some msgs)) log s"

definition published :: "world \<Rightarrow> world \<Rightarrow> (topic \<times> message list) list" where
  "published w w' = drop (length (w_pub w)) (w_pub w')"

text \<open>The registration is repeated until it succeeds; \<open>hf i\<close> says that the \<open>i\<close>-th request does not get
  through.\<close>

definition register_loop :: "ext \<Rightarrow> (nat \<Rightarrow> bool) \<Rightarrow> node \<Rightarrow> world \<Rightarrow> world option" where
  "register_loop x hf n w = retry (\<lambda>i w. (\<not> isl (fst (register_node x (hf i) n w)), snd (register_node x (hf i) n w))) 0 w"

text \<open>A start of the node: with its snapshot if there is one, the registration, and the answers to
  its requests, which are not repeated (\<open>sf\<close>: they do not get through): their first error ends the
  program. \<open>None\<close> where the registration never succeeds.\<close>

definition node_start :: "ext \<Rightarrow> (nat \<Rightarrow> bool) \<Rightarrow> bool \<Rightarrow> (string \<Rightarrow> uuid option) \<Rightarrow> agent_ext \<Rightarrow> node \<Rightarrow>
    snapshot option \<Rightarrow> world \<times> node_state \<Rightarrow> (world \<times> (error + node_state)) option" where
  "node_start x hf sf up ax n sn ws = (case ws of (w, s) \<Rightarrow>
     (let s = (case sn of Some d \<Rightarrow> node_restart ax d s | None \<Rightarrow> s) in
      case register_loop x hf n w of
        None \<Rightarrow> None
      | Some w \<Rightarrow>
         (case sync_all x sf n (sync_tags n) (map_option sn_timestamp sn) w of
            (Inl e, w') \<Rightarrow> Some (w', Inl e)
          | (Inr _, w') \<Rightarrow> Some (w', Inr (deliver (x_uuid_str x) up ax n (published w w') s)))))"

section \<open>Joining of the authentication service\<close>

text \<open>Its client (\<open>bin/auth/http.rs\<close>) sends the request a node sends, and its start
  (\<open>bin/auth/service.rs\<close>) asks for the Hysteria2 connections only; it does not register.\<close>

definition auth_get_connections :: "ext \<Rightarrow> bool \<Rightarrow> node \<Rightarrow> proto_tag \<Rightarrow> u64 option \<Rightarrow> world \<Rightarrow> (error + unit) \<times> world" where
  "auth_get_connections x http_fails n tag last_update w = sync_connections x http_fails n tag last_update w"

definition auth_deliver :: "(uuid \<Rightarrow> string) \<Rightarrow> (string \<Rightarrow> uuid option) \<Rightarrow> (int \<Rightarrow> nat \<Rightarrow> datetime option) \<Rightarrow>
    (nat \<Rightarrow> datetime) \<Rightarrow> uuid \<Rightarrow> (topic \<times> message list) list \<Rightarrow> base connections \<Rightarrow> base connections" where
  "auth_deliver us up ft clock me log mem =
     fold (\<lambda>(t, msgs). auth_receive up ft clock me (topic_to_string us t, Some msgs)) log mem"

definition snapshot_memory :: "snapshot option \<Rightarrow> base connections" where
  "snapshot_memory sn = (case sn of Some d \<Rightarrow> sn_memory d | None \<Rightarrow> [])"

definition auth_loop :: "ext \<Rightarrow> (nat \<Rightarrow> bool) \<Rightarrow> node \<Rightarrow> u64 option \<Rightarrow> world \<Rightarrow> world option" where
  "auth_loop x hf n last_update w = retry (\<lambda>i w.
     (\<not> isl (fst (auth_get_connections x (hf i) n Hysteria2 last_update w)),
      snd (auth_get_connections x (hf i) n Hysteria2 last_update w))) 0 w"

definition auth_start :: "ext \<Rightarrow> (nat \<Rightarrow> bool) \<Rightarrow> (string \<Rightarrow> uuid option) \<Rightarrow> (int \<Rightarrow> nat \<Rightarrow> datetime option) \<Rightarrow>
    (nat \<Rightarrow> datetime) \<Rightarrow> node \<Rightarrow> snapshot option \<Rightarrow> world \<Rightarrow> (world \<times> base connections) option" where
  "auth_start x hf up ft clock n sn w = map_option (\<lambda>w'.
     (w', auth_deliver (x_uuid_str x) up ft clock (n_uuid n) (published w w') (snapshot_memory sn)))
     (auth_loop x hf n (map_option sn_timestamp sn) w)"

section \<open>Registration\<close>

lemma sync_node_status_frame:
  "mem_conns (snd (sync_node_status x u e st w)) = mem_conns w \<and> w_tick w \<le> w_tick (snd (sync_node_status x u e st w))"
  by (auto simp: sync_node_status_def split_beta split: option.split sum.split)

lemma add_node_frame:
  "mem_conns (snd (add_node x i m w)) = mem_conns w \<and> w_tick w \<le> w_tick (snd (add_node x i m w))"
  by (auto simp: add_node_def split_beta split: sum.split)

lemma post_node_frame:
  "mem_conns (snd (post_node_handler x q w)) = mem_conns w \<and> w_tick w \<le> w_tick (snd (post_node_handler x q w))"
proof -
  let ?n = "as_node (utc_now x w) q"
  obtain r w1 where a: "add_node x (nq_uuid q) ?n (tick w) = (r, w1)" by force
  then have w1: "mem_conns w1 = mem_conns w" "w_tick w \<le> w_tick w1"
    using add_node_frame [of x "nq_uuid q" ?n "tick w"] by (auto simp: tick_def)
  have "mem_conns (snd (sync_node_status x (nq_uuid q) (n_env ?n) Online w1)) = mem_conns w \<and>
      w_tick w \<le> w_tick (snd (sync_node_status x (nq_uuid q) (n_env ?n) Online w1))"
    using sync_node_status_frame [of x "nq_uuid q" "n_env ?n" Online w1] w1 by auto
  with w1 show ?thesis by (simp add: post_node_handler_def Let_def a split: outcome.split status.split)
qed

lemma register_frame:
  "mem_conns (snd (register_node x hf n w)) = mem_conns w"
  "w_tick w \<le> w_tick (snd (register_node x hf n w))"
  using post_node_frame [of x "register_request n" w] by (auto simp: register_node_def split_beta split: outcome.split)

lemma register_healthy:
  assumes "healthy_from x (w_tick w)"
  shows "fst (register_node x False n w) = Inr ()"
proof -
  let ?q = "register_request n"
  let ?m = "as_node (utc_now x w) ?q"
  have "\<not> x_db_fails x (w_tick (tick w))" using assms by (simp add: healthy_from_def healthy_at_def tick_def)
  then have "fst (add_node x (nq_uuid ?q) ?m (tick w)) = Ret (Ok (nq_uuid ?q))"
    by (simp add: add_node_def run_db_def pg_node_upsert_def nodes_add_alt upsert_vec_status split_beta split: option.split)
  then obtain w1 where "add_node x (nq_uuid ?q) ?m (tick w) = (Ret (Ok (nq_uuid ?q)), w1)" by (metis prod.collapse)
  then show ?thesis
    by (simp add: register_node_def post_node_handler_def Let_def success_response_def)
qed

text \<open>When the server works, the loop ends as soon as a request gets through, and whatever happens it
  leaves the connections alone.\<close>

lemma register_loop_ends:
  assumes "healthy_from x (w_tick w)" and "\<not> hf k"
  obtains w1 where "register_loop x hf n w = Some w1" "mem_conns w1 = mem_conns w" "healthy_from x (w_tick w1)"
proof -
  let ?f = "\<lambda>i w. (\<not> isl (fst (register_node x (hf i) n w)), snd (register_node x (hf i) n w))"
  have ok: "fst (?f i w) \<longleftrightarrow> \<not> hf i" for i
    using register_healthy [OF assms(1), of n] by (cases "hf i") (simp_all add: register_node_def [of x True])
  have idle: "snd (?f i w) = w" if "\<not> fst (?f i w)" for i
    using that ok [of i] by (simp add: register_node_def)
  have "fst (?f k w)" using ok assms(2) by blast
  from retry_idle [of ?f w k 0, OF idle this le0] obtain j where "retry ?f 0 w = Some (snd (?f j w))" by blast
  with register_frame [where x = x and hf = "hf j" and n = n and w = w] healthy_from_mono [OF assms(1)]
  show thesis by (intro that [of "snd (?f j w)"]) (simp_all add: register_loop_def)
qed

lemma register_loop_mem: "register_loop x hf n w = Some w1 \<Longrightarrow> mem_conns w1 = mem_conns w"
  unfolding register_loop_def
  by (drule retry_Some [where P = "\<lambda>t. mem_conns t = mem_conns w"]) (auto simp: register_frame)

section \<open>What the server publishes\<close>

definition wanted :: "conn_type \<Rightarrow> world \<Rightarrow> (uuid \<times> conn) list" where
  "wanted req w = filter (\<lambda>(_, c). wants req c) (mem_conns w)"

definition wanted_messages :: "conn_type \<Rightarrow> world \<Rightarrow> message list" where
  "wanted_messages req w = map (\<lambda>(i, c). as_create_message c i) (wanted req w)"

lemma get_connections_frame:
  "w_mem (snd (get_connections_handler x req w)) = w_mem w"
  "\<exists>log. w_pub (snd (get_connections_handler x req w)) = w_pub w @ log \<and>
     (log = [] \<or> log = [(ct_topic req, wanted_messages req w)])"
  by (auto simp: get_connections_handler_def wanted_messages_def wanted_def Let_def publish_def tick_def)

lemma get_connections_healthy:
  assumes "healthy_from x (w_tick w)"
  shows "w_pub (snd (get_connections_handler x req w)) = w_pub w @
      (if wanted_messages req w = [] then [] else [(ct_topic req, wanted_messages req w)])"
    and "fst (get_connections_handler x req w) = Ret (not_modified []) \<or>
      (\<exists>n. fst (get_connections_handler x req w) = Ret (success_response ''Ok'' None (ICount n)))"
    and "w_tick w \<le> w_tick (snd (get_connections_handler x req w))"
  using assms
  by (auto simp: get_connections_handler_def wanted_messages_def wanted_def Let_def publish_def tick_def
      healthy_from_def healthy_at_def)

lemma sync_connections_frame:
  "w_mem (snd (sync_connections x hf n t ts w)) = w_mem w"
  "\<exists>log. w_pub (snd (sync_connections x hf n t ts w)) = w_pub w @ log \<and>
     (log = [] \<or> log = [(Init (n_uuid n), wanted_messages (sync_request n t ts) w)])"
  using get_connections_frame [of x "sync_request n t ts" w]
  by (auto simp: sync_connections_def sync_request_def split_beta split: outcome.split)

lemma sync_connections_healthy:
  assumes "healthy_from x (w_tick w)"
  shows "fst (sync_connections x False n t ts w) = Inr ()"
    and "w_pub (snd (sync_connections x False n t ts w)) = w_pub w @
      (if wanted_messages (sync_request n t ts) w = [] then []
       else [(Init (n_uuid n), wanted_messages (sync_request n t ts) w)])"
    and "healthy_from x (w_tick (snd (sync_connections x False n t ts w)))"
proof -
  note h = get_connections_healthy [OF assms, of "sync_request n t ts"]
  show "fst (sync_connections x False n t ts w) = Inr ()"
    using h(2) by (auto simp: sync_connections_def split_beta not_modified_def success_response_def)
  have r: "snd (sync_connections x False n t ts w) = snd (get_connections_handler x (sync_request n t ts) w)"
    by (simp add: sync_connections_def split_beta split: outcome.split)
  show "w_pub (snd (sync_connections x False n t ts w)) = w_pub w @
      (if wanted_messages (sync_request n t ts) w = [] then []
       else [(Init (n_uuid n), wanted_messages (sync_request n t ts) w)])"
    unfolding r h(1) by (simp add: sync_request_def)
  show "healthy_from x (w_tick (snd (sync_connections x False n t ts w)))"
    unfolding r by (rule healthy_from_mono [OF assms h(3)])
qed

lemma auth_loop_ends:
  assumes "healthy_from x (w_tick w)" and "\<not> hf k"
  shows "auth_loop x hf n ts w = Some (snd (sync_connections x False n Hysteria2 ts w))"
proof -
  let ?f = "\<lambda>i w. (\<not> isl (fst (auth_get_connections x (hf i) n Hysteria2 ts w)),
     snd (auth_get_connections x (hf i) n Hysteria2 ts w))"
  have ok: "fst (?f i w) \<longleftrightarrow> \<not> hf i" for i
    using sync_connections_healthy(1) [OF assms(1), of n Hysteria2 ts]
    by (cases "hf i") (simp_all add: auth_get_connections_def sync_connections_def [of x True])
  have idle: "snd (?f i w) = w" if "\<not> fst (?f i w)" for i
    using that ok [of i] by (simp add: auth_get_connections_def sync_connections_def)
  have "fst (?f k w)" using ok assms(2) by blast
  from retry_idle [of ?f w k 0, OF idle this le0] obtain j where
    "retry ?f 0 w = Some (snd (?f j w))" "fst (?f j w)" by blast
  with ok [of j] show ?thesis by (simp add: auth_loop_def auth_get_connections_def)
qed

text \<open>All requests together: the memory stays, and every batch is one of the wanted ones.\<close>

lemma wanted_messages_mem: "w_mem w = w_mem w' \<Longrightarrow> wanted_messages req w = wanted_messages req w'"
  by (simp add: wanted_messages_def wanted_def)

lemma sync_all_frame:
  "w_mem (snd (sync_all x hf n tags ts w)) = w_mem w \<and>
   (\<exists>log. w_pub (snd (sync_all x hf n tags ts w)) = w_pub w @ log \<and>
     (\<forall>(t, msgs) \<in> set log. \<exists>tag. t = Init (n_uuid n) \<and> msgs = wanted_messages (sync_request n tag ts) w))"
proof (induction tags arbitrary: w)
  case (Cons t tags)
  obtain r w1 where s: "sync_connections x hf n t ts w = (r, w1)" by force
  from sync_connections_frame [of x hf n t ts w] s obtain log1 where m: "w_mem w1 = w_mem w"
    and p: "w_pub w1 = w_pub w @ log1"
    and l: "log1 = [] \<or> log1 = [(Init (n_uuid n), wanted_messages (sync_request n t ts) w)]" by auto
  show ?case
  proof (cases r)
    case (Inr u)
    from Cons.IH [of w1] obtain log2 where "w_pub (snd (sync_all x hf n tags ts w1)) = w_pub w1 @ log2"
      "\<forall>(t, msgs) \<in> set log2. \<exists>tag. t = Init (n_uuid n) \<and> msgs = wanted_messages (sync_request n tag ts) w1"
      "w_mem (snd (sync_all x hf n tags ts w1)) = w_mem w1" by auto
    with s Inr m p l show ?thesis by (auto simp: wanted_messages_mem [OF m])
  qed (use s m p l in auto)
qed simp

lemma sync_all_healthy:
  assumes "healthy_from x (w_tick w)"
  shows "fst (sync_all x False n tags ts w) = Inr () \<and>
    w_pub (snd (sync_all x False n tags ts w)) = w_pub w @
      map (\<lambda>t. (Init (n_uuid n), wanted_messages (sync_request n t ts) w))
        (filter (\<lambda>t. wanted_messages (sync_request n t ts) w \<noteq> []) tags)"
  using assms
proof (induction tags arbitrary: w)
  case (Cons t tags)
  note h = sync_connections_healthy [OF Cons.prems, of n t ts]
  obtain r w1 where s: "sync_connections x False n t ts w = (r, w1)" by force
  have m: "w_mem w1 = w_mem w" using sync_connections_frame(1) [of x False n t ts w] s by simp
  from h(1) s obtain u where r: "r = Inr u" by simp
  show ?case using Cons.IH [of w1] h(2,3) s r by (auto simp: wanted_messages_mem [OF m])
qed simp

section \<open>What the node does with it\<close>

text \<open>A node whose back ends work and know none of the keys yet, and the laws of the crates it
  uses.\<close>

definition agent_healthy :: "agent_ext \<Rightarrow> bool" where
  "agent_healthy x = ((\<forall>n. \<not> ne_fails x n) \<and> ne_has_xray x \<and> ne_has_wg x \<and> (\<forall>n. ne_peers x n = Some []) \<and>
     (\<forall>bs. ne_b64_decode x (ne_b64_encode x bs) = Inr bs) \<and> (\<forall>bs. length (ne_x25519 x bs) = 32))"

definition decodes :: "agent_ext \<Rightarrow> conn \<Rightarrow> bool" where
  "decodes x c = (\<forall>e. c_expires_at c = Some e \<longrightarrow>
     datetime_of_rkyv (ne_from_timestamp x) (rkyv_of_datetime e) = Some e)"

text \<open>A connection a node can serve.\<close>

fun servable :: "proto \<Rightarrow> bool" where
  "servable (ProtoXray t) = is_xray_tag t"
| "servable (ProtoWireguard _) = True"
| "servable (ProtoShadowsocks _) = True"
| "servable (ProtoHysteria2 _) = False"
| "servable (ProtoMtproto _) = False"

definition carries :: "conn \<Rightarrow> base \<Rightarrow> bool" where
  "carries c b = (b_proto b = c_proto c \<and> b_expires_at b = c_expires_at c \<and>
     b_subscription_id b = c_subscription_id c \<and> \<not> b_is_deleted b)"

lemma base_of_create:
  assumes "decodes x c"
  obtains b where "base_of_msg x (c_proto c) (as_create_message c i) s = Some b" "carries c b"
proof -
  have "msg_expires (ne_from_timestamp x) (as_create_message c i) = Some (c_expires_at c)"
    using assms by (cases "c_expires_at c") (simp_all add: msg_expires_def as_create_message_def decodes_def)
  then show ?thesis
    by (intro that [of "base_new (ne_clock x (ns_tick s)) (c_proto c) (c_expires_at c) (c_subscription_id c)"])
       (simp_all add: base_of_msg_def as_create_message_def carries_def base_new_def)
qed

lemma xray_create_healthy:
  assumes "agent_healthy x" and "xray_info x i tag pw ''Create'' = Inr ci"
  shows "fst (xray_create x i tag pw s) = Ret ()"
proof -
  from assms(2) obtain u where "to_user x ci = Ret u" by (rule to_user_ok)
  with assms show ?thesis by (simp add: xray_create_def info_create_def ext_call_def agent_healthy_def)
qed

lemma handle_create_healthy:
  assumes "agent_healthy x" and "decodes x c" and "servable (c_proto c)"
  shows "fst (handle_message x (as_create_message c i) s) = Ret () \<and>
    (\<exists>b. carries c b \<and> ns_mem (snd (handle_message x (as_create_message c i) s)) = snd (conns_add i b (ns_mem s)))"
proof -
  from base_of_create [OF assms(2), of i s]
  obtain b where b: "base_of_msg x (c_proto c) (as_create_message c i) s = Some b" "carries c b" by blast
  have xr: "handle_xray_create x (c_proto c) pw (as_create_message c i) s =
      (Ret (), add_mem i b (snd (xray_create x i (proto_tag_of (c_proto c)) pw s)))"
    if "xray_info x i (proto_tag_of (c_proto c)) pw ''Create'' = Inr ci" for pw ci
    using xray_create_healthy [OF assms(1) that, of s] assms(1) b(1)
    by (simp add: handle_xray_create_def agent_healthy_def as_create_message_def split_beta)
  show ?thesis
  proof (cases "c_proto c")
    case (ProtoXray t)
    with assms(3) obtain ci where "xray_info x i (proto_tag_of (c_proto c)) None ''Create'' = Inr ci"
      by (cases t) (auto simp: xray_info_def is_xray_tag_def)
    from xr [OF this] assms(3) b(2) ProtoXray show ?thesis
      by (auto simp: handle_message_def as_create_message_def is_xray_tag_def)
  next
    case (ProtoShadowsocks pw)
    then have "xray_info x i (proto_tag_of (c_proto c)) (Some pw) ''Create'' = Inr (ss_new x i (Some pw))"
      by (simp add: xray_info_def)
    from xr [OF this] b(2) ProtoShadowsocks show ?thesis
      by (auto simp: handle_message_def as_create_message_def is_xray_tag_def)
  next
    case (ProtoWireguard wg)
    have none: "\<not> wg_is_exist x pk s'" for pk s'
      using assms(1) by (simp add: wg_is_exist_def agent_healthy_def split: sum.split)
    have "fst (wg_create x pk a s') = Inr ()" if "wg_pubkey x wg = Inr pk" for pk a s'
    proof -
      from that obtain bs where "pk = ne_b64_encode x (ne_x25519 x bs)"
        by (auto simp: wg_pubkey_def pubkey_def derive_pubkey_def split: sum.splits if_splits)
      with assms(1) show ?thesis by (simp add: wg_create_def decode_pubkey_def agent_healthy_def)
    qed
    with ProtoWireguard assms(1) b none show ?thesis
      by (auto simp: handle_message_def handle_wg_create_def as_create_message_def agent_healthy_def Let_def
          split_beta split: sum.split)
  qed (use assms(3) in auto)
qed

text \<open>A batch of such messages is handled to its end, and puts exactly its connections into
  memory.\<close>

lemma batch_create_healthy:
  assumes "agent_healthy x" and "\<forall>(i, c) \<in> set cs. decodes x c \<and> servable (c_proto c)"
  shows "fst (node_batch x (map (\<lambda>(i, c). as_create_message c i) cs) s) = Ret () \<and>
    (\<forall>i b. hm_get (ns_mem (snd (node_batch x (map (\<lambda>(i, c). as_create_message c i) cs) s))) i = Some b \<longrightarrow>
       hm_get (ns_mem s) i = Some b \<or> (\<exists>c. (i, c) \<in> set cs \<and> carries c b)) \<and>
    (\<forall>i. hm_get (ns_mem s) i \<noteq> None \<or> i \<in> fst ` set cs \<longrightarrow>
       hm_get (ns_mem (snd (node_batch x (map (\<lambda>(i, c). as_create_message c i) cs) s))) i \<noteq> None)"
  using assms(2)
proof (induction cs arbitrary: s)
  case (Cons ic cs)
  obtain i c where ic: "ic = (i, c)" by force
  obtain r s1 where h: "handle_message x (as_create_message c i) s = (r, s1)" by force
  with handle_create_healthy [OF assms(1), of c i s] Cons.prems ic
  obtain b where r: "r = Ret ()" and b: "carries c b" "ns_mem s1 = snd (conns_add i b (ns_mem s))" by auto
  have IH: "fst (node_batch x (map (\<lambda>(i, c). as_create_message c i) cs) s1) = Ret ()"
    "\<And>j d. hm_get (ns_mem (snd (node_batch x (map (\<lambda>(i, c). as_create_message c i) cs) s1))) j = Some d \<Longrightarrow>
       hm_get (ns_mem s1) j = Some d \<or> (\<exists>c. (j, c) \<in> set cs \<and> carries c d)"
    "\<And>j. hm_get (ns_mem s1) j \<noteq> None \<or> j \<in> fst ` set cs \<Longrightarrow>
       hm_get (ns_mem (snd (node_batch x (map (\<lambda>(i, c). as_create_message c i) cs) s1))) j \<noteq> None"
    using Cons.IH [of s1] Cons.prems by auto
  have s1: "hm_get (ns_mem s1) j = (if j = i \<and> hm_get (ns_mem s) i = None then Some b else hm_get (ns_mem s) j)" for j
    by (simp add: b(2) conns_add_get)
  have step: "node_batch x (map (\<lambda>(i, c). as_create_message c i) (ic # cs)) s =
      node_batch x (map (\<lambda>(i, c). as_create_message c i) cs) s1"
    by (simp add: ic h r)
  show ?case unfolding step
  proof (intro conjI allI impI)
    fix j d
    assume "hm_get (ns_mem (snd (node_batch x (map (\<lambda>(i, c). as_create_message c i) cs) s1))) j = Some d"
    from IH(2) [OF this] show "hm_get (ns_mem s) j = Some d \<or> (\<exists>c. (j, c) \<in> set (ic # cs) \<and> carries c d)"
      using b(1) by (auto simp: s1 ic split: if_splits)
  next
    fix j
    assume "hm_get (ns_mem s) j \<noteq> None \<or> j \<in> fst ` set (ic # cs)"
    then have "hm_get (ns_mem s1) j \<noteq> None \<or> j \<in> fst ` set cs" by (auto simp: s1 ic)
    then show "hm_get (ns_mem (snd (node_batch x (map (\<lambda>(i, c). as_create_message c i) cs) s1))) j \<noteq> None"
      by (rule IH(3))
  qed (rule IH(1))
qed simp

lemma batches_append:
  assumes "fst (node_batch x (concat ms) s) = Ret ()"
  shows "fold (\<lambda>msgs s. snd (node_batch x msgs s)) ms s = snd (node_batch x (concat ms) s)"
  using assms
proof (induction ms arbitrary: s)
  case (Cons m ms)
  obtain r s1 where m: "node_batch x m s = (r, s1)" by force
  with Cons.prems obtain u where "r = Ret u" by (cases r) (auto simp: node_batch_append)
  with Cons m show ?case by (auto simp: node_batch_append)
qed simp

text \<open>Messages the node accepts are applied one batch after the other.\<close>

lemma deliver_init:
  assumes "uuid_laws us up"
  shows "deliver us up ax n (map (\<lambda>m. (Init (n_uuid n), m)) ms) s = fold (\<lambda>msgs s. snd (node_batch ax msgs s)) ms s"
  unfolding deliver_def
  by (induction ms arbitrary: s)
    (simp_all add: node_sub.receive_published [OF assms] node_accepts_norm del: topic_to_string.simps)

lemma node_batch_other:
  "\<forall>msg \<in> set msgs. m_conn_id msg \<noteq> i \<Longrightarrow> hm_get (ns_mem (snd (node_batch x msgs s))) i = hm_get (ns_mem s) i"
proof (induction msgs arbitrary: s)
  case (Cons msg msgs)
  obtain r s1 where h: "handle_message x msg s = (r, s1)" by force
  with handle_message_other [of i msg x s] Cons.prems have "hm_get (ns_mem s1) i = hm_get (ns_mem s) i" by auto
  with Cons h show ?case by (cases r) auto
qed simp

text \<open>Restoring a snapshot tells the back ends about it and does not change it.\<close>

lemma fold_mem:
  assumes "\<And>a s. ns_mem (f a s) = ns_mem s"
  shows "ns_mem (fold f as s) = ns_mem s"
  by (induction as arbitrary: s) (simp_all add: assms)

lemma node_restart_mem: "ns_mem (node_restart x d s) = sn_memory d"
proof -
  have w: "ns_mem (snd (restore_wg_connections x s)) = ns_mem s" for s
    by (auto simp: restore_wg_connections_def intro!: fold_mem split: option.split sum.split)
  have "ns_mem (snd (restore_xray_connections x s)) = ns_mem s" for s
    by (auto simp: restore_xray_connections_def intro!: fold_mem)
  with w show ?thesis by (simp add: node_restart_def load_snapshot_def)
qed

end
