(* ===== verification/AgentProps.thy ===== *)
theory AgentProps
  imports BillingProps NodeBoot
begin

text \<open>
  Properties of the subscribers and of their interplay with the API server: which messages reach
  whom, that the authentication service implements a map of tokens, what a batch does to a node,
  and what a node that starts or restarts ends up with.
\<close>

section \<open>Routing\<close>



section \<open>The authentication service\<close>

text \<open>The specification of the whole: the token map after the messages addressed to the service.\<close>

definition token_log :: "uuid \<Rightarrow> (topic \<times> message list) list \<Rightarrow> (uuid \<Rightarrow> uuid option) \<Rightarrow> uuid \<Rightarrow> uuid option" where
  "token_log me log f = fold token_spec (concat (map snd (filter (\<lambda>(t, _). t = AuthTopic \<or> t = Init me) log))) f"

lemma auth_apply_no_panic: "msg_expires ft msg \<noteq> None \<Longrightarrow> fst (auth_apply ft now msg mem) = Ret ()"
  by (auto simp: auth_apply_def Let_def split: action.split option.split)

lemma auth_batch_no_panic:
  "\<forall>msg \<in> set msgs. msg_expires ft msg \<noteq> None \<Longrightarrow> fst (auth_batch ft clock msgs mem) = Ret ()"
proof (induction msgs arbitrary: clock mem)
  case (Cons msg msgs)
  then have "fst (auth_apply ft (clock 0) msg mem) = Ret ()" by (intro auth_apply_no_panic) simp
  with Cons show ?case by (cases "auth_apply ft (clock 0) msg mem") auto
qed simp

lemma auth_deliver_refines:
  assumes "uuid_laws us up" and "auth_ok mem" and "\<forall>(t, msgs) \<in> set log. \<forall>msg \<in> set msgs. msg_expires ft msg \<noteq> None"
  shows "auth_ok (auth_deliver us up ft clock me log mem) \<and>
    tokens_of (auth_deliver us up ft clock me log mem) = token_log me log (tokens_of mem)"
  using assms(2,3)
proof (induction log arbitrary: mem)
  case (Cons e log)
  obtain t msgs where e: "e = (t, msgs)" by force
  let ?m = "auth_receive up ft clock me (topic_to_string us t, Some msgs) mem"
  have r: "?m = (if t = AuthTopic \<or> t = Init me then snd (auth_batch ft clock msgs mem) else mem)"
    by (simp only: auth_sub.receive_published [OF assms(1)] auth_accepts_norm)
  have b: "auth_ok (snd (auth_batch ft clock msgs mem)) \<and>
      tokens_of (snd (auth_batch ft clock msgs mem)) = fold token_spec msgs (tokens_of mem)"
    using auth_batch_refines [OF Cons.prems(1), of ft clock msgs] auth_batch_no_panic [of msgs ft clock mem]
      Cons.prems(2) e by auto
  have "auth_ok ?m" using b Cons.prems(1) by (simp add: r)
  moreover have "auth_deliver us up ft clock me (e # log) mem = auth_deliver us up ft clock me log ?m"
    by (simp add: auth_deliver_def e)
  ultimately show ?case using Cons.IH [of ?m] Cons.prems(2) b by (simp add: e r token_log_def)
qed (simp add: auth_deliver_def token_log_def)

text \<open>C13. The authentication service implements a map from connections to tokens: after any sequence
  of published batches it accepts exactly the tokens of the map that the messages on its topics
  build, where a creation or restoration sets a token that is not set, a deletion removes it, and
  everything else is ignored.\<close>

theorem auth_service_refines:
  assumes "uuid_laws us up" and "auth_ok mem" and "\<forall>(t, msgs) \<in> set log. \<forall>msg \<in> set msgs. msg_expires ft msg \<noteq> None"
  shows "fst (auth_handler tok (auth_deliver us up ft clock me log mem)) \<longleftrightarrow>
    (\<exists>i. token_log me log (tokens_of mem) i = Some tok)"
  using auth_deliver_refines [OF assms, of clock me] by (metis auth_handler_iff)

definition sample_ft :: "int \<Rightarrow> nat \<Rightarrow> datetime option" where
  "sample_ft s n = Some (s * 10 ^ 9 + int n)"

definition sample_log :: "(topic \<times> message list) list" where
  "sample_log = [(AuthTopic, [as_create_message sample_h2 2]), (Updates Dev, [as_delete_message sample_h2 2])]"

theorem auth_service_refines_witness:
  "fst (auth_handler 42 (auth_deliver sample_uuid_str sample_uuid_parse sample_ft (\<lambda>_. 0) 1 sample_log []))"
proof -
  have "\<forall>(t, msgs) \<in> set sample_log. \<forall>msg \<in> set msgs. msg_expires sample_ft msg \<noteq> None"
    by (simp add: sample_log_def msg_expires_def as_create_message_def as_delete_message_def sample_h2_def)
  moreover have "token_log 1 sample_log (tokens_of []) 2 = Some 42"
    by (simp add: token_log_def sample_log_def token_spec_def as_create_message_def sample_h2_def tokens_of_def)
  ultimately show ?thesis
    using auth_service_refines [OF sample_uuid_laws, of "[]" sample_log sample_ft 42 "\<lambda>_. 0" 1]
    by (auto simp: auth_ok_def)
qed

lemma published_append: "w_pub w' = w_pub w @ log \<Longrightarrow> published w w' = log"
  by (simp add: published_def)

text \<open>C16. The life of a Hysteria2 connection from end to end: once its creation has been answered
  with success and the message was sent, the authentication service accepts its token; once its
  deletion has reported success, the service rejects it.\<close>

theorem h2_lifecycle:
  assumes "uuid_laws (x_uuid_str x) up" and "auth_ok mem" and "coherent w"
    and "create_connection_handler x req net w = (Ret r, w1)" and "r_status r = 200" and "cq_proto req = Hysteria2"
    and "\<not> x_send_fails x (w_tick w + 6)" and "r_response r = Some (i, IConnection c)" and "c_proto c = ProtoHysteria2 tok"
    and "msg_expires ft (as_create_message c i) \<noteq> None"
    and "\<forall>j. tokens_of mem j \<noteq> Some tok" and "tokens_of mem i = None"
    and "delete_connection x i c w2 = (Ret (Ok i), w3)"
  shows "let mem1 = auth_deliver (x_uuid_str x) up ft clock me (published w w1) mem;
             mem2 = auth_deliver (x_uuid_str x) up ft clock me (published w2 w3) mem1
         in fst (auth_handler tok mem1) \<and> \<not> fst (auth_handler tok mem2)"
proof -
  let ?us = "x_uuid_str x"
  have "create_topic c = Some AuthTopic" by (simp add: create_topic_def assms(9))
  with create_effect [OF assms(4,5,3)] assms(7,8) have "w_pub w1 = w_pub w @ [(AuthTopic, [as_create_message c i])]"
    by auto
  then have p1: "published w w1 = [(AuthTopic, [as_create_message c i])]" by (rule published_append)
  have "w_pub w3 = w_pub w2 @ [(conn_topic c, [as_delete_message c i])]"
    using assms(13) by (cases rule: delete_connection_cases) auto
  then have p2: "published w2 w3 = [(AuthTopic, [as_delete_message c i])]"
    by (simp add: published_append conn_topic_def assms(9))
  have d: "msg_expires ft (as_delete_message c i) \<noteq> None"
    using assms(10) by (simp add: msg_expires_def as_create_message_def as_delete_message_def)
  define mem1 where "mem1 = auth_deliver ?us up ft clock me (published w w1) mem"
  have m1: "auth_ok mem1" "tokens_of mem1 = (tokens_of mem)(i \<mapsto> tok)"
    using auth_deliver_refines [OF assms(1,2), of "published w w1" ft clock me] assms(9,10,12)
    by (auto simp: mem1_def p1 token_log_def token_spec_def as_create_message_def)
  define mem2 where "mem2 = auth_deliver ?us up ft clock me (published w2 w3) mem1"
  have m2: "auth_ok mem2" "tokens_of mem2 = (tokens_of mem1)(i := None)"
    using auth_deliver_refines [OF assms(1) m1(1), of "published w2 w3" ft clock me] d
    by (auto simp: mem2_def p2 token_log_def token_spec_def as_delete_message_def)
  have "fst (auth_handler tok mem1)" using auth_handler_iff [OF m1(1), of tok] m1(2) by auto
  moreover have "\<not> fst (auth_handler tok mem2)"
    using auth_handler_iff [OF m2(1), of tok] m1(2) m2(2) assms(11) by (auto split: if_splits)
  ultimately show ?thesis by (simp add: Let_def mem1_def mem2_def)
qed

definition made_h2 :: conn where
  "made_h2 = \<lparr>c_env = Production, c_proto = ProtoHysteria2 1005, c_subscription_id = Some 7,
     c_created_at = 1000000006000000000, c_modified_at = 1000000006000000000, c_expires_at = None, c_is_deleted = False\<rparr>"

definition h2_world :: world where
  "h2_world = snd (create_connection_handler sample_ext (sample_request Hysteria2) sample_net run_0)"

theorem h2_lifecycle_witness:
  "let log1 = published run_0 h2_world;
       log2 = published h2_world (snd (delete_connection sample_ext 1007 made_h2 h2_world));
       mem1 = auth_deliver sample_uuid_str sample_uuid_parse sample_ft (\<lambda>_. 0) 1 log1 [];
       mem2 = auth_deliver sample_uuid_str sample_uuid_parse sample_ft (\<lambda>_. 0) 1 log2 mem1
   in fst (auth_handler 1005 mem1) \<and> \<not> fst (auth_handler 1005 mem2)"
proof -
  let ?h = "create_connection_handler sample_ext (sample_request Hysteria2) sample_net run_0"
  have "(case fst ?h of Ret r \<Rightarrow> (r_status r, r_response r) | _ \<Rightarrow> (0, None)) = (200, Some (1007, IConnection made_h2))"
    by code_simp
  then obtain r where r: "fst ?h = Ret r" "r_status r = 200" "r_response r = Some (1007, IConnection made_h2)"
    by (auto split: outcome.splits)
  then have h: "?h = (Ret r, h2_world)" by (metis prod.collapse h2_world_def)
  have "fst (delete_connection sample_ext 1007 made_h2 h2_world) = Ret (Ok 1007)" by code_simp
  then have d: "delete_connection sample_ext 1007 made_h2 h2_world =
      (Ret (Ok 1007), snd (delete_connection sample_ext 1007 made_h2 h2_world))" by (metis prod.collapse)
  have c: "coherent run_0"
    using srv_start_inv [OF run_0_start sample_ext_ok] by (simp add: srv_inv_def wg_inv_def)
  have x: "x_uuid_str sample_ext = sample_uuid_str" "\<not> x_send_fails sample_ext n" for n
    by (simp_all add: sample_ext_def)
  show ?thesis
    using h2_lifecycle [of sample_ext sample_uuid_parse "[]", OF _ _ c h r(2) _ _ r(3) _ _ _ _ d, of 1005 sample_ft "\<lambda>_. 0" 1]
    by (simp add: x sample_uuid_laws auth_ok_def tokens_of_def sample_request_def made_h2_def msg_expires_def
        as_create_message_def)
qed

section \<open>Starting the authentication service\<close>

text \<open>Creations for distinct connections set exactly the tokens that are not set yet.\<close>

lemma token_creates:
  assumes "distinct (map fst cs)"
  shows "fold token_spec (map (\<lambda>(i, c). as_create_message c i) cs) f i =
    (case f i of Some t \<Rightarrow> Some t | None \<Rightarrow> Option.bind (map_of cs i) (\<lambda>c. proto_token (c_proto c)))"
  using assms
proof (induction cs arbitrary: f)
  case (Cons ic cs)
  obtain j c where ic: "ic = (j, c)" by force
  let ?f = "token_spec (as_create_message c j) f"
  have f: "?f k = (if k = j \<and> f j = None then proto_token (c_proto c) else f k)" for k
    by (auto simp: token_spec_def as_create_message_def split: option.split)
  from Cons.prems have "map_of cs j = None" by (auto simp: ic map_of_eq_None_iff)
  moreover have "fold token_spec (map (\<lambda>(i, c). as_create_message c i) cs) ?f i =
      (case ?f i of Some t \<Rightarrow> Some t | None \<Rightarrow> Option.bind (map_of cs i) (\<lambda>c. proto_token (c_proto c)))"
    using Cons.IH [of ?f] Cons.prems by simp
  ultimately show ?case by (auto simp: ic f split: option.splits)
qed (simp split: option.split)

lemma wanted_get:
  assumes "hm_wf (mem_conns w)"
  shows "distinct (map fst (wanted req w))" "map_of (wanted req w) i = Some c \<longleftrightarrow>
    hm_get (mem_conns w) i = Some c \<and> wants req c"
proof -
  have d: "distinct (map fst (wanted req w))"
    unfolding wanted_def by (rule distinct_map_filter [OF assms])
  then show "distinct (map fst (wanted req w))" .
  show "map_of (wanted req w) i = Some c \<longleftrightarrow> hm_get (mem_conns w) i = Some c \<and> wants req c"
    unfolding map_of_eq_Some_iff [OF d] map_of_eq_Some_iff [OF assms] by (auto simp: wanted_def)
qed

text \<open>C14. The start of the authentication service, with a snapshot or without, ends once the server works
  and one of its requests gets through, and then the service accepts: the tokens of the snapshot, and those of the undeleted Hysteria2
  connections of every environment that are not in the snapshot and were modified since it was
  taken. A connection of the snapshot that the server has deleted in the meantime is still
  accepted.\<close>

theorem auth_start_tokens:
  assumes "uuid_laws (x_uuid_str x) up" and "healthy_from x (w_tick w)" and "hm_wf (mem_conns w)"
    and "auth_ok (snapshot_memory sn)"
    and "\<forall>i c. hm_get (mem_conns w) i = Some c \<longrightarrow> msg_expires ft (as_create_message c i) \<noteq> None"
    and "\<not> hf k"
  shows "\<exists>w' mem'. auth_start x hf up ft clock n sn w = Some (w', mem') \<and> (fst (auth_handler tok mem') \<longleftrightarrow> (\<exists>i. tokens_of (snapshot_memory sn) i = Some tok) \<or>
    (\<exists>i c. tokens_of (snapshot_memory sn) i = None \<and> hm_get (mem_conns w) i = Some c \<and> \<not> c_is_deleted c \<and>
       c_proto c = ProtoHysteria2 tok \<and>
       (case sn of None \<Rightarrow> True | Some d \<Rightarrow> sn_timestamp d \<le> timestamp_u64 (c_modified_at c))))"
proof -
  let ?req = "sync_request n Hysteria2 (map_option sn_timestamp sn)"
  let ?msgs = "wanted_messages ?req w"
  let ?log = "if ?msgs = [] then [] else [(Init (n_uuid n), ?msgs)]"
  define w' where "w' = snd (sync_connections x False n Hysteria2 (map_option sn_timestamp sn) w)"
  define mem' where "mem' = auth_deliver (x_uuid_str x) up ft clock (n_uuid n) (published w w') (snapshot_memory sn)"
  have start: "auth_start x hf up ft clock n sn w = Some (w', mem')"
    using auth_loop_ends [where hf = hf and k = k, OF assms(2,6), of n "map_option sn_timestamp sn"] by (simp add: auth_start_def w'_def mem'_def)
  have "w_pub w' = w_pub w @ ?log"
    unfolding w'_def by (rule sync_connections_healthy(2) [OF assms(2)])
  then have mem': "mem' = auth_deliver (x_uuid_str x) up ft clock (n_uuid n) ?log (snapshot_memory sn)"
    by (simp add: mem'_def published_append)
  have "\<forall>(t, msgs) \<in> set ?log. \<forall>msg \<in> set msgs. msg_expires ft msg \<noteq> None"
    using assms(5) map_of_eq_Some_iff [OF assms(3)] by (auto simp: wanted_messages_def wanted_def)
  from auth_deliver_refines [OF assms(1,4) this, of clock "n_uuid n"]
  have ok: "auth_ok mem'" and tok: "tokens_of mem' = fold token_spec ?msgs (tokens_of (snapshot_memory sn))"
    by (auto simp: mem' token_log_def)
  have "tokens_of mem' i = (case tokens_of (snapshot_memory sn) i of Some t \<Rightarrow> Some t
      | None \<Rightarrow> Option.bind (map_of (wanted ?req w) i) (\<lambda>c. proto_token (c_proto c)))" for i
    unfolding tok wanted_messages_def by (rule token_creates [OF wanted_get(1) [OF assms(3)]])
  moreover have "wants ?req c \<and> proto_token (c_proto c) = Some tok \<longleftrightarrow> \<not> c_is_deleted c \<and>
      c_proto c = ProtoHysteria2 tok \<and>
      (case sn of None \<Rightarrow> True | Some d \<Rightarrow> sn_timestamp d \<le> timestamp_u64 (c_modified_at c))" for c
    by (auto simp: wants_def sync_request_def proto_token_Some split: option.splits)
  ultimately have "tokens_of mem' i = Some tok \<longleftrightarrow> tokens_of (snapshot_memory sn) i = Some tok \<or>
      (\<exists>c. tokens_of (snapshot_memory sn) i = None \<and> hm_get (mem_conns w) i = Some c \<and> \<not> c_is_deleted c \<and>
       c_proto c = ProtoHysteria2 tok \<and>
       (case sn of None \<Rightarrow> True | Some d \<Rightarrow> sn_timestamp d \<le> timestamp_u64 (c_modified_at c)))" for i
    using wanted_get(2) [OF assms(3), of ?req i] by (auto simp: bind_eq_Some_conv split: option.splits)
  with auth_handler_iff [OF ok, of tok] start show ?thesis by blast
qed

definition stale_auth_snapshot :: snapshot where
  "stale_auth_snapshot = \<lparr>sn_timestamp = 0, sn_memory = [(2, base_of_conn sample_h2)], sn_version = 1\<rparr>"

text \<open>Connection 2 of the sample is deleted, and its token is still accepted.\<close>

theorem auth_start_tokens_witness:
  "\<exists>w' mem'. auth_start sample_ext (\<lambda>i. i < 3) sample_uuid_parse sample_ft (\<lambda>_. 0) sample_node
     (Some stale_auth_snapshot) sample_world = Some (w', mem') \<and> fst (auth_handler 42 mem')"
proof -
  have t: "tokens_of (snapshot_memory (Some stale_auth_snapshot)) 2 = Some 42"
    and ok: "auth_ok (snapshot_memory (Some stale_auth_snapshot))"
    by (simp_all add: snapshot_memory_def stale_auth_snapshot_def tokens_of_def auth_ok_def base_of_conn_def sample_h2_def)
  have e: "\<forall>i c. hm_get (mem_conns sample_world) i = Some c \<longrightarrow> msg_expires sample_ft (as_create_message c i) \<noteq> None"
    by (simp add: msg_expires_def as_create_message_def datetime_of_rkyv_def sample_ft_def split: option.split)
  have u: "uuid_laws (x_uuid_str sample_ext) sample_uuid_parse" using sample_uuid_laws by (simp add: sample_ext_def)
  have "hm_wf (mem_conns sample_world)" by simp
  from auth_start_tokens [OF u sample_healthy(2) this ok e, of "\<lambda>i. i < 3" 3 "\<lambda>_. 0" sample_node 42] t
  show ?thesis by auto
qed

section \<open>Batches on a node\<close>

text \<open>Whether a connection is on the node after a batch: its last message decides.\<close>

definition present_after :: "uuid \<Rightarrow> message list \<Rightarrow> bool \<Rightarrow> bool" where
  "present_after i msgs b = fold (\<lambda>msg b. if m_conn_id msg \<noteq> i then b
     else (case m_action msg of Delete \<Rightarrow> False | ResetStat \<Rightarrow> b | _ \<Rightarrow> True)) msgs b"

lemma handle_message_present:
  assumes "fst (handle_message x msg s) = Ret ()"
  shows "hm_get (ns_mem (snd (handle_message x msg s))) i \<noteq> None \<longleftrightarrow> present_after i [msg] (hm_get (ns_mem s) i \<noteq> None)"
proof (cases "m_conn_id msg = i")
  case False
  with handle_message_other [of i msg x s] show ?thesis by (auto simp: present_after_def)
next
  case True
  show ?thesis
  proof (cases "m_action msg")
    case Create
    with True handle_create_adds [OF _ assms] show ?thesis by (auto simp: present_after_def)
  next
    case Update
    with True handle_create_adds [OF _ assms] show ?thesis by (auto simp: present_after_def)
  next
    case Delete
    with True handle_delete_removes [OF _ assms] show ?thesis by (auto simp: present_after_def)
  next
    case ResetStat
    with handle_reset [OF this, of x s] show ?thesis by (auto simp: present_after_def)
  qed
qed

lemma node_batch_present:
  assumes "fst (node_batch x msgs s) = Ret ()"
  shows "hm_get (ns_mem (snd (node_batch x msgs s))) i \<noteq> None \<longleftrightarrow> present_after i msgs (hm_get (ns_mem s) i \<noteq> None)"
  using assms
proof (induction msgs arbitrary: s)
  case (Cons msg msgs)
  obtain r s1 where h: "handle_message x msg s = (r, s1)" by force
  with Cons.prems obtain u where r: "r = Ret u" by (cases r) auto
  have "hm_get (ns_mem s1) i \<noteq> None \<longleftrightarrow> present_after i [msg] (hm_get (ns_mem s) i \<noteq> None)"
    using handle_message_present [of x msg s i] h r by simp
  moreover have "present_after i (msg # msgs) b = present_after i msgs (present_after i [msg] b)" for b
    by (simp add: present_after_def)
  moreover have "hm_get (ns_mem (snd (node_batch x msgs s1))) i \<noteq> None \<longleftrightarrow> present_after i msgs (hm_get (ns_mem s1) i \<noteq> None)"
    using Cons.IH [of s1] Cons.prems h r by simp
  ultimately show ?case by (simp add: h r)
qed (simp add: present_after_def)

lemma node_batch_error:
  assumes "node_batch x msgs s = (Err e, s')"
  shows "\<exists>pre msg post s1. msgs = pre @ msg # post \<and> node_batch x pre s = (Ret (), s1) \<and> handle_message x msg s1 = (Err e, s')"
  using assms
proof (induction msgs arbitrary: s)
  case (Cons msg msgs)
  obtain r s1 where h: "handle_message x msg s = (r, s1)" by force
  show ?case
  proof (cases r)
    case (Ret u)
    with Cons h obtain pre m post s2 where "msgs = pre @ m # post" "node_batch x pre s1 = (Ret (), s2)"
        "handle_message x m s2 = (Err e, s')" by fastforce
    with h Ret show ?thesis by (intro exI [of _ "msg # pre"]) auto
  next
    case (Err e')
    with Cons.prems h show ?thesis by (intro exI [of _ "[]"]) auto
  qed (use Cons.prems h in simp)
qed simp


section \<open>Starting a node\<close>

lemma concat_wanted:
  "concat (map (\<lambda>t. wanted_messages (sync_request n t ts) w) tags) =
     map (\<lambda>(i, c). as_create_message c i) (concat (map (\<lambda>t. wanted (sync_request n t ts) w) tags))"
  by (induction tags) (simp_all add: wanted_messages_def)

lemma wanted_tag:
  assumes "t \<in> set (sync_tags n)" and "hm_wf (mem_conns w)"
  shows "(i, c) \<in> set (wanted (sync_request n t None) w) \<longleftrightarrow> hm_get (mem_conns w) i = Some c \<and>
     \<not> c_is_deleted c \<and> c_env c = n_env n \<and> proto_tag_of (c_proto c) = t"
  using assms(1) map_of_eq_Some_iff [OF assms(2), of i c]
  by (auto simp: wanted_def wants_def sync_request_def sync_tags_def)

text \<open>The connections a node has to serve.\<close>

definition serves :: "node \<Rightarrow> world \<Rightarrow> uuid \<Rightarrow> conn \<Rightarrow> bool" where
  "serves n w i c = (hm_get (mem_conns w) i = Some c \<and> \<not> c_is_deleted c \<and> c_env c = n_env n \<and>
     proto_tag_of (c_proto c) \<in> set (sync_tags n))"

lemma node_start_fresh:
  assumes laws: "uuid_laws (x_uuid_str x) up" and "healthy_from x (w_tick w)" and "agent_healthy ax"
    and wf: "hm_wf (mem_conns w)" and "ns_mem s = []"
    and ok: "\<forall>i c. serves n w i c \<longrightarrow> decodes ax c \<and> servable (c_proto c)"
    and "\<not> hf k"
  shows "\<exists>w' s'. node_start x hf False up ax n None (w, s) = Some (w', Inr s') \<and> mem_conns w' = mem_conns w \<and>
    (\<forall>i b. hm_get (ns_mem s') i = Some b \<longrightarrow> (\<exists>c. serves n w i c \<and> carries c b)) \<and>
    (\<forall>i c. serves n w i c \<longrightarrow> hm_get (ns_mem s') i \<noteq> None)"
proof -
  from register_loop_ends [where hf = hf and k = k, OF assms(2,7), of n] obtain w1 where reg: "register_loop x hf n w = Some w1"
    and m1: "mem_conns w1 = mem_conns w" and h1: "healthy_from x (w_tick w1)" .
  define w' where "w' = snd (sync_all x False n (sync_tags n) None w1)"
  define s' where "s' = deliver (x_uuid_str x) up ax n (published w1 w') s"
  have start: "node_start x hf False up ax n None (w, s) = Some (w', Inr s')"
    using sync_all_healthy [OF h1, of n "sync_tags n" None]
    by (auto simp: node_start_def reg w'_def s'_def Let_def split: prod.split)
  let ?req = "\<lambda>t. sync_request n t None"
  let ?tags = "filter (\<lambda>t. wanted_messages (?req t) w1 \<noteq> []) (sync_tags n)"
  let ?cs = "concat (map (\<lambda>t. wanted (?req t) w1) ?tags)"
  let ?ms = "map (\<lambda>t. wanted_messages (?req t) w1) ?tags"
  have "w_pub w' = w_pub w1 @ map (\<lambda>t. (Init (n_uuid n), wanted_messages (?req t) w1)) ?tags"
    using sync_all_healthy [OF h1, of n "sync_tags n" None] by (simp add: w'_def)
  then have pub: "published w1 w' = map (\<lambda>m. (Init (n_uuid n), m)) ?ms"
    by (simp add: published_append comp_def)
  have set: "(i, c) \<in> set ?cs \<longleftrightarrow> serves n w i c" for i c
  proof -
    have "wanted_messages (?req t) w1 \<noteq> [] \<longleftrightarrow> wanted (?req t) w1 \<noteq> []" for t by (simp add: wanted_messages_def)
    then have "(i, c) \<in> set ?cs \<longleftrightarrow> (\<exists>t \<in> set (sync_tags n). (i, c) \<in> set (wanted (?req t) w1))" by force
    also have "\<dots> \<longleftrightarrow> serves n w i c" using wanted_tag [of _ n w1] wf by (auto simp: serves_def m1)
    finally show ?thesis .
  qed
  have "\<forall>(i, c) \<in> set ?cs. decodes ax c \<and> servable (c_proto c)"
    using ok set unfolding split_paired_Ball_Sigma split_beta by (metis prod.collapse)
  note b = batch_create_healthy [OF assms(3) this, of s]
  have "s' = fold (\<lambda>msgs s. snd (node_batch ax msgs s)) ?ms s" unfolding s'_def pub by (rule deliver_init [OF laws])
  also have "\<dots> = snd (node_batch ax (map (\<lambda>(i, c). as_create_message c i) ?cs) s)"
    using b batches_append [of ax ?ms s] unfolding concat_wanted by blast
  finally have s': "s' = snd (node_batch ax (map (\<lambda>(i, c). as_create_message c i) ?cs) s)" .
  have m: "mem_conns w' = mem_conns w" unfolding w'_def using sync_all_frame [of x False n "sync_tags n" None w1] m1 by simp
  have here: "hm_get (ns_mem s) j = Some d \<or> (\<exists>c. (j, c) \<in> set ?cs \<and> carries c d)"
    if "hm_get (ns_mem s') j = Some d" for j d
    using b that unfolding s' by blast
  have mine: "\<exists>c. serves n w j c \<and> carries c d" if "hm_get (ns_mem s') j = Some d" for j d
    using here [OF that] assms(5) unfolding set by simp
  have there: "hm_get (ns_mem s') j \<noteq> None" if "j \<in> fst ` set ?cs" for j
    using b that unfolding s' by blast
  have all: "hm_get (ns_mem s') j \<noteq> None" if "serves n w j c" for j c
    using there [of j] that [folded set] by (metis fst_conv image_eqI)
  show ?thesis
    by (intro exI conjI, rule start, rule m) (use mine all in simp_all)
qed


definition sample_agent :: agent_ext where
  "sample_agent = \<lparr>ne_clock = sample_clock, ne_fails = (\<lambda>_. False), ne_peers = (\<lambda>_. Some []),
     ne_stat_value = (\<lambda>_ _. None), ne_users_count = (\<lambda>_ _. None), ne_from_timestamp = sample_ft,
     ne_b64_decode = (\<lambda>s. Inr (map (\<lambda>c. of_nat (of_char c)) s)), ne_b64_encode = map (\<lambda>b. char_of (unat b)),
     ne_x25519 = (\<lambda>_. replicate 32 0), ne_uuid_str = sample_uuid_str, ne_err_str = (\<lambda>_. ''error''),
     ne_has_xray = True, ne_has_stats = True, ne_has_wg = True\<rparr>"

lemma sample_agent_healthy: "agent_healthy sample_agent"
proof -
  have "(of_nat (of_char (char_of (unat b) :: char)) :: u8) = b" for b :: u8
    using unat_bound [of b] by (simp add: of_char_of)
  then show ?thesis by (simp add: agent_healthy_def sample_agent_def comp_def)
qed

lemma sample_agent_decodes: "decodes sample_agent c"
proof -
  have "timestamp_laws sample_ft" by (simp add: timestamp_laws_def sample_ft_def)
  moreover have "datetime_of_rkyv sample_ft (rkyv_of_datetime e) \<noteq> None" for e
    by (simp add: datetime_of_rkyv_def sample_ft_def)
  ultimately show ?thesis
    by (simp add: decodes_def sample_agent_def datetime_rkyv_roundtrip)
qed

definition sample_inbound :: inbound where
  "sample_inbound = \<lparr>i_tag = VlessTcpReality, i_port = 443, i_stream_settings = None, i_uplink = None,
     i_downlink = None, i_conn_count = None, i_wg = None, i_h2 = None, i_mtproto_secret = None\<rparr>"

definition vless_node :: node where
  "vless_node = sample_node\<lparr>n_inbounds := [VlessTcpReality \<mapsto> sample_inbound]\<rparr>"

definition fresh_node_state :: node_state where
  "fresh_node_state = \<lparr>ns_mem = [], ns_calls = [], ns_tick = 0\<rparr>"

lemma sample_sync_tags: "sync_tags vless_node = [VlessTcpReality]"
  by (simp add: sync_tags_def vless_node_def enum_proto_tag_def)

lemma sample_serves: "serves vless_node sample_world i c \<longleftrightarrow> i = 1 \<and> c = sample_conn"
proof -
  have "n_env vless_node = Production" by (simp add: vless_node_def sample_node_def)
  then show ?thesis
    by (auto simp: serves_def sample_sync_tags sample_conn_def sample_h2_def sample_wg_def split: if_splits)
qed


text \<open>C29. A deletion that a node misses while it is down is never caught up: a connection that is in
  the snapshot stays in the node's memory after the restart although the server has deleted it,
  because the requests the node sends only bring creations.\<close>

theorem missed_delete_survives:
  assumes "uuid_laws (x_uuid_str x) up" and "hm_wf (mem_conns w)"
    and "hm_get (sn_memory sn) i = Some b" and "hm_get (mem_conns w) i = Some c" and "c_is_deleted c"
    and "node_start x hf sf up ax n (Some sn) (w, s) = Some (w', Inr s')"
  shows "hm_get (ns_mem s') i = Some b"
proof -
  let ?s = "node_restart ax sn s"
  let ?ts = "Some (sn_timestamp sn)"
  from assms(6) obtain w1 where reg: "register_loop x hf n w = Some w1"
      and sy: "snd (sync_all x sf n (sync_tags n) ?ts w1) = w'"
      and s': "s' = deliver (x_uuid_str x) up ax n (published w1 w') ?s"
    by (auto simp: node_start_def Let_def split: option.splits prod.splits sum.splits)
  have m1: "mem_conns w1 = mem_conns w" using register_loop_mem [OF reg] .
  define log where "log = published w1 w'"
  have l: "\<forall>(t, msgs) \<in> set log. \<exists>tag. t = Init (n_uuid n) \<and>
       msgs = wanted_messages (sync_request n tag ?ts) w1"
    using sync_all_frame [of x sf n "sync_tags n" ?ts w1] by (auto simp: published_append sy log_def)
  have other: "\<forall>msg \<in> set (wanted_messages req w1). m_conn_id msg \<noteq> i" for req
  proof -
    have "d = c" if "(i, d) \<in> set (mem_conns w)" for d
      using that assms(4) map_of_eq_Some_iff [OF assms(2), of i] by (metis option.inject)
    with assms(5) show ?thesis
      by (auto simp: wanted_messages_def wanted_def wants_def as_create_message_def m1)
  qed
  have "hm_get (ns_mem (deliver (x_uuid_str x) up ax n log s1)) i = hm_get (ns_mem s1) i" for s1
    using l
  proof (induction log arbitrary: s1)
    case (Cons e log)
    obtain t msgs where e: "e = (t, msgs)" by force
    with Cons.prems obtain tag where m: "msgs = wanted_messages (sync_request n tag ?ts) w1" by auto
    let ?s1 = "node_receive up ax (n_uuid n) (n_env n) (topic_to_string (x_uuid_str x) t, Some msgs) s1"
    have "hm_get (ns_mem ?s1) i = hm_get (ns_mem s1) i"
      unfolding node_sub.receive_published [OF assms(1)] using node_batch_other [OF other, of ax _ s1] by (simp add: m)
    with Cons show ?case by (simp add: deliver_def e)
  qed (simp add: deliver_def)
  then show ?thesis using assms(3) by (simp add: s' node_restart_mem log_def [symmetric])
qed

definition stale_snapshot :: snapshot where
  "stale_snapshot = \<lparr>sn_timestamp = 0, sn_memory = [(2, base_of_conn (sample_h2\<lparr>c_proto := ProtoXray VlessTcpReality\<rparr>))],
     sn_version = 1\<rparr>"

theorem missed_delete_survives_witness:
  "\<exists>w' s'. node_start sample_ext (\<lambda>i. i < 2) False sample_uuid_parse sample_agent vless_node (Some stale_snapshot)
      (sample_world, fresh_node_state) = Some (w', Inr s') \<and>
    hm_get (ns_mem s') 2 = Some (base_of_conn (sample_h2\<lparr>c_proto := ProtoXray VlessTcpReality\<rparr>))"
proof -
  obtain w1 where w1: "register_loop sample_ext (\<lambda>i. i < 2) vless_node sample_world = Some w1"
      "healthy_from sample_ext (w_tick w1)"
    by (rule register_loop_ends [OF sample_healthy(2), of "\<lambda>i. i < 2" 2]) simp_all
  obtain w2 where "sync_all sample_ext False vless_node (sync_tags vless_node) (Some (sn_timestamp stale_snapshot)) w1 =
      (Inr (), w2)"
    using sync_all_healthy [OF w1(2), of vless_node "sync_tags vless_node" "Some (sn_timestamp stale_snapshot)"]
    by (metis prod.collapse)
  with w1(1) obtain w' s' where s: "node_start sample_ext (\<lambda>i. i < 2) False sample_uuid_parse sample_agent vless_node
      (Some stale_snapshot) (sample_world, fresh_node_state) = Some (w', Inr s')"
    by (simp add: node_start_def Let_def)
  have "hm_get (ns_mem s') 2 = Some (base_of_conn (sample_h2\<lparr>c_proto := ProtoXray VlessTcpReality\<rparr>))"
    by (rule missed_delete_survives [OF _ _ _ _ _ s, where c = sample_h2])
       (use sample_uuid_laws in \<open>simp_all add: sample_ext_def stale_snapshot_def\<close>)
  with s show ?thesis by blast
qed

end
