(* ===== verification/Links.thy ===== *)
theory Links
  imports Subs NodeStore
begin

text \<open>
  The client links of a connection (\<open>config/inbound.rs\<close>, trait \<open>InboundConnLink\<close>) and the Clash
  configuration (\<open>config/clash.rs\<close>). Building and printing URLs (crate \<open>url\<close>), JSON, base64 and
  the X25519 base point multiplication are the parameter \<open>link_ext\<close>; its type variable is the
  crate's URL type. A string is its UTF-8 bytes.
\<close>

section \<open>Parameters\<close>

record vmess_connection =
  v_v :: string
  v_ps :: string
  v_add :: string
  v_port :: string
  v_id :: string
  v_aid :: string
  v_scy :: string
  v_net :: string
  v_type :: string
  v_host :: string
  v_path :: string
  v_tls :: string

record 'u link_ext =
  le_uuid_str :: "uuid \<Rightarrow> string"
  le_v6_str :: "u128 \<Rightarrow> string"
  le_url_parse :: "string \<Rightarrow> 'u option"
  le_append_pair :: "string \<Rightarrow> string \<Rightarrow> 'u \<Rightarrow> 'u"
  le_set_fragment :: "string \<Rightarrow> 'u \<Rightarrow> 'u"
  le_url_str :: "'u \<Rightarrow> string"
  le_json :: "vmess_connection \<Rightarrow> string option"
  le_b64 :: "string \<Rightarrow> string"
  le_b64_decode :: "string \<Rightarrow> string + u8 list"
  le_b64_encode :: "u8 list \<Rightarrow> string"
  le_x25519 :: "u8 list \<Rightarrow> u8 list"

text \<open>What the crate documents of a URL as its reader sees it: \<open>append_pair\<close> adds a pair at the end
  of the query, \<open>set_fragment\<close> replaces the fragment, and neither touches anything else.\<close>

definition url_laws :: "'u link_ext \<Rightarrow> ('u \<Rightarrow> (string \<times> string) list) \<Rightarrow> ('u \<Rightarrow> string option) \<Rightarrow> bool" where
  "url_laws x query fragment =
    ((\<forall>k v u. query (le_append_pair x k v u) = query u @ [(k, v)]) \<and>
     (\<forall>k v u. fragment (le_append_pair x k v u) = fragment u) \<and>
     (\<forall>f u. query (le_set_fragment x f u) = query u) \<and>
     (\<forall>f u. fragment (le_set_fragment x f u) = Some f))"

definition first :: "'a list \<Rightarrow> 'a option" where
  "first xs = (case xs of [] \<Rightarrow> None | x # _ \<Rightarrow> Some x)"

definition u16_to_string :: "u16 \<Rightarrow> string" where
  "u16_to_string p = dec_string (unat p)"

definition bool_to_string :: "bool \<Rightarrow> string" where
  "bool_to_string b = (if b then ''true'' else ''false'')"

definition newline :: string where
  "newline = [CHR 0x0A]"

definition parse_url :: "'u link_ext \<Rightarrow> string \<Rightarrow> (error, 'u) outcome" where
  "parse_url x s = (case le_url_parse x s of Some u \<Rightarrow> Ret u | None \<Rightarrow> Err UrlParse)"

text \<open>A chain of \<open>append_pair\<close> calls, and the tail of the name every link ends with.\<close>

definition append_pairs :: "'u link_ext \<Rightarrow> (string \<times> string) list \<Rightarrow> 'u \<Rightarrow> 'u" where
  "append_pairs x kvs u = fold (\<lambda>(k, v). le_append_pair x k v) kvs u"

definition named :: "'u link_ext \<Rightarrow> string \<Rightarrow> uuid \<Rightarrow> string \<Rightarrow> 'u \<Rightarrow> (error, string) outcome" where
  "named x label i what u =
    try_call (or_panic (get_uuid_last_octet_simple (le_uuid_str x) i)) (\<lambda>octet.
      Ret (le_url_str x (le_set_fragment x (label @ '' | '' @ octet @ '' '' @ what) u)))"

section \<open>Links\<close>

text \<open>The address part of the three VLESS links.\<close>

definition vless_base :: "'u link_ext \<Rightarrow> uuid \<Rightarrow> u32 \<Rightarrow> u16 \<Rightarrow> string" where
  "vless_base x i addr port =
     ''vless://'' @ le_uuid_str x i @ ''@'' @ ipv4_to_string addr @ '':'' @ u16_to_string port"

definition vless_xtls :: "'u link_ext \<Rightarrow> inbound \<Rightarrow> uuid \<Rightarrow> u32 \<Rightarrow> string \<Rightarrow> (error, string) outcome" where
  "vless_xtls x ib i addr label =
    try_call (ok_or (i_stream_settings ib) ''Missing stream settings'') (\<lambda>s.
    try_call (ok_or (ss_reality s) ''Missing reality settings'') (\<lambda>r.
    try_call (ok_or (first (r_short_ids r)) ''Missing SID'') (\<lambda>sid.
    try_call (ok_or (first (r_server_names r)) ''Missing SNI'') (\<lambda>sni.
    try_call (parse_url x (vless_base x i addr (i_port ib))) (\<lambda>u.
      named x label i ''XTLS'' (append_pairs x
        [(''security'', ''reality''), (''flow'', ''xtls-rprx-vision''), (''type'', ''tcp''),
         (''sni'', sni), (''fp'', ''chrome''), (''pbk'', r_public_key r), (''sid'', sid)] u))))))"

definition vless_grpc :: "'u link_ext \<Rightarrow> inbound \<Rightarrow> uuid \<Rightarrow> u32 \<Rightarrow> string \<Rightarrow> (error, string) outcome" where
  "vless_grpc x ib i addr label =
    try_call (ok_or (i_stream_settings ib) ''Missing stream settings'') (\<lambda>s.
    try_call (ok_or (ss_reality s) ''Missing reality settings'') (\<lambda>r.
    try_call (ok_or (ss_grpc_service_name s) ''Missing gRPC settings'') (\<lambda>service_name.
    try_call (parse_url x (vless_base x i addr (i_port ib))) (\<lambda>u.
      named x label i ''GRPC'' (append_pairs x
        [(''security'', ''reality''), (''type'', ''grpc''), (''serviceName'', service_name),
         (''sni'', case_option '''' id (first (r_server_names r))), (''pbk'', r_public_key r),
         (''sid'', case_option '''' id (first (r_short_ids r)))] u)))))"

definition vless_xhttp :: "'u link_ext \<Rightarrow> inbound \<Rightarrow> uuid \<Rightarrow> u32 \<Rightarrow> string \<Rightarrow> (error, string) outcome" where
  "vless_xhttp x ib i addr label =
    try_call (ok_or (i_stream_settings ib) ''Missing stream settings'') (\<lambda>s.
    try_call (ok_or (ss_reality s) ''Missing reality settings'') (\<lambda>r.
    try_call (ok_or (ss_xhttp_path s) ''Missing xHTTP settings'') (\<lambda>path.
    try_call (parse_url x (vless_base x i addr (i_port ib))) (\<lambda>u.
      named x label i ''XHTTP'' (append_pairs x
        [(''security'', ''reality''), (''type'', ''xhttp''), (''path'', path),
         (''pbk'', r_public_key r)] u)))))"

definition h2_link :: "'u link_ext \<Rightarrow> inbound \<Rightarrow> string \<Rightarrow> conn \<Rightarrow> (error, string) outcome" where
  "h2_link x ib label c =
    try_call (ok_or (i_h2 ib) ''Hysteria2 settings missing'') (\<lambda>h2.
      case proto_token (c_proto c) of
        None \<Rightarrow> Err (Custom ''H2 Token is required'')
      | Some token \<Rightarrow>
          try_call (parse_url x (''hysteria2://'' @ le_uuid_str x token @ ''@'' @ h2_host h2 @ '':'' @
              u16_to_string (i_port ib))) (\<lambda>u.
            named x label token ''H2'' (append_pairs x
              [(''insecure'', bool_to_string (h2_insecure h2)),
               (''up-mbps'', dec_string (case h2_up_mbps h2 of Some n \<Rightarrow> unat n | None \<Rightarrow> 0))] u)))"

definition mtproto_link :: "'u link_ext \<Rightarrow> inbound \<Rightarrow> u32 \<Rightarrow> string \<Rightarrow> (error, string) outcome" where
  "mtproto_link x ib addr label =
    try_call (ok_or (i_mtproto_secret ib) ''Mtproto settings missing'') (\<lambda>secret.
    try_call (parse_url x (''https://t.me/proxy?server='' @ ipv4_to_string addr @ ''&port='' @
        u16_to_string (i_port ib) @ ''&secret='' @ secret)) (\<lambda>u.
      Ret (le_url_str x (le_set_fragment x label u))))"

definition vmess_link :: "'u link_ext \<Rightarrow> inbound \<Rightarrow> uuid \<Rightarrow> u32 \<Rightarrow> string \<Rightarrow> (error, string) outcome" where
  "vmess_link x ib i addr label =
    try_call (ok_or (i_stream_settings ib) ''VMESS: stream settings error'') (\<lambda>s.
    try_call (ok_or (ss_tcp s) ''VMESS: stream tcp settings error'') (\<lambda>tcp.
    try_call (ok_or tcp ''VMESS: header tcp settings error'') (\<lambda>header.
    try_call (ok_or (th_request header) ''VMESS: header req settings error'') (\<lambda>req.
    try_call (ok_or (tr_headers req) ''VMESS: headers settings error'') (\<lambda>headers.
    try_call (ok_or (map_of headers ''Host'') ''VMESS: host settings error'') (\<lambda>hosts.
    try_call (ok_or (first hosts) ''VMESS: Host stream settings error'') (\<lambda>host.
    try_call (ok_or (first (tr_path req)) ''VMESS: path settings error'') (\<lambda>path.
    try_call (ok_or (le_json x \<lparr>v_v = ''2'', v_ps = ''Vmess '' @ label, v_add = ipv4_to_string addr,
        v_port = u16_to_string (i_port ib), v_id = le_uuid_str x i, v_aid = ''0'', v_scy = ''auto'',
        v_net = ''tcp'', v_type = ''http'', v_host = host, v_path = path, v_tls = ''none''\<rparr>)
        ''VMESS serde json error'') (\<lambda>json.
      Ret (''vmess://'' @ le_b64 x json @ ''#'' @ label))))))))))"

text \<open>The WireGuard configuration file, as the format string of the source lays it out.\<close>

definition wg_config :: "string \<Rightarrow> string \<Rightarrow> string \<Rightarrow> string \<Rightarrow> string \<Rightarrow> string \<Rightarrow> string \<Rightarrow> string \<Rightarrow> string" where
  "wg_config private_key client_ip dns server_pubkey server port label conn_id =
    newline @ ''    [Interface]'' @ newline @
    ''    PrivateKey = '' @ private_key @ newline @
    ''    Address    = '' @ client_ip @ newline @
    ''    DNS        = '' @ dns @ newline @ newline @
    ''    [Peer]'' @ newline @
    ''    PublicKey           = '' @ server_pubkey @ newline @
    ''    Endpoint            = '' @ server @ '':'' @ port @ newline @
    ''    AllowedIPs          = 0.0.0.0/0, ::/0'' @ newline @
    ''    PersistentKeepalive = 25'' @ newline @ newline @
    ''    # '' @ label @ '' '' @ [CHR 0xE2, CHR 0x80, CHR 0x94] @ '' conn_id: '' @ conn_id @ newline @ ''    ''"

definition join_with :: "string \<Rightarrow> string list \<Rightarrow> string" where
  "join_with sep xs = (case xs of [] \<Rightarrow> [] | y # ys \<Rightarrow> y @ concat (map (\<lambda>z. sep @ z) ys))"

definition wireguard_link :: "'u link_ext \<Rightarrow> inbound \<Rightarrow> uuid \<Rightarrow> conn \<Rightarrow> u32 \<Rightarrow> string \<Rightarrow> (error, string) outcome" where
  "wireguard_link x ib i c addr label = (case proto_wireguard (c_proto c) of
      None \<Rightarrow> Err (Custom ''WG Conn is not configured'')
    | Some wg_conn \<Rightarrow> (case i_wg ib of
        None \<Rightarrow> Err (Custom ''WG Inbound is not configured'')
      | Some wg \<Rightarrow>
          try_call (of_sum (pubkey (le_b64_decode x) (le_b64_encode x) (le_x25519 x) (ws_keys wg)))
            (\<lambda>server_pubkey. Ret (wg_config (privkey (keys wg_conn))
              (mask_to_string (le_v6_str x) (wg_address wg_conn))
              (join_with '','' (map ipv4_to_string (ws_dns wg))) server_pubkey (ipv4_to_string addr)
              (u16_to_string (ws_port wg)) label (le_uuid_str x i)))))"

definition create_link :: "'u link_ext \<Rightarrow> inbound \<Rightarrow> uuid \<Rightarrow> conn \<Rightarrow> string \<Rightarrow> u32 \<Rightarrow> string \<Rightarrow>
    (error, string) outcome" where
  "create_link x ib i c hostname addr label = (case i_tag ib of
      VlessTcpReality \<Rightarrow> vless_xtls x ib i addr label
    | VlessGrpcReality \<Rightarrow> vless_grpc x ib i addr label
    | VlessXhttpReality \<Rightarrow> vless_xhttp x ib i addr label
    | Hysteria2 \<Rightarrow> h2_link x ib label c
    | Wireguard \<Rightarrow> wireguard_link x ib i c addr label
    | Mtproto \<Rightarrow> mtproto_link x ib addr label
    | Vmess \<Rightarrow> vmess_link x ib i addr label
    | Shadowsocks \<Rightarrow> Err (Custom ''Unsupported protocol tag''))"

section \<open>Clash\<close>

record http_opts =
  ho_method :: string
  ho_path :: "string list"
  ho_connection :: "string list"
  ho_ip_version :: string
  ho_host :: string

datatype clash_proxy =
    VmessProxy (cp_name: string) (cp_server: string) (cp_port: u16) (cp_uuid: string) string bool u8 string http_opts
  | VlessProxy (cp_name: string) (cp_server: string) (cp_port: u16) (cp_uuid: string) bool bool (vp_network: string)
      (vp_servername: string) "string \<times> string" "(string \<times> string) option" "string list option" string
      (vp_flow: "string option")

record clash_group =
  cg_name :: string
  cg_type :: string
  cg_url :: string
  cg_interval :: u32
  cg_proxies :: "string list"

record clash_config =
  cc_port :: u16
  cc_mode :: string
  cc_proxies :: "clash_proxy list"
  cc_groups :: "clash_group list"
  cc_rules :: "string list"

definition automatic :: string where
  "automatic = [CHR 0xE2, CHR 0x99, CHR 0xBB, CHR 0xEF, CHR 0xB8, CHR 0x8F] @ '' Automatic''"

definition clash :: "clash_proxy list \<Rightarrow> clash_config" where
  "clash proxies = \<lparr>cc_port = 7890, cc_mode = ''global'', cc_proxies = proxies,
     cc_groups = [\<lparr>cg_name = automatic, cg_type = ''url-test'',
       cg_url = ''http://www.gstatic.com/generate_204'', cg_interval = 300,
       cg_proxies = map cp_name proxies\<rparr>],
     cc_rules = []\<rparr>"

text \<open>The transport of a VLESS proxy: gRPC settings win over xHTTP settings, which win over plain
  TCP; any other transport has no proxy.\<close>

definition clash_transport :: "stream_settings \<Rightarrow>
    (string \<times> (string \<times> string) option \<times> string option \<times> string list option) option" where
  "clash_transport s = (case ss_grpc_service_name s of
      Some name \<Rightarrow> Some (''grpc'', Some (name, ''dual''), None, None)
    | None \<Rightarrow> (case (ss_xhttp_path s, ss_reality s) of
        (Some path, Some _) \<Rightarrow> Some (''xhttp'', None, None, Some [path])
      | _ \<Rightarrow> if ss_network s = Tcp then Some (''tcp'', None, Some ''xtls-rprx-vision'', None) else None))"

text \<open>\<open>proxy\<close>: the inner \<open>None\<close> is a connection Clash cannot use.\<close>

definition clash_name :: "'u link_ext \<Rightarrow> inbound \<Rightarrow> uuid \<Rightarrow> string \<Rightarrow> (error, string) outcome" where
  "clash_name x ib i label = try_call (or_panic (get_uuid_last_octet_simple (le_uuid_str x) i)) (\<lambda>octet.
     Ret (label @ '' ['' @ tag_to_string (i_tag ib) @ ''] '' @ octet))"

definition vmess_host :: "stream_settings \<Rightarrow> (string \<times> string) option" where
  "vmess_host s =
    Option.bind (ss_tcp s) (\<lambda>tcp. Option.bind tcp (\<lambda>header. Option.bind (th_request header) (\<lambda>req.
      Option.bind (tr_headers req) (\<lambda>headers. Option.bind (map_of headers ''Host'') (\<lambda>hosts.
        map_option (\<lambda>host. (host, case_option ''/'' id (first (tr_path req)))) (first hosts))))))"

definition clash_proxy_of :: "'u link_ext \<Rightarrow> inbound \<Rightarrow> uuid \<Rightarrow> u32 \<Rightarrow> string \<Rightarrow>
    (error, clash_proxy option) outcome" where
  "clash_proxy_of x ib i addr label = (case i_stream_settings ib of
      None \<Rightarrow> Ret None
    | Some stream \<Rightarrow>
        if i_tag ib = Vmess then (case vmess_host stream of
            None \<Rightarrow> Ret None
          | Some (h, path) \<Rightarrow> try_call (clash_name x ib i label) (\<lambda>name.
              Ret (Some (VmessProxy name (ipv4_to_string addr) (i_port ib) (le_uuid_str x i) ''auto'' True 0
                ''http'' \<lparr>ho_method = ''GET'', ho_path = [path], ho_connection = [''keep-alive''],
                  ho_ip_version = ''dual'', ho_host = h\<rparr>))))
        else if i_tag ib \<in> {VlessGrpcReality, VlessTcpReality, VlessXhttpReality} then
          (case ss_reality stream of
            None \<Rightarrow> Ret None
          | Some reality \<Rightarrow> (case clash_transport stream of
              None \<Rightarrow> Ret None
            | Some (network, grpc_opts, flow, http) \<Rightarrow> try_call (clash_name x ib i label) (\<lambda>name.
                Ret (Some (VlessProxy name (ipv4_to_string addr) (i_port ib) (le_uuid_str x i) True True network
                  (case_option '''' id (first (r_server_names reality)))
                  (r_public_key reality, case_option '''' id (first (r_short_ids reality)))
                  grpc_opts http ''chrome'' flow)))))
        else Ret None)"

section \<open>What a link says\<close>

lemma append_pairs_laws:
  assumes "url_laws x query fragment"
  shows "query (append_pairs x kvs u) = query u @ kvs" and "fragment (append_pairs x kvs u) = fragment u"
  using assms
  by (induction kvs arbitrary: u) (auto simp: append_pairs_def url_laws_def)

text \<open>A named link is the print of a URL with the given query and fragment.\<close>

lemma named_Ret:
  assumes "url_laws x query fragment" and "named x label i what (append_pairs x kvs u) = Ret link"
  obtains v octet where "link = le_url_str x v" "query v = query u @ kvs"
    "get_uuid_last_octet_simple (le_uuid_str x) i = Some octet"
    "fragment v = Some (label @ '' | '' @ octet @ '' '' @ what)"
  using assms append_pairs_laws [OF assms(1), of kvs u]
  by (auto simp: named_def url_laws_def)

lemma named_not_Panic:
  "24 \<le> length (le_uuid_str x i) \<Longrightarrow> named x label i what u \<noteq> Panic"
  by (simp add: named_def get_uuid_last_octet_simple_def)

end
