(* ===== verification/Metrics.thy ===== *)
theory Metrics
  imports Prelude
begin

text \<open>
  The metrics a node sends and the API server keeps (\<open>metrics/{mod,storage}.rs\<close>,
  \<open>bin/api/metrics.rs\<close>): the buffer that collects a batch, the worker that stores received
  batches, the storage with its three maps and its garbage collection, and the queries the
  dashboards use. A value is the bit pattern of a double, which the storage only copies; a time
  stamp is an \<open>i64\<close> of milliseconds, whose arithmetic wraps around in a release build. The hash
  of a series is a parameter, since the standard library does not specify its hasher. A set of
  hashes is a list without duplicates, in the order an iteration would visit it.
\<close>

section \<open>Data\<close>

type_synonym f64 = u64
type_synonym tags = "(string \<times> string) list"

record metric_point =
  mp_timestamp :: int
  mp_value :: f64

record metric_envelope =
  me_node_id :: uuid
  me_name :: string
  me_value :: f64
  me_timestamp :: int
  me_tags :: tags

type_synonym series_map = "(u64, metric_point list) hmap"
type_synonym tag_index = "(string, (string, u64 list) hmap) hmap"

record metric_storage =
  ms_inner :: "(uuid, series_map) hmap"
  ms_metadata :: "(u64, string \<times> tags) hmap"
  ms_tag_index :: tag_index
  ms_max_points :: nat
  ms_retention_seconds :: int

definition storage_new :: "nat \<Rightarrow> int \<Rightarrow> metric_storage" where
  "storage_new max_points retention_seconds = \<lparr>ms_inner = [], ms_metadata = [], ms_tag_index = [],
     ms_max_points = max_points, ms_retention_seconds = retention_seconds\<rparr>"

definition i64_wrap :: "int \<Rightarrow> int" where
  "i64_wrap n = sint (word_of_int n :: i64)"

definition min_ts :: "int \<Rightarrow> metric_storage \<Rightarrow> int" where
  "min_ts now st = i64_wrap (now - i64_wrap (ms_retention_seconds st * 1000))"

text \<open>\<open>entry(k).or_default()\<close>, and \<open>retain\<close> with a closure that may also change the value.\<close>

definition or_default :: "('k, 'v list) hmap \<Rightarrow> 'k \<Rightarrow> 'v list" where
  "or_default m k = (case hm_get m k of Some v \<Rightarrow> v | None \<Rightarrow> [])"

definition hm_retain :: "('v list \<Rightarrow> 'v list) \<Rightarrow> ('k, 'v list) hmap \<Rightarrow> ('k, 'v list) hmap" where
  "hm_retain f m = filter (\<lambda>(_, v). v \<noteq> []) (map (\<lambda>(k, v). (k, f v)) m)"

section \<open>The buffer of a sender\<close>

definition buffer_push :: "uuid \<Rightarrow> string \<Rightarrow> f64 \<Rightarrow> tags \<Rightarrow> int \<Rightarrow> metric_envelope list \<Rightarrow> metric_envelope list" where
  "buffer_push node_id name v ts now batch = batch @ [\<lparr>me_node_id = node_id, me_name = name, me_value = v,
     me_timestamp = now, me_tags = ts\<rparr>]"

text \<open>\<open>flush_to_zmq\<close>: the batch is taken out of the buffer before it is sent; \<open>sent\<close> are the batches
  that left.\<close>

definition flush_to_zmq :: "bool \<Rightarrow> metric_envelope list \<times> metric_envelope list list \<Rightarrow>
    metric_envelope list \<times> metric_envelope list list" where
  "flush_to_zmq send_fails bs = (case bs of (batch, sent) \<Rightarrow>
     if batch = [] then (batch, sent) else ([], if send_fails then sent else sent @ [batch]))"

section \<open>The storage\<close>

definition index_add :: "u64 \<Rightarrow> string \<times> string \<Rightarrow> tag_index \<Rightarrow> tag_index" where
  "index_add key kv idx = (case kv of (k, v) \<Rightarrow>
     (let tag_map = or_default idx k
      in hm_insert k (hm_insert v (List.insert key (or_default tag_map v)) tag_map) idx))"

definition push_point :: "nat \<Rightarrow> int \<Rightarrow> metric_point \<Rightarrow> metric_point list \<Rightarrow> metric_point list" where
  "push_point max_points oldest p q =
    (let q = q @ [p]; q = drop (length q - max_points) q in dropWhile (\<lambda>p. mp_timestamp p < oldest) q)"

definition insert_envelope :: "(string \<Rightarrow> tags \<Rightarrow> u64) \<Rightarrow> metric_envelope \<Rightarrow> metric_storage \<Rightarrow> metric_storage" where
  "insert_envelope make_series_key e st =
    (let key = make_series_key (me_name e) (me_tags e);
         st = (case hm_get (ms_metadata st) key of
             Some _ \<Rightarrow> st
           | None \<Rightarrow> st\<lparr>ms_tag_index := fold (index_add key) (me_tags e) (ms_tag_index st),
               ms_metadata := hm_insert key (me_name e, me_tags e) (ms_metadata st)\<rparr>);
         node_map = or_default (ms_inner st) (me_node_id e);
         q = push_point (ms_max_points st) (min_ts (me_timestamp e) st)
               \<lparr>mp_timestamp = me_timestamp e, mp_value = me_value e\<rparr> (or_default node_map key)
     in st\<lparr>ms_inner := hm_insert (me_node_id e) (hm_insert key q node_map) (ms_inner st)\<rparr>)"

text \<open>One round of the worker: a payload that does not decode is dropped.\<close>

definition metric_receive :: "(string \<Rightarrow> tags \<Rightarrow> u64) \<Rightarrow> metric_envelope list option \<Rightarrow> metric_storage \<Rightarrow>
    metric_storage" where
  "metric_receive make_series_key payload st = (case payload of
      None \<Rightarrow> st
    | Some ms \<Rightarrow> fold (insert_envelope make_series_key) ms st)"

definition get_range :: "uuid \<Rightarrow> u64 \<Rightarrow> int \<Rightarrow> int \<Rightarrow> metric_storage \<Rightarrow> metric_point list" where
  "get_range node_id key from until st = (case hm_get (ms_inner st) node_id of
      None \<Rightarrow> []
    | Some node_data \<Rightarrow> (case hm_get node_data key of
        None \<Rightarrow> []
      | Some q \<Rightarrow> filter (\<lambda>p. from \<le> mp_timestamp p \<and> mp_timestamp p \<le> until) q))"

definition find_series :: "tag_index \<Rightarrow> string \<Rightarrow> string \<Rightarrow> u64 list" where
  "find_series idx k v = (case hm_get idx k of
      None \<Rightarrow> []
    | Some tag_map \<Rightarrow> (case hm_get tag_map v of None \<Rightarrow> [] | Some s \<Rightarrow> s))"

definition find_series_by_tag :: "string \<Rightarrow> string \<Rightarrow> metric_storage \<Rightarrow> u64 list" where
  "find_series_by_tag k v st = find_series (ms_tag_index st) k v"

definition aggregate_node :: "string \<Rightarrow> int \<Rightarrow> int \<Rightarrow> u64 list \<Rightarrow> metric_storage \<Rightarrow> uuid \<Rightarrow> metric_point list option" where
  "aggregate_node name from until hashes st node_id = fold (\<lambda>key r.
     case hm_get (ms_metadata st) key of
       Some (n, _) \<Rightarrow> if n = name \<and> get_range node_id key from until st \<noteq> []
         then Some (get_range node_id key from until st) else r
     | None \<Rightarrow> r) hashes None"

definition get_aggregated_range :: "string \<Rightarrow> string \<Rightarrow> string \<Rightarrow> int \<Rightarrow> int \<Rightarrow> metric_storage \<Rightarrow>
    (uuid \<times> metric_point list) list" where
  "get_aggregated_range tag_key tag_value name from until st =
    (let hashes = find_series_by_tag tag_key tag_value st in
     List.map_filter (\<lambda>(node_id, _). map_option (Pair node_id)
       (aggregate_node name from until hashes st node_id)) (ms_inner st))"

definition gc_series :: "int \<Rightarrow> (uuid, series_map) hmap \<Rightarrow> (uuid, series_map) hmap" where
  "gc_series oldest = hm_retain (hm_retain (dropWhile (\<lambda>p. mp_timestamp p < oldest)))"

definition alive_series :: "(uuid, series_map) hmap \<Rightarrow> u64 list" where
  "alive_series inner = concat (map (\<lambda>(_, series). map fst series) inner)"

definition perform_gc :: "int \<Rightarrow> metric_storage \<Rightarrow> metric_storage" where
  "perform_gc now st =
    (let inner = gc_series (min_ts now st) (ms_inner st);
         alive = alive_series inner
     in st\<lparr>ms_inner := inner,
       ms_metadata := filter (\<lambda>(key, _). key \<in> set alive) (ms_metadata st),
       ms_tag_index := hm_retain (hm_retain (filter (\<lambda>key. key \<in> set alive))) (ms_tag_index st)\<rparr>)"

section \<open>Invariant\<close>

text \<open>Every stored series is within its bound and has metadata, and the tag index is the inverse of
  the metadata's tags.\<close>

definition series_ok :: "nat \<Rightarrow> (u64, string \<times> tags) hmap \<Rightarrow> series_map \<Rightarrow> bool" where
  "series_ok n meta series = (hm_wf series \<and>
     (\<forall>key q. hm_get series key = Some q \<longrightarrow> length q \<le> n \<and> hm_get meta key \<noteq> None))"

definition index_ok :: "(u64, string \<times> tags) hmap \<Rightarrow> tag_index \<Rightarrow> bool" where
  "index_ok meta idx = (hm_wf idx \<and> (\<forall>k m. hm_get idx k = Some m \<longrightarrow> hm_wf m) \<and>
     (\<forall>key k v. key \<in> set (find_series idx k v) \<longleftrightarrow>
        (\<exists>name ts. hm_get meta key = Some (name, ts) \<and> (k, v) \<in> set ts)))"

definition metrics_ok :: "metric_storage \<Rightarrow> bool" where
  "metrics_ok st = (hm_wf (ms_inner st) \<and> hm_wf (ms_metadata st) \<and>
     (\<forall>i series. hm_get (ms_inner st) i = Some series \<longrightarrow> series_ok (ms_max_points st) (ms_metadata st) series) \<and>
     index_ok (ms_metadata st) (ms_tag_index st))"

lemma hm_retain_keys: "fst ` set (hm_retain f m) \<subseteq> fst ` set m"
  by (force simp: hm_retain_def)

lemma hm_retain_Cons: "hm_retain f ((k, v) # m) = (if f v = [] then hm_retain f m else (k, f v) # hm_retain f m)"
  by (simp add: hm_retain_def)

lemma hm_retain_wf: "hm_wf m \<Longrightarrow> hm_wf (hm_retain f m)"
proof (induction m)
  case (Cons e m)
  then show ?case using hm_retain_keys [of f m] by (cases e) (auto simp: hm_retain_Cons)
qed (simp add: hm_retain_def)

lemma hm_retain_get:
  "hm_wf m \<Longrightarrow> hm_get (hm_retain f m) k = (case hm_get m k of
     None \<Rightarrow> None | Some v \<Rightarrow> if f v = [] then None else Some (f v))"
proof (induction m)
  case (Cons e m)
  obtain j v where e: "e = (j, v)" by force
  have "j \<notin> fst ` set (hm_retain f m)" using Cons.prems hm_retain_keys [of f m] by (auto simp: e)
  then have "hm_get (hm_retain f m) j = None" by (simp add: map_of_eq_None_iff)
  with Cons show ?case by (auto simp: e hm_retain_Cons)
qed (simp add: hm_retain_def)

lemma or_default_get: "hm_get m k = Some v \<Longrightarrow> or_default m k = v"
  by (simp add: or_default_def)

text \<open>The index after adding a series under its tags.\<close>

lemma find_index_add:
  "set (find_series (index_add key (k, v) idx) k' v') =
     set (find_series idx k' v') \<union> (if k' = k \<and> v' = v then {key} else {})"
  by (auto simp: find_series_def index_add_def or_default_def Let_def hm.get_insert split: option.splits)

lemma find_index_fold:
  "set (find_series (fold (index_add key) ts idx) k v) =
     set (find_series idx k v) \<union> (if (k, v) \<in> set ts then {key} else {})"
proof (induction ts arbitrary: idx)
  case (Cons e ts)
  obtain a b where "e = (a, b)" by force
  with Cons show ?case by (auto simp: find_index_add)
qed simp

lemma index_add_wf:
  assumes "hm_wf idx" and "\<forall>k m. hm_get idx k = Some m \<longrightarrow> hm_wf m"
  shows "hm_wf (fold (index_add key) ts idx) \<and> (\<forall>k m. hm_get (fold (index_add key) ts idx) k = Some m \<longrightarrow> hm_wf m)"
  using assms
proof (induction ts arbitrary: idx)
  case (Cons e ts)
  have "hm_wf (index_add key e idx)" using Cons.prems by (simp add: index_add_def Let_def split_beta distinct_update)
  moreover have "\<forall>k m. hm_get (index_add key e idx) k = Some m \<longrightarrow> hm_wf m"
    using Cons.prems by (auto simp: index_add_def or_default_def Let_def split_beta hm.get_insert distinct_update
        split: option.splits if_splits)
  ultimately show ?case using Cons.IH [of "index_add key e idx"] by simp
qed simp

lemma index_ok_add:
  assumes "index_ok meta idx" and "hm_get meta key = None"
  shows "index_ok (hm_insert key (name, ts) meta) (fold (index_add key) ts idx)"
proof -
  have "j \<in> set (find_series (fold (index_add key) ts idx) k v) \<longleftrightarrow>
      (\<exists>n us. hm_get (hm_insert key (name, ts) meta) j = Some (n, us) \<and> (k, v) \<in> set us)" for j k v
    using assms by (auto simp: find_index_fold index_ok_def hm.get_insert)
  moreover have "hm_wf idx" "\<forall>k m. hm_get idx k = Some m \<longrightarrow> hm_wf m"
    using assms(1) by (auto simp: index_ok_def)
  ultimately show ?thesis using index_add_wf [of idx key ts] by (simp add: index_ok_def)
qed

lemma push_point_length: "length (push_point n t p q) \<le> n"
proof -
  have "length (push_point n t p q) \<le> length (drop (length (q @ [p]) - n) (q @ [p]))"
    by (simp only: push_point_def Let_def length_dropWhile_le)
  then show ?thesis by simp
qed

lemma series_ok_mono:
  assumes "series_ok n meta series" and "\<And>key. hm_get meta key \<noteq> None \<Longrightarrow> hm_get meta' key \<noteq> None"
  shows "series_ok n meta' series"
  using assms by (auto simp: series_ok_def)

lemma insert_envelope_ok:
  assumes "metrics_ok st"
  shows "metrics_ok (insert_envelope h e st)"
proof -
  let ?key = "h (me_name e) (me_tags e)"
  define st' where "st' = (case hm_get (ms_metadata st) ?key of
       Some _ \<Rightarrow> st
     | None \<Rightarrow> st\<lparr>ms_tag_index := fold (index_add ?key) (me_tags e) (ms_tag_index st),
         ms_metadata := hm_insert ?key (me_name e, me_tags e) (ms_metadata st)\<rparr>)"
  have inner: "ms_inner st' = ms_inner st" "ms_max_points st' = ms_max_points st"
    by (simp_all add: st'_def split: option.split)
  have grow: "hm_get (ms_metadata st) k \<noteq> None \<Longrightarrow> hm_get (ms_metadata st') k \<noteq> None" for k
    by (auto simp: st'_def hm.get_insert split: option.split)
  have key: "hm_get (ms_metadata st') ?key \<noteq> None"
    by (auto simp: st'_def hm.get_insert split: option.split)
  have ok: "hm_wf (ms_inner st)" "hm_wf (ms_metadata st')" "index_ok (ms_metadata st') (ms_tag_index st')"
    using assms by (auto simp: st'_def metrics_ok_def index_ok_add distinct_update split: option.split)
  have ser: "series_ok (ms_max_points st) (ms_metadata st') series"
    if "hm_get (ms_inner st) i = Some series" for i series
    by (rule series_ok_mono [OF _ grow]) (use assms that in \<open>auto simp: metrics_ok_def\<close>)
  let ?node = "or_default (ms_inner st) (me_node_id e)"
  have node: "series_ok (ms_max_points st) (ms_metadata st') ?node"
    using ser by (auto simp: or_default_def series_ok_def split: option.split)
  then have "series_ok (ms_max_points st) (ms_metadata st')
      (hm_insert ?key (push_point (ms_max_points st) t p q) ?node)" for t p q
    using key push_point_length by (auto simp: series_ok_def hm.get_insert distinct_update)
  then show ?thesis
    using ok ser
    by (auto simp: insert_envelope_def Let_def st'_def [symmetric] inner metrics_ok_def hm.get_insert distinct_update
        split: if_splits)
qed

lemma metric_receive_ok: "metrics_ok st \<Longrightarrow> metrics_ok (metric_receive h payload st)"
proof -
  have "metrics_ok st \<Longrightarrow> metrics_ok (fold (insert_envelope h) ms st)" for ms
    by (induction ms arbitrary: st) (simp_all add: insert_envelope_ok)
  then show "metrics_ok st \<Longrightarrow> metrics_ok (metric_receive h payload st)"
    by (simp add: metric_receive_def split: option.split)
qed

subsection \<open>Garbage collection\<close>

lemma gc_series_get:
  assumes "hm_wf inner" and "hm_wf series" and "hm_get inner i = Some series"
    and "hm_get series key = Some q" and "dropWhile (\<lambda>p. mp_timestamp p < oldest) q = r" and "r \<noteq> []"
  shows "\<exists>s'. hm_get (gc_series oldest inner) i = Some s' \<and> hm_get s' key = Some r"
proof -
  let ?s = "hm_retain (dropWhile (\<lambda>p. mp_timestamp p < oldest)) series"
  have "hm_get ?s key = Some r" using assms by (simp add: hm_retain_get)
  moreover from this have "?s \<noteq> []" by auto
  ultimately show ?thesis using assms(1,3) by (simp add: gc_series_def hm_retain_get)
qed

lemma gc_series_getD:
  assumes "hm_wf inner" and "hm_get (gc_series oldest inner) i = Some s'"
  obtains series where "hm_get inner i = Some series"
    "s' = hm_retain (dropWhile (\<lambda>p. mp_timestamp p < oldest)) series" "s' \<noteq> []"
  using assms by (auto simp: gc_series_def hm_retain_get split: option.splits if_splits)

lemma alive_iff:
  assumes "hm_wf inner" and "\<And>i s. hm_get inner i = Some s \<Longrightarrow> hm_wf s"
  shows "key \<in> set (alive_series inner) \<longleftrightarrow>
    (\<exists>i series q. hm_get inner i = Some series \<and> hm_get series key = Some q)"
proof
  assume "key \<in> set (alive_series inner)"
  then obtain i series where "(i, series) \<in> set inner" "key \<in> fst ` set series"
    by (auto simp: alive_series_def)
  with assms show "\<exists>i series q. hm_get inner i = Some series \<and> hm_get series key = Some q"
    by (metis map_of_eq_None_iff map_of_is_SomeI not_None_eq)
next
  assume "\<exists>i series q. hm_get inner i = Some series \<and> hm_get series key = Some q"
  then show "key \<in> set (alive_series inner)"
    by (force simp: alive_series_def dest!: map_of_SomeD)
qed

lemma filter_fst_get: "hm_get (filter (\<lambda>(k, _). P k) m) k = (if P k then hm_get m k else None)"
  by (induction m) auto

lemma find_retain:
  assumes "hm_wf idx" and "\<forall>k m. hm_get idx k = Some m \<longrightarrow> hm_wf m"
  shows "find_series (hm_retain (hm_retain (filter P)) idx) k v = filter P (find_series idx k v)"
proof (cases "hm_get idx k")
  case (Some m)
  then have wf: "hm_wf m" using assms by simp
  show ?thesis
  proof (cases "hm_retain (filter P) m = []")
    case True
    have "hm_get (hm_retain (filter P) m) v = None" by (simp add: True)
    with wf have "\<And>s. hm_get m v = Some s \<Longrightarrow> filter P s = []" by (auto simp: hm_retain_get split: if_splits)
    with Some True assms(1) show ?thesis by (auto simp: find_series_def hm_retain_get split: option.split)
  next
    case False
    with Some wf assms(1) show ?thesis by (auto simp: find_series_def hm_retain_get split: option.split)
  qed
qed (use assms(1) in \<open>simp add: find_series_def hm_retain_get\<close>)

text \<open>After a collection the metadata is exactly that of the series that have points.\<close>

lemma perform_gc_alive:
  assumes "metrics_ok st"
  shows "hm_get (ms_metadata (perform_gc now st)) key \<noteq> None \<longleftrightarrow>
    (\<exists>i series q. hm_get (ms_inner (perform_gc now st)) i = Some series \<and> hm_get series key = Some q \<and> q \<noteq> [])"
proof -
  let ?in = "gc_series (min_ts now st) (ms_inner st)"
  have wf: "hm_wf (ms_inner st)" and ser: "\<And>i s. hm_get (ms_inner st) i = Some s \<Longrightarrow>
      hm_wf s \<and> (\<forall>k q. hm_get s k = Some q \<longrightarrow> hm_get (ms_metadata st) k \<noteq> None)"
    using assms by (auto simp: metrics_ok_def series_ok_def)
  have wf': "hm_wf ?in" using wf by (simp add: gc_series_def hm_retain_wf)
  have ser': "hm_wf s' \<and> (\<forall>k q. hm_get s' k = Some q \<longrightarrow> q \<noteq> [] \<and> hm_get (ms_metadata st) k \<noteq> None)"
    if i: "hm_get ?in i = Some s'" for i s'
  proof -
    from gc_series_getD [OF wf i] obtain series where "hm_get (ms_inner st) i = Some series"
      "s' = hm_retain (dropWhile (\<lambda>p. mp_timestamp p < min_ts now st)) series" by metis
    with ser show ?thesis by (auto simp: hm_retain_wf hm_retain_get split: option.splits if_splits)
  qed
  have "hm_get (ms_metadata (perform_gc now st)) key \<noteq> None \<longleftrightarrow>
      key \<in> set (alive_series ?in) \<and> hm_get (ms_metadata st) key \<noteq> None"
    by (simp add: perform_gc_def Let_def filter_fst_get)
  also have "\<dots> \<longleftrightarrow> (\<exists>i series q. hm_get ?in i = Some series \<and> hm_get series key = Some q \<and> q \<noteq> [])"
  proof -
    have "key \<in> set (alive_series ?in) \<longleftrightarrow> (\<exists>i series q. hm_get ?in i = Some series \<and> hm_get series key = Some q)"
      using ser' by (intro alive_iff [OF wf']) blast
    with ser' show ?thesis by blast
  qed
  finally show ?thesis by (simp add: perform_gc_def Let_def)
qed

lemma perform_gc_ok:
  assumes "metrics_ok st"
  shows "metrics_ok (perform_gc now st)"
proof -
  let ?st = "perform_gc now st"
  let ?in = "gc_series (min_ts now st) (ms_inner st)"
  let ?alive = "\<lambda>key. key \<in> set (alive_series ?in)"
  have wf: "hm_wf (ms_inner st)" "hm_wf (ms_metadata st)" and idx: "index_ok (ms_metadata st) (ms_tag_index st)"
    using assms by (auto simp: metrics_ok_def)
  have ser: "hm_wf s" "length q \<le> ms_max_points st"
    if "hm_get (ms_inner st) i = Some s" "hm_get s k = Some q" for i s k q
    using assms that by (auto simp: metrics_ok_def series_ok_def)
  have eqs: "ms_inner ?st = ?in" "ms_max_points ?st = ms_max_points st"
    "ms_metadata ?st = filter (\<lambda>(key, _). ?alive key) (ms_metadata st)"
    "ms_tag_index ?st = hm_retain (hm_retain (filter ?alive)) (ms_tag_index st)"
    by (simp_all add: perform_gc_def Let_def)
  have "series_ok (ms_max_points st) (ms_metadata ?st) s'" if i: "hm_get ?in i = Some s'" for i s'
  proof -
    from gc_series_getD [OF wf(1) i] obtain s where s: "hm_get (ms_inner st) i = Some s"
      "s' = hm_retain (dropWhile (\<lambda>p. mp_timestamp p < min_ts now st)) s" by metis
    have "hm_wf s" using assms s(1) by (auto simp: metrics_ok_def series_ok_def)
    moreover have "length (dropWhile P q) \<le> ms_max_points st" if "hm_get s k = Some q" for P k q
      using ser(2) [OF s(1) that] length_dropWhile_le [of P q] by simp
    moreover have "hm_get (ms_metadata ?st) k \<noteq> None" if "hm_get s' k = Some q" for k q
    proof -
      have "q \<noteq> []" using that s(2) \<open>hm_wf s\<close> by (auto simp: hm_retain_get split: option.splits if_splits)
      with that i show ?thesis unfolding perform_gc_alive [OF assms] eqs(1) by blast
    qed
    ultimately show ?thesis using s(2)
      by (auto simp: series_ok_def hm_retain_wf hm_retain_get split: option.splits if_splits)
  qed
  moreover have "index_ok (ms_metadata ?st) (ms_tag_index ?st)"
  proof -
    from idx have w: "hm_wf (ms_tag_index st)" "\<forall>k m. hm_get (ms_tag_index st) k = Some m \<longrightarrow> hm_wf m"
      by (simp_all add: index_ok_def)
    then have "\<forall>k m. hm_get (ms_tag_index ?st) k = Some m \<longrightarrow> hm_wf m"
      by (auto simp: eqs(4) hm_retain_get hm_retain_wf split: option.splits if_splits)
    moreover have "key \<in> set (find_series (ms_tag_index ?st) k v) \<longleftrightarrow>
        (\<exists>name ts. hm_get (ms_metadata ?st) key = Some (name, ts) \<and> (k, v) \<in> set ts)" for key k v
      using idx by (auto simp: eqs(3,4) find_retain [OF w] filter_fst_get index_ok_def)
    ultimately show ?thesis using w(1) by (simp add: index_ok_def eqs(4) hm_retain_wf)
  qed
  moreover have "hm_wf ?in" using wf(1) by (simp add: gc_series_def hm_retain_wf)
  moreover have "hm_wf (ms_metadata ?st)" using wf(2) by (simp add: eqs(3) distinct_map_filter)
  ultimately show ?thesis by (simp add: metrics_ok_def eqs(1,2))
qed

lemma storage_new_ok: "metrics_ok (storage_new n r)"
  by (simp add: storage_new_def metrics_ok_def index_ok_def find_series_def)

section \<open>Queries\<close>

lemma insert_envelope_get:
  "hm_get (ms_inner (insert_envelope h e st)) i =
    (if i = me_node_id e then Some (hm_insert (h (me_name e) (me_tags e))
        (push_point (ms_max_points st) (min_ts (me_timestamp e) st)
          \<lparr>mp_timestamp = me_timestamp e, mp_value = me_value e\<rparr>
          (or_default (or_default (ms_inner st) i) (h (me_name e) (me_tags e))))
        (or_default (ms_inner st) i))
     else hm_get (ms_inner st) i)"
proof (cases "hm_get (ms_metadata st) (h (me_name e) (me_tags e))")
  case None
  then show ?thesis by (simp add: insert_envelope_def Let_def min_ts_def hm.get_insert)
next
  case (Some m)
  then show ?thesis by (simp add: insert_envelope_def Let_def hm.get_insert)
qed

lemma dropWhile_last: "\<not> P x \<Longrightarrow> \<exists>ys. dropWhile P (xs @ [x]) = ys @ [x]"
  by (induction xs) auto

text \<open>A point that is not older than its own retention limit is the newest one of its series.\<close>

lemma push_point_last:
  assumes "0 < n" and "oldest \<le> mp_timestamp p"
  obtains q' where "push_point n oldest p q = q' @ [p]"
proof -
  have "drop (length (q @ [p]) - n) (q @ [p]) = drop (Suc (length q) - n) q @ [p]"
    using assms(1) by (simp add: Suc_diff_le)
  with dropWhile_last [of "\<lambda>p. mp_timestamp p < oldest" p "drop (Suc (length q) - n) q"] assms(2) that
  show ?thesis by (auto simp: push_point_def Let_def not_less)
qed

end
