(* ===== verification/Views.thy ===== *)
theory Views
  imports Links Handlers Metrics
begin

text \<open>
  The handlers of the API server that only read its memory: client links of a subscription, the
  subscription's overview, WireGuard configurations, MTProto links and the node lists
  (\<open>bin/api/http/handlers/{subscription,connection,node}.rs\<close>), with their requests
  (\<open>bin/api/http/request.rs\<close>). A handler is a function of the time, the request and the memory.
  YAML printing (crate \<open>serde_yaml\<close>) and chrono's \<open>num_days\<close> are parameters.
\<close>

section \<open>Requests\<close>

datatype tag_req = XrayReq | WireguardReq | Hysteria2Req | MtprotoReq

datatype format_req = Base64 | Txt | Clash

fun req_tags :: "tag_req \<Rightarrow> proto_tag list" where
  "req_tags XrayReq = [VlessTcpReality, VlessGrpcReality, VlessXhttpReality, Vmess, Shadowsocks]"
| "req_tags WireguardReq = [Wireguard]"
| "req_tags Hysteria2Req = [Hysteria2]"
| "req_tags MtprotoReq = [Mtproto]"

fun allowed_formats :: "tag_req \<Rightarrow> format_req list" where
  "allowed_formats XrayReq = [Txt, Base64, Clash]"
| "allowed_formats WireguardReq = []"
| "allowed_formats Hysteria2Req = [Txt, Base64]"
| "allowed_formats MtprotoReq = []"

record sub_info_request =
  sq_id :: uuid
  sq_format :: format_req
  sq_env :: env
  sq_proto :: tag_req

fun tag_req_debug :: "tag_req \<Rightarrow> string" where
  "tag_req_debug XrayReq = ''Xray''"
| "tag_req_debug WireguardReq = ''Wireguard''"
| "tag_req_debug Hysteria2Req = ''Hysteria2''"
| "tag_req_debug MtprotoReq = ''Mtproto''"

fun format_req_debug :: "format_req \<Rightarrow> string" where
  "format_req_debug Base64 = ''Base64''"
| "format_req_debug Txt = ''Txt''"
| "format_req_debug Clash = ''Clash''"

definition sub_info_validate :: "sub_info_request \<Rightarrow> error + unit" where
  "sub_info_validate req =
    (if sq_format req \<notin> set (allowed_formats (sq_proto req))
     then Inl (Custom (''Format '' @ format_req_debug (sq_format req) @ '' not allowed for proto '' @
       tag_req_debug (sq_proto req)))
     else Inr ())"

text \<open>How an error of the program prints; the texts of library errors are left out.\<close>

fun error_text :: "error \<Rightarrow> string" where
  "error_text (Custom m) = ''Error: '' @ m"
| "error_text (SerializationError m) = ''SerializationError: '' @ m"
| "error_text Conflict = ''DB conflict''"
| "error_text _ = ''''"

section \<open>Replies with a body\<close>

record env_info =
  ei_env :: env
  ei_has_xray :: bool
  ei_has_h2 :: bool
  ei_has_mtproto :: bool
  ei_has_wg :: bool

record subscription_response =
  sr_id :: uuid
  sr_expires :: datetime
  sr_days :: int
  sr_ref_code :: string
  sr_invited_count :: nat
  sr_locations :: "env_info list"
  sr_downlink :: int
  sr_limit_bytes :: int

record wg_entry =
  we_conn_id :: uuid
  we_label :: string
  we_env :: env
  we_config :: string

record node_metric_info =
  ni_key :: string
  ni_name :: string
  ni_tags :: tags

record node_response =
  no_uuid :: uuid
  no_env :: string
  no_hostname :: string
  no_interface :: string
  no_address :: u32
  no_inbounds :: "proto_tag list"
  no_status :: node_status
  no_label :: string
  no_cores :: nat
  no_max_bandwidth_bps :: int
  no_metrics :: "node_metric_info list"
  no_country :: string
  no_type :: node_type

datatype page =
    PReply reply
  | PText (p_content_type: string) (p_body: string)
  | PInfo subscription_response
  | PNotFound
  | PWireguard "wg_entry list"
  | PMtproto "(string \<times> string) list"
  | PNodes nat string "node_response list option"
  | PNode nat string "node_response option"

section \<open>Client links\<close>

text \<open>The inbounds a request is answered with: for every connection of the subscription that is not
  deleted, in the requested environment and of a requested protocol, the inbound of that protocol
  on every node of the environment.\<close>

type_synonym target = "inbound \<times> uuid \<times> conn \<times> string \<times> u32 \<times> string"

definition node_targets :: "uuid \<times> conn \<Rightarrow> nodes \<Rightarrow> target list" where
  "node_targets ic m = (case ic of (i, c) \<Rightarrow> (case get_by_env (c_env c) m of
      None \<Rightarrow> []
    | Some ns \<Rightarrow> List.map_filter (\<lambda>n. map_option (\<lambda>ib. (ib, i, c, n_hostname n, n_address n, n_label n))
        (n_inbounds n (proto_tag_of (c_proto c)))) ns))"

definition link_targets :: "sub_info_request \<Rightarrow> cache \<Rightarrow> target list" where
  "link_targets req mem = (case get_by_subscription_id (sq_id req) (connections mem) of
      None \<Rightarrow> []
    | Some cs \<Rightarrow> concat (map (\<lambda>(i, c).
        if c_is_deleted c \<or> c_env c \<noteq> sq_env req then []
        else if proto_tag_of (c_proto c) \<notin> set (req_tags (sq_proto req)) then []
        else node_targets (i, c) (nodes mem)) cs))"

text \<open>\<open>collect::<Result<Vec<_>, _>>()\<close>: the first error ends it.\<close>

fun collect_links :: "'u link_ext \<Rightarrow> target list \<Rightarrow> (error, string list) outcome" where
  "collect_links le [] = Ret []"
| "collect_links le ((ib, i, c, hostname, addr, label) # ts) =
     try_call (create_link le ib i c hostname addr label) (\<lambda>l.
     try_call (collect_links le ts) (\<lambda>ls. Ret (l # ls)))"

fun collect_proxies :: "'u link_ext \<Rightarrow> target list \<Rightarrow> (error, clash_proxy list) outcome" where
  "collect_proxies le [] = Ret []"
| "collect_proxies le ((ib, i, c, hostname, addr, label) # ts) =
     try_call (clash_proxy_of le ib i addr label) (\<lambda>p.
     try_call (collect_proxies le ts) (\<lambda>ps. Ret (case p of Some q \<Rightarrow> q # ps | None \<Rightarrow> ps)))"

definition int_to_string :: "int \<Rightarrow> string" where
  "int_to_string n = (if n < 0 then ''-'' @ dec_string (nat (- n)) else dec_string (nat n))"

definition generate_meta :: "string \<Rightarrow> int \<Rightarrow> int \<Rightarrow> string" where
  "generate_meta title limit expires_at =
    newline @ ''#profile-title: '' @ title @ newline @
    ''#profile-update-interval: 1'' @ newline @
    ''#subscription-userinfo: upload='' @ int_to_string 0 @ ''; download='' @ int_to_string 0 @
    ''; total='' @ int_to_string limit @ ''; expire='' @ int_to_string expires_at @ newline @ newline"

definition subscription_link_handler :: "'u link_ext \<Rightarrow> (clash_config \<Rightarrow> string option) \<Rightarrow> datetime \<Rightarrow>
    sub_info_request \<Rightarrow> string \<Rightarrow> int \<Rightarrow> cache \<Rightarrow> (error, page) outcome" where
  "subscription_link_handler le yaml now req title limit mem = (case sub_info_validate req of
      Inl e \<Rightarrow> Ret (PReply (bad_request (''Bad Request: '' @ error_text e)))
    | Inr _ \<Rightarrow> (case hm_get (subscriptions mem) (sq_id req) of
        None \<Rightarrow> Ret (PReply (not_found (''Subscription '' @ le_uuid_str le (sq_id req) @ '' not found'')))
      | Some sub \<Rightarrow>
          if \<not> is_active now sub
          then Ret (PReply (not_found (''Subscription '' @ le_uuid_str le (sq_id req) @ '' is expired'')))
          else (let ts = link_targets req mem;
                    expires_at = (case s_expires_at sub of Some e \<Rightarrow> e div 10 ^ 9 | None \<Rightarrow> 0);
                    meta = generate_meta title limit expires_at
            in if ts = [] then Ret (PReply (not_found (''Nodes for subscription '' @
                 le_uuid_str le (sq_id req) @ '' not found'')))
               else (case sq_format req of
                 Txt \<Rightarrow> try_call (collect_links le ts) (\<lambda>links.
                    Ret (PText ''text/plain'' (meta @ join_with newline links)))
               | Base64 \<Rightarrow> try_call (collect_links le ts) (\<lambda>links.
                    Ret (PText ''text/base64'' (le_b64 le (meta @ join_with newline links) @ newline)))
               | Clash \<Rightarrow> try_call (collect_proxies le ts) (\<lambda>proxies.
                    Ret (PText ''application/yaml'' (case yaml (clash proxies) of
                        Some y \<Rightarrow> y
                      | None \<Rightarrow> ''---'' @ newline @ ''error: failed to serialize'' @ newline)))))))"

section \<open>The overview of a subscription\<close>

definition xray_tags :: "proto_tag list" where
  "xray_tags = [VlessGrpcReality, VlessTcpReality, VlessXhttpReality, Vmess]"

definition node_exists :: "proto_tag list \<Rightarrow> node list option \<Rightarrow> bool" where
  "node_exists ts ns = (case ns of
      None \<Rightarrow> False
    | Some ns \<Rightarrow> list_ex (\<lambda>n. list_ex (\<lambda>i. i_tag i \<in> set ts) (node_inbound_list n)) ns)"

definition env_info_of :: "(uuid \<times> conn) list \<Rightarrow> nodes \<Rightarrow> env \<Rightarrow> env_info" where
  "env_info_of cs m e =
    (let ns = get_by_env e m;
         has = (\<lambda>ts. node_exists ts ns \<and>
           list_ex (\<lambda>(_, c). \<not> c_is_deleted c \<and> c_env c = e \<and> proto_tag_of (c_proto c) \<in> set ts) cs)
     in \<lparr>ei_env = e, ei_has_xray = has xray_tags, ei_has_h2 = has [Hysteria2],
         ei_has_mtproto = has [Mtproto], ei_has_wg = has [Wireguard]\<rparr>)"

definition sub_locations :: "uuid \<Rightarrow> cache \<Rightarrow> env_info list" where
  "sub_locations i mem = (case get_by_subscription_id i (connections mem) of
      None \<Rightarrow> []
    | Some cs \<Rightarrow> map (env_info_of cs (nodes mem))
        (remdups (map (\<lambda>(_, c). c_env c) (filter (\<lambda>(_, c). \<not> c_is_deleted c) cs))))"

definition get_subscription_info :: "(int \<Rightarrow> int) \<Rightarrow> datetime \<Rightarrow> uuid \<Rightarrow> cache \<Rightarrow> page" where
  "get_subscription_info num_days now i mem = (case hm_get (subscriptions mem) i of
      None \<Rightarrow> PNotFound
    | Some sub \<Rightarrow> PInfo \<lparr>sr_id = s_id sub,
        sr_expires = (case s_expires_at sub of Some e \<Rightarrow> e | None \<Rightarrow> 0),
        sr_days = (case days_remaining num_days now sub of Some d \<Rightarrow> d | None \<Rightarrow> 0),
        sr_ref_code = refer_code sub,
        sr_invited_count = count_invited_by (refer_code sub) (subscriptions mem),
        sr_locations = sub_locations i mem, sr_downlink = 0,
        sr_limit_bytes = (case s_limit_bytes sub of Some b \<Rightarrow> b | None \<Rightarrow> 0)\<rparr>)"

section \<open>WireGuard and MTProto\<close>

text \<open>The connections of one protocol a request is answered with. An unknown subscription is not
  refused here: only an inactive one is.\<close>

definition own_conns :: "uuid \<Rightarrow> env \<Rightarrow> proto_tag \<Rightarrow> cache \<Rightarrow> (uuid \<times> conn) list option" where
  "own_conns i e tag mem = map_option (filter (\<lambda>(_, c). \<not> c_is_deleted c \<and> c_env c = e \<and>
     proto_tag_of (c_proto c) = tag)) (get_by_subscription_id i (connections mem))"

fun wg_entries :: "'u link_ext \<Rightarrow> uuid \<times> conn \<Rightarrow> node list \<Rightarrow> (error, wg_entry list) outcome" where
  "wg_entries le ic [] = Ret []"
| "wg_entries le (i, c) (n # ns) = (case n_inbounds n Wireguard of
     None \<Rightarrow> wg_entries le (i, c) ns
   | Some ib \<Rightarrow> (case create_link le ib i c (n_hostname n) (n_address n) (n_label n) of
       Panic \<Rightarrow> Panic
     | Err _ \<Rightarrow> wg_entries le (i, c) ns
     | Ret link \<Rightarrow> try_call (wg_entries le (i, c) ns) (\<lambda>es.
         Ret (\<lparr>we_conn_id = i, we_label = n_label n, we_env = n_env n, we_config = link\<rparr> # es))))"

fun mtproto_entries :: "'u link_ext \<Rightarrow> node list \<Rightarrow> (error, (string \<times> string) list) outcome" where
  "mtproto_entries le [] = Ret []"
| "mtproto_entries le (n # ns) = (case n_inbounds n Mtproto of
     None \<Rightarrow> mtproto_entries le ns
   | Some ib \<Rightarrow> (case mtproto_link le ib (n_address n) (n_label n) of
       Panic \<Rightarrow> Panic
     | Err _ \<Rightarrow> mtproto_entries le ns
     | Ret url \<Rightarrow> try_call (mtproto_entries le ns) (\<lambda>es. Ret ((n_label n, url) # es))))"

fun concat_out :: "('e, 'a list) outcome list \<Rightarrow> ('e, 'a list) outcome" where
  "concat_out [] = Ret []"
| "concat_out (r # rs) = try_call r (\<lambda>xs. try_call (concat_out rs) (\<lambda>ys. Ret (xs @ ys)))"

definition env_nodes :: "conn \<Rightarrow> cache \<Rightarrow> node list" where
  "env_nodes c mem = (case get_by_env (c_env c) (nodes mem) of Some ns \<Rightarrow> ns | None \<Rightarrow> [])"

definition inactive_reply :: "'u link_ext \<Rightarrow> datetime \<Rightarrow> uuid \<Rightarrow> cache \<Rightarrow> page option" where
  "inactive_reply le now i mem = (case hm_get (subscriptions mem) i of
      Some sub \<Rightarrow> if \<not> is_active now sub
        then Some (PReply (not_found (''Subscription '' @ le_uuid_str le i @ '' is expired''))) else None
    | None \<Rightarrow> None)"

definition wireguard_connections_handler :: "'u link_ext \<Rightarrow> datetime \<Rightarrow> uuid \<Rightarrow> env \<Rightarrow> cache \<Rightarrow> (error, page) outcome" where
  "wireguard_connections_handler le now i e mem = (case inactive_reply le now i mem of
      Some p \<Rightarrow> Ret p
    | None \<Rightarrow> (case own_conns i e Wireguard mem of
        None \<Rightarrow> Ret (PReply (not_found ''No connections''))
      | Some cs \<Rightarrow> try_call (concat_out (map (\<lambda>ic. wg_entries le ic (env_nodes (snd ic) mem)) cs))
          (\<lambda>es. Ret (PWireguard es))))"

definition mtproto_connections_handler :: "'u link_ext \<Rightarrow> datetime \<Rightarrow> uuid \<Rightarrow> env \<Rightarrow> cache \<Rightarrow> (error, page) outcome" where
  "mtproto_connections_handler le now i e mem = (case inactive_reply le now i mem of
      Some p \<Rightarrow> Ret p
    | None \<Rightarrow> (case own_conns i e Mtproto mem of
        None \<Rightarrow> Ret (PReply (not_found ''No connections''))
      | Some cs \<Rightarrow> try_call (concat_out (map (\<lambda>ic. mtproto_entries le (env_nodes (snd ic) mem)) cs))
          (\<lambda>es. Ret (PMtproto es))))"

section \<open>Nodes\<close>

definition as_node_response :: "node \<Rightarrow> node_response" where
  "as_node_response n = \<lparr>no_uuid = n_uuid n, no_env = env_to_string (n_env n), no_hostname = n_hostname n,
     no_interface = n_interface n, no_address = n_address n,
     no_inbounds = filter (\<lambda>t. n_inbounds n t \<noteq> None) Enum.enum, no_status = n_status n,
     no_label = n_label n, no_cores = n_cores n, no_max_bandwidth_bps = n_max_bandwidth_bps n,
     no_metrics = [], no_country = n_country n, no_type = n_type n\<rparr>"

definition series_info :: "metric_storage \<Rightarrow> u64 \<times> metric_point list \<Rightarrow> node_metric_info option" where
  "series_info st kq = (case kq of (key, points) \<Rightarrow>
     if points = [] then None
     else (case hm_get (ms_metadata st) key of
        None \<Rightarrow> None
      | Some (name, ts) \<Rightarrow>
          if \<not> (starts_with name ''sys.'' \<or> starts_with name ''net.'') then None
          else Some \<lparr>ni_key = dec_string (unat key), ni_name = name, ni_tags = ts\<rparr>))"

definition with_metrics :: "metric_storage \<Rightarrow> node \<Rightarrow> node_response" where
  "with_metrics st n = (as_node_response n)\<lparr>no_metrics := (case hm_get (ms_inner st) (n_uuid n) of
      Some series \<Rightarrow> List.map_filter (series_info st) series
    | None \<Rightarrow> [])\<rparr>"

definition get_nodes_handler :: "string option \<Rightarrow> metric_storage \<Rightarrow> cache \<Rightarrow> page" where
  "get_nodes_handler e st mem =
    (case (case e of Some s \<Rightarrow> get_by_env (env_of_str s) (nodes mem) | None \<Rightarrow> nodes_all (nodes mem)) of
       Some ns \<Rightarrow> PNodes 200 ''List of nodes with metrics'' (Some (map (with_metrics st) ns))
     | None \<Rightarrow> PNodes 404 ''List of nodes'' (Some []))"

definition get_node_handler :: "(uuid \<Rightarrow> string) \<Rightarrow> uuid \<Rightarrow> cache \<Rightarrow> page" where
  "get_node_handler uuid_str i mem = (case get_by_id i (nodes mem) of
      Some n \<Rightarrow> PNode 200 (''Node '' @ uuid_str i) (Some (as_node_response n))
    | None \<Rightarrow> PNode 404 ''Node not found'' None)"

section \<open>What the links are made of\<close>

lemma node_targets_iff:
  "t \<in> set (node_targets (i, c) m) \<longleftrightarrow> (\<exists>ns n ib. get_by_env (c_env c) m = Some ns \<and> n \<in> set ns \<and>
     n_inbounds n (proto_tag_of (c_proto c)) = Some ib \<and> t = (ib, i, c, n_hostname n, n_address n, n_label n))"
proof (cases "get_by_env (c_env c) m")
  case (Some ns)
  then show ?thesis by (auto simp: node_targets_def map_filter_iff)
qed (simp add: node_targets_def)

lemma link_targets_iff:
  "t \<in> set (link_targets req mem) \<longleftrightarrow> (\<exists>i c. (i, c) \<in> set (connections mem) \<and>
     c_subscription_id c = Some (sq_id req) \<and> \<not> c_is_deleted c \<and> c_env c = sq_env req \<and>
     proto_tag_of (c_proto c) \<in> set (req_tags (sq_proto req)) \<and> t \<in> set (node_targets (i, c) (nodes mem)))"
  by (auto simp: link_targets_def get_by_subscription_id_def Let_def filter_empty_conv split: if_splits)

lemma collect_links_Ret:
  "collect_links le ts = Ret ls \<Longrightarrow> length ls = length ts \<and>
     (\<forall>k < length ts. case ts ! k of (ib, i, c, h, a, l) \<Rightarrow> create_link le ib i c h a l = Ret (ls ! k))"
proof (induction ts arbitrary: ls)
  case (Cons t ts)
  obtain ib i c h a l where t: "t = (ib, i, c, h, a, l)" by (cases t) auto
  from Cons.prems obtain x xs where "create_link le ib i c h a l = Ret x" "collect_links le ts = Ret xs"
    "ls = x # xs" by (auto simp: t)
  with Cons.IH [of xs] show ?case by (auto simp: t less_Suc_eq_0_disj)
qed simp

text \<open>One inbound that has no link is enough to lose all of them.\<close>

lemma collect_links_Err:
  "(ib, i, c, h, a, l) \<in> set ts \<Longrightarrow> (\<forall>x. create_link le ib i c h a l \<noteq> Ret x) \<Longrightarrow> collect_links le ts \<noteq> Ret ls"
proof (induction ts arbitrary: ls)
  case (Cons t ts)
  then show ?case by (cases t) auto
qed simp

end
