(* ===== verification/Settings.thy ===== *)
theory Settings
  imports NodeStore
begin

text \<open>
  The configuration a node starts from (\<open>config/{settings,wireguard,h2}.rs\<close>): reading a WireGuard
  interface file, the conversions into the settings the program works with, and the conversions
  between Rust's and PostgreSQL's integers (\<open>utils.rs\<close>). A function that reads a file takes its
  contents, \<open>None\<close> where the file cannot be read; the TOML and YAML parsers are not modelled.
\<close>

section \<open>Node configuration\<close>

record node_config_raw =
  nw_env :: env
  nw_hostname :: "string option"
  nw_default_interface :: string
  nw_address :: u32
  nw_uuid :: uuid
  nw_label :: string
  nw_max_bandwidth_bps :: int
  nw_country :: string
  nw_type :: string

text \<open>The number of processors and the variable \<open>HOSTNAME\<close> come from the environment.\<close>

definition node_config_from_raw :: "nat option \<Rightarrow> string option \<Rightarrow> node_config_raw \<Rightarrow> error + node_config" where
  "node_config_from_raw num_cpus env_hostname raw = (case num_cpus of
      None \<Rightarrow> Inl Io
    | Some cpus \<Rightarrow>
       (case (case nw_hostname raw of Some h \<Rightarrow> Some h | None \<Rightarrow> env_hostname) of
          None \<Rightarrow> Inl (Custom ''Validation error: missing hostname (set $HOSTNAME env or specify in config)'')
        | Some hostname \<Rightarrow> Inr \<lparr>nc_env = nw_env raw, nc_hostname = hostname,
            nc_default_interface = nw_default_interface raw, nc_address = nw_address raw,
            nc_uuid = nw_uuid raw, nc_label = nw_label raw,
            nc_max_bandwidth_bps = nw_max_bandwidth_bps raw, nc_cores = cpus,
            nc_country = nw_country raw,
            nc_type = node_type_from_str (nw_type raw)\<rparr>))"

section \<open>WireGuard\<close>

record wg_server_config =
  wc_interface :: string
  wc_address :: string
  wc_port :: u16
  wc_private_key :: string
  wc_dns :: "string list option"

text \<open>The variables of the loop over the lines.\<close>

record wg_parse =
  wp_private_key :: "string option"
  wp_address :: "string option"
  wp_dns :: "string list"
  wp_port :: "u16 option"

definition nth_opt :: "'a list \<Rightarrow> nat \<Rightarrow> 'a option" where
  "nth_opt xs n = (if n < length xs then Some (xs ! n) else None)"

definition parse_u16 :: "string \<Rightarrow> u16 option" where
  "parse_u16 s = map_option of_nat (parse_unsigned 65535 s)"

definition eq_char :: char where
  "eq_char = CHR ''=''"

definition wg_line :: "string \<Rightarrow> wg_parse \<Rightarrow> error + wg_parse" where
  "wg_line raw st =
    (let line = trim raw;
         field = nth_opt (split_on eq_char line) 1
     in case (if starts_with line ''PrivateKey'' then (case split_once eq_char line of
           Some (_, v) \<Rightarrow> Inr (st\<lparr>wp_private_key := Some (trim v)\<rparr>)
         | None \<Rightarrow> Inl (Custom ''Invalid PrivateKey line'')) else Inr st) of
       Inl e \<Rightarrow> Inl e
     | Inr st \<Rightarrow>
        (let st = (if starts_with line ''Address'' then st\<lparr>wp_address := map_option trim field\<rparr> else st);
             st = (if starts_with line ''ListenPort''
               then st\<lparr>wp_port := Option.bind field (\<lambda>v. parse_u16 (trim v))\<rparr> else st);
             st = (if starts_with line ''DNS''
               then st\<lparr>wp_dns := map trim (split_on (CHR '','') (case field of Some v \<Rightarrow> v | None \<Rightarrow> []))\<rparr>
               else st)
         in Inr st))"

fun wg_lines :: "string list \<Rightarrow> wg_parse \<Rightarrow> error + wg_parse" where
  "wg_lines [] st = Inr st"
| "wg_lines (l # ls) st = (case wg_line l st of Inl e \<Rightarrow> Inl e | Inr st \<Rightarrow> wg_lines ls st)"

definition wg_from_file :: "string \<Rightarrow> string option \<Rightarrow> error + wg_server_config" where
  "wg_from_file path contents = (case contents of
      None \<Rightarrow> Inl Io
    | Some text \<Rightarrow>
       (let interface = hd (split_on (CHR ''.'') (last (split_on (CHR ''/'') path))) in
        case wg_lines (file_lines text) \<lparr>wp_private_key = None, wp_address = None, wp_dns = [], wp_port = None\<rparr> of
          Inl e \<Rightarrow> Inl e
        | Inr st \<Rightarrow> (case wp_port st of
            None \<Rightarrow> Inl (Custom ''no ListenPort'')
          | Some port \<Rightarrow> (case wp_private_key st of
              None \<Rightarrow> Inl (Custom ''no PrivateKey'')
            | Some key \<Rightarrow> (case wp_address st of
                None \<Rightarrow> Inl (Custom ''no Address'')
              | Some addr \<Rightarrow> Inr \<lparr>wc_interface = interface, wc_address = addr, wc_port = port,
                  wc_private_key = key, wc_dns = Some (wp_dns st)\<rparr>)))))"

fun collect_opt :: "'a option list \<Rightarrow> 'a list option" where
  "collect_opt [] = Some []"
| "collect_opt (x # xs) = (case x of
     None \<Rightarrow> None
   | Some v \<Rightarrow> map_option (\<lambda>vs. v # vs) (collect_opt xs))"

definition wg_settings_of :: "(string \<Rightarrow> u128 option) \<Rightarrow> wg_server_config \<Rightarrow> error + wireguard_settings" where
  "wg_settings_of v6_parse cfg = (case mask_from_str v6_parse (wc_address cfg) of
      None \<Rightarrow> Inl (Custom ''Invalid WG address'')
    | Some addr \<Rightarrow>
       (case collect_opt (map ipv4_from_str (case wc_dns cfg of Some ds \<Rightarrow> ds | None \<Rightarrow> [])) of
          None \<Rightarrow> Inl (Custom ''Invalid DNS'')
        | Some dns \<Rightarrow> Inr \<lparr>ws_interface = wc_interface cfg, ws_address = addr, ws_port = wc_port cfg,
            ws_keys = \<lparr>privkey = wc_private_key cfg\<rparr>, ws_dns = dns\<rparr>))"

section \<open>Hysteria2\<close>

record hysteria2_settings =
  hy_listen :: "string option"
  hy_acme_domains :: "string list option option"
  hy_auth :: "(string option \<times> string option \<times> string option) option"
  hy_obfs :: "(string option \<times> string option) option"

text \<open>\<open>hy_acme_domains\<close>: the outer option is the section, the inner one its list; \<open>hy_auth\<close>: type,
  password and URL.\<close>

definition h2_validate :: "hysteria2_settings \<Rightarrow> error + unit" where
  "h2_validate s = (if hy_listen s = None then Inl (Custom ''Hysteria2: listen is required'')
     else if hy_auth s = None then Inl (Custom ''Hysteria2: auth section is required'') else Inr ())"

definition h2_settings_of :: "hysteria2_settings \<Rightarrow> error + h2_settings" where
  "h2_settings_of s = (case hy_listen s of
      None \<Rightarrow> Inl (Custom ''Hysteria2: listen missing'')
    | Some listen \<Rightarrow> (case parse_u16 (last (split_on (CHR '':'') listen)) of
        None \<Rightarrow> Inl (Custom ''Hysteria2: invalid port'')
      | Some port \<Rightarrow>
         (case Option.bind (hy_acme_domains s) (\<lambda>d. Option.bind d (\<lambda>ds. nth_opt ds 0)) of
            None \<Rightarrow> Inl (Custom ''Hysteria2: acme.domains missing'')
          | Some h \<Rightarrow> Inr \<lparr>h2_host = h, h2_port = port, h2_sni = Some h, h2_insecure = False,
              h2_obfs = map_option (\<lambda>(t, p). (case_option '''' id t, case_option '''' id p)) (hy_obfs s),
              h2_alpn = Some [''h2'', ''http/1.1''], h2_up_mbps = None, h2_down_mbps = None,
              h2_auth_info = map_option (\<lambda>(t, p, u). \<lparr>h2a_auth_type = (case t of Some x \<Rightarrow> x | None \<Rightarrow> ''unknown''),
                h2a_has_password = (p \<noteq> None), h2a_has_url = (u \<noteq> None)\<rparr>) (hy_auth s)\<rparr>)))"

section \<open>Integers of the database\<close>

definition to_pg_bigint :: "u64 \<Rightarrow> i64 option" where
  "to_pg_bigint v = (if v \<le> 0x7FFFFFFFFFFFFFFF then Some v else None)"

definition from_pg_bigint :: "i64 \<Rightarrow> u64" where
  "from_pg_bigint v = v"

end
