(* ===== verification/NodeMetrics.thy ===== *)
theory NodeMetrics
  imports Agents Metrics Links
begin

text \<open>
  The metrics a node collects about its traffic (\<open>bin/node/metrics.rs\<close>) with the tags every metric
  of the node carries (\<open>Node::get_base_tags\<close>, \<open>memory/node.rs\<close>). Each metric is pushed to the
  buffer of \<open>metrics/storage.rs\<close>. The conversion of a counter to a double and the time stamps
  come from outside. The values of the counters are what the back ends answer.
\<close>

text \<open>A \<open>BTreeMap\<close> is an association list; inserting replaces.\<close>

definition get_base_tags :: "node \<Rightarrow> tags" where
  "get_base_tags n =
    (let t = hm_insert ''env'' (env_to_string (n_env n)) [];
         t = hm_insert ''hostname'' (n_hostname n) t;
         t = hm_insert ''label'' (n_label n) t;
         t = hm_insert ''address'' (ipv4_to_string (n_address n)) t;
         t = hm_insert ''label'' (n_label n) t;
         t = hm_insert ''cores'' (dec_string (n_cores n)) t;
         t = hm_insert ''max_bandwidth_bps'' (if n_max_bandwidth_bps n < 0
              then ''-'' @ dec_string (nat (- n_max_bandwidth_bps n)) else dec_string (nat (n_max_bandwidth_bps n))) t;
         t = hm_insert ''country'' (n_country n) t
     in hm_insert ''type'' (node_type_to_string (n_type n)) t)"

record metric_ext =
  mx_f64 :: "int \<Rightarrow> f64"
  mx_now :: "nat \<Rightarrow> int"

text \<open>The state of a collection: the node and its buffer. Each push reads the clock.\<close>

type_synonym collecting = "node_state \<times> metric_envelope list"

definition push_metric :: "metric_ext \<Rightarrow> uuid \<Rightarrow> string \<Rightarrow> int \<Rightarrow> tags \<Rightarrow> collecting \<Rightarrow> collecting" where
  "push_metric mx u name v ts sb = (case sb of (s, batch) \<Rightarrow>
     (s, buffer_push u name (mx_f64 mx v) ts (mx_now mx (length batch)) batch))"

definition collect_inbound :: "agent_ext \<Rightarrow> metric_ext \<Rightarrow> node \<Rightarrow> proto_tag \<Rightarrow> collecting \<Rightarrow> collecting" where
  "collect_inbound x mx n tag sb = (case sb of (s, batch) \<Rightarrow>
     if tag = Hysteria2 \<or> tag = Mtproto then (s, batch)
     else (case inbound_stats x (InboundPrefix tag) s of
        (Ret st, s) \<Rightarrow>
          (let ts = hm_insert ''inbound_tag'' (tag_to_string tag) (get_base_tags n);
               prefix = ''net.inbound.'' @ tag_to_string tag
           in push_metric mx (n_uuid n) (prefix @ ''.connections'') (in_conn_count st) ts
             (push_metric mx (n_uuid n) (prefix @ ''.uplink'') (in_uplink st) ts
               (push_metric mx (n_uuid n) (prefix @ ''.downlink'') (in_downlink st) ts (s, batch))))
      | (_, s) \<Rightarrow> (s, batch)))"

definition collect_inbound_metrics :: "agent_ext \<Rightarrow> metric_ext \<Rightarrow> node \<Rightarrow> collecting \<Rightarrow> collecting" where
  "collect_inbound_metrics x mx n sb =
     fold (collect_inbound x mx n) (filter (\<lambda>t. n_inbounds n t \<noteq> None) Enum.enum) sb"

definition collect_user :: "agent_ext \<Rightarrow> metric_ext \<Rightarrow> node \<Rightarrow> uuid \<Rightarrow> collecting \<Rightarrow> collecting" where
  "collect_user x mx n i sb = (case sb of (s, batch) \<Rightarrow>
     (case conn_stats x (ConnPrefix i) s of (st, s) \<Rightarrow>
       (let ts = hm_insert ''conn_id'' (ne_uuid_str x i) (get_base_tags n)
        in push_metric mx (n_uuid n) ''user.online'' (cs_online st) ts
          (push_metric mx (n_uuid n) ''user.traffic.uplink'' (cs_uplink st) ts
            (push_metric mx (n_uuid n) ''user.traffic.downlink'' (cs_downlink st) ts (s, batch))))))"

definition collect_user_metrics :: "agent_ext \<Rightarrow> metric_ext \<Rightarrow> node \<Rightarrow> collecting \<Rightarrow> collecting" where
  "collect_user_metrics x mx n sb = fold (collect_user x mx n) (map fst (ns_mem (fst sb))) sb"

definition collect_wg :: "agent_ext \<Rightarrow> metric_ext \<Rightarrow> node \<Rightarrow> uuid \<times> (error + string) \<Rightarrow> collecting \<Rightarrow> collecting" where
  "collect_wg x mx n ik sb = (case ik of (i, key) \<Rightarrow> (case key of
      Inl _ \<Rightarrow> sb
    | Inr pk \<Rightarrow> (case peer_stats x pk (fst sb) of
        Inl _ \<Rightarrow> sb
      | Inr (uplink, downlink) \<Rightarrow>
         (let ts = hm_insert ''proto'' ''wireguard'' (hm_insert ''user_id'' (ne_uuid_str x i) (get_base_tags n))
          in push_metric mx (n_uuid n) ''user.traffic.uplink'' uplink ts
            (push_metric mx (n_uuid n) ''user.traffic.downlink'' downlink ts sb)))))"

definition collect_wg_metrics :: "agent_ext \<Rightarrow> metric_ext \<Rightarrow> node \<Rightarrow> collecting \<Rightarrow> collecting" where
  "collect_wg_metrics x mx n sb =
    (if \<not> ne_has_wg x then sb
     else fold (collect_wg x mx n) (List.map_filter (\<lambda>(i, c). map_option (\<lambda>wg. (i, wg_pubkey x wg))
       (proto_wireguard (b_proto c))) (ns_mem (fst sb))) sb)"

section \<open>What is collected\<close>

lemma base_tags_wf: "hm_wf (get_base_tags n)"
  by (simp add: get_base_tags_def Let_def distinct_update)

lemma base_tags_hostname [simp]: "hm_get (get_base_tags n) ''hostname'' = Some (n_hostname n)"
  by (simp add: get_base_tags_def Let_def)

lemma push_metric_snd: "\<exists>e. snd (push_metric mx u name v ts sb) = snd sb @ [e] \<and> me_node_id e = u \<and>
    me_name e = name \<and> me_tags e = ts"
  by (auto simp: push_metric_def buffer_push_def split: prod.split)

lemma push_metric_fst [simp]: "fst (push_metric mx u name v ts sb) = fst sb"
  by (simp add: push_metric_def split: prod.split)

text \<open>Collecting only reads: the node's memory stays as it is and the batch only grows, by metrics
  of this node that carry its name.\<close>

definition reports :: "node \<Rightarrow> metric_envelope list \<Rightarrow> metric_envelope list \<Rightarrow> bool" where
  "reports n batch batch' = (\<exists>es. batch' = batch @ es \<and> (\<forall>e \<in> set es. me_node_id e = n_uuid n \<and>
     hm_get (me_tags e) ''hostname'' = Some (n_hostname n)))"

lemma reports_refl [simp]: "reports n b b"
  by (simp add: reports_def)

lemma reports_trans: "reports n a b \<Longrightarrow> reports n b c \<Longrightarrow> reports n a c"
  by (auto simp: reports_def)

definition grows :: "node \<Rightarrow> collecting \<Rightarrow> collecting \<Rightarrow> bool" where
  "grows n sb sb' = (ns_mem (fst sb') = ns_mem (fst sb) \<and> reports n (snd sb) (snd sb'))"

lemma grows_refl [simp]: "grows n sb sb"
  by (simp add: grows_def)

lemma grows_push: "grows n sb sb' \<Longrightarrow> hm_get ts ''hostname'' = Some (n_hostname n) \<Longrightarrow>
    grows n sb (push_metric mx (n_uuid n) name v ts sb')"
  using push_metric_snd [of mx "n_uuid n" name v ts sb'] by (auto simp: grows_def reports_def)

lemma grows_trans: "grows n a b \<Longrightarrow> grows n b c \<Longrightarrow> grows n a c"
  by (auto simp: grows_def intro: reports_trans)

lemma grows_fold:
  assumes "\<And>a sb. grows n sb (f a sb)"
  shows "grows n sb (fold f as sb)"
proof (induction as arbitrary: sb)
  case (Cons a as)
  from grows_trans [OF assms Cons.IH] show ?case by simp
qed simp

lemma collect_inbound_grows: "grows n sb (collect_inbound x mx n tag sb)"
proof -
  obtain s b where sb: "sb = (s, b)" by force
  obtain r s' where i: "inbound_stats x (InboundPrefix tag) s = (r, s')" by force
  with stats_frame(5) [of x "InboundPrefix tag" s] have "ns_mem s' = ns_mem s" by simp
  then have "grows n sb (s', b)" by (simp add: sb grows_def)
  then show ?thesis
    by (auto simp: collect_inbound_def sb i Let_def intro!: grows_push split: outcome.split)
qed

lemma collect_user_grows: "grows n sb (collect_user x mx n i sb)"
proof -
  obtain s b where sb: "sb = (s, b)" by force
  obtain r s' where i: "conn_stats x (ConnPrefix i) s = (r, s')" by force
  with stats_frame(3) [of x "ConnPrefix i" s] have "ns_mem s' = ns_mem s" by simp
  then have "grows n sb (s', b)" by (simp add: sb grows_def)
  then show ?thesis by (simp add: collect_user_def sb i Let_def grows_push)
qed

lemma collect_wg_grows: "grows n sb (collect_wg x mx n ik sb)"
  by (auto simp: collect_wg_def Let_def intro!: grows_push split: prod.split sum.split)

lemma collect_metrics_grow:
  "grows n sb (collect_inbound_metrics x mx n sb)"
  "grows n sb (collect_user_metrics x mx n sb)"
  "grows n sb (collect_wg_metrics x mx n sb)"
  by (simp_all add: collect_inbound_metrics_def collect_user_metrics_def collect_wg_metrics_def
      grows_fold collect_inbound_grows collect_user_grows collect_wg_grows)

end
