(* ===== verification/ViewProps.thy ===== *)
theory ViewProps
  imports AgentProps Views Settings NodeMetrics
begin

unbundle bit_operations_syntax

text \<open>
  Properties of what the API server shows its clients, of the metrics it stores, and of the
  addresses a node hands out.
\<close>

section \<open>Client links\<close>

lemma link_targets_get:
  assumes "hm_wf (connections mem)"
  shows "(ib, i, c, h, a, l) \<in> set (link_targets req mem) \<longleftrightarrow>
    hm_get (connections mem) i = Some c \<and> c_subscription_id c = Some (sq_id req) \<and> \<not> c_is_deleted c \<and>
    c_env c = sq_env req \<and> proto_tag_of (c_proto c) \<in> set (req_tags (sq_proto req)) \<and>
    (\<exists>ns n. get_by_env (c_env c) (nodes mem) = Some ns \<and> n \<in> set ns \<and>
       n_inbounds n (proto_tag_of (c_proto c)) = Some ib \<and> h = n_hostname n \<and> a = n_address n \<and> l = n_label n)"
proof -
  have "(j, d) \<in> set (connections mem) \<longleftrightarrow> hm_get (connections mem) j = Some d" for j d
    by (rule map_of_eq_Some_iff [OF assms, symmetric])
  then show ?thesis by (auto simp: link_targets_iff node_targets_iff)
qed

lemma link_handler_text:
  assumes "subscription_link_handler le yaml now req title limit mem = Ret (PText ct body)"
  obtains sub where "hm_get (subscriptions mem) (sq_id req) = Some sub" "is_active now sub"
    "sq_format req = Txt \<Longrightarrow> \<exists>meta links. collect_links le (link_targets req mem) = Ret links \<and>
       body = meta @ join_with newline links"
    "sq_format req = Base64 \<Longrightarrow> \<exists>links. collect_links le (link_targets req mem) = Ret links"
proof -
  from assms obtain u where "sub_info_validate req = Inr u"
    by (cases "sub_info_validate req") (auto simp: subscription_link_handler_def)
  with assms obtain sub where s: "hm_get (subscriptions mem) (sq_id req) = Some sub"
    by (cases "hm_get (subscriptions mem) (sq_id req)") (auto simp: subscription_link_handler_def)
  have act: "is_active now sub" and ne: "link_targets req mem \<noteq> []"
    using assms s \<open>sub_info_validate req = Inr u\<close>
    by (auto simp: subscription_link_handler_def Let_def split: if_splits)
  show ?thesis
    by (rule that [OF s act])
       (use assms s act ne \<open>sub_info_validate req = Inr u\<close> in
         \<open>auto simp: subscription_link_handler_def Let_def\<close>)
qed

text \<open>Parameters and a memory with a VLESS connection, its node, and a Shadowsocks connection.\<close>

definition sample_links :: "string link_ext" where
  "sample_links = \<lparr>le_uuid_str = sample_uuid_str, le_v6_str = sample_v6_str, le_url_parse = Some,
     le_append_pair = (\<lambda>k v u. u @ ''&'' @ k @ ''='' @ v), le_set_fragment = (\<lambda>f u. u @ ''#'' @ f),
     le_url_str = (\<lambda>u. u), le_json = (\<lambda>_. None), le_b64 = (\<lambda>s. s), le_b64_decode = (\<lambda>_. Inl []),
     le_b64_encode = (\<lambda>_. []), le_x25519 = (\<lambda>b. b)\<rparr>"

definition reality_inbound :: inbound where
  "reality_inbound = sample_inbound\<lparr>i_stream_settings := Some \<lparr>ss_network = Tcp, ss_tcp = None,
     ss_reality = Some \<lparr>r_server_names = [''sni''], r_private_key = [], r_public_key = ''pbk'',
       r_short_ids = [''sid''], r_target = []\<rparr>, ss_grpc_service_name = None, ss_xhttp_path = None\<rparr>\<rparr>"

definition link_node :: node where
  "link_node = sample_node\<lparr>n_inbounds := [VlessTcpReality \<mapsto> reality_inbound,
     Shadowsocks \<mapsto> sample_inbound\<lparr>i_tag := Shadowsocks\<rparr>]\<rparr>"

definition link_request :: sub_info_request where
  "link_request = \<lparr>sq_id = 7, sq_format = Txt, sq_env = Production, sq_proto = XrayReq\<rparr>"

definition link_memory :: cache where
  "link_memory = (w_mem sample_world)\<lparr>nodes := [(Production, [link_node])]\<rparr>"

definition ss_conn :: conn where
  "ss_conn = sample_conn\<lparr>c_proto := ProtoShadowsocks ''pw''\<rparr>"

definition ss_memory :: cache where
  "ss_memory = link_memory\<lparr>connections := (8, ss_conn) # connections link_memory\<rparr>"

lemma link_memory_wf: "hm_wf (connections link_memory)" "hm_wf (connections ss_memory)"
  by (simp_all add: link_memory_def ss_memory_def)



text \<open>C32. One Shadowsocks connection makes all Xray links of a subscription unavailable: the request
  for Xray includes Shadowsocks, for which there is no link, and the first error ends the
  collection.\<close>

theorem shadowsocks_breaks_links:
  assumes "hm_wf (connections mem)" and "sq_proto req = XrayReq" and "sq_format req = Txt \<or> sq_format req = Base64"
    and "hm_get (connections mem) i = Some c" and "c_subscription_id c = Some (sq_id req)" and "\<not> c_is_deleted c"
    and "c_env c = sq_env req" and "c_proto c = ProtoShadowsocks pw"
    and "get_by_env (c_env c) (nodes mem) = Some ns" and "n \<in> set ns"
    and "n_inbounds n Shadowsocks = Some ib" and "i_tag ib = Shadowsocks"
  shows "subscription_link_handler le yaml now req title limit mem \<noteq> Ret (PText ct body)"
proof
  assume h: "subscription_link_handler le yaml now req title limit mem = Ret (PText ct body)"
  have t: "(ib, i, c, n_hostname n, n_address n, n_label n) \<in> set (link_targets req mem)"
    using assms by (auto simp: link_targets_get)
  have "create_link le ib i c (n_hostname n) (n_address n) (n_label n) \<noteq> Ret x" for x
    by (simp add: create_link_def assms(12))
  with collect_links_Err [OF t] have none: "collect_links le (link_targets req mem) \<noteq> Ret ls" for ls by blast
  from h show False by (rule link_handler_text) (use assms(3) none in blast)
qed

theorem shadowsocks_breaks_links_witness:
  "\<forall>ct body. subscription_link_handler sample_links (\<lambda>_. None) sample_now link_request ''t'' 0 ss_memory \<noteq> Ret (PText ct body)"
  using shadowsocks_breaks_links [OF link_memory_wf(2), of link_request 8 ss_conn "''pw''" "[link_node]" link_node
      "sample_inbound\<lparr>i_tag := Shadowsocks\<rparr>" sample_links "\<lambda>_. None" sample_now "''t''" 0]
  by (simp add: link_request_def ss_memory_def link_memory_def ss_conn_def sample_conn_def get_by_env_def link_node_def)

section \<open>The overview of a subscription\<close>

text \<open>Inbounds are stored under their own tag.\<close>

definition tagged_inbounds :: "nodes \<Rightarrow> bool" where
  "tagged_inbounds m = (\<forall>(e, ns) \<in> set m. \<forall>n \<in> set ns. \<forall>t \<in> set (Enum.enum :: proto_tag list).
     case n_inbounds n t of Some ib \<Rightarrow> i_tag ib = t | None \<Rightarrow> True)"

lemma tagged_inboundsD:
  assumes "tagged_inbounds m" and "get_by_env e m = Some ns" and "n \<in> set ns" and "n_inbounds n t = Some ib"
  shows "i_tag ib = t"
proof -
  have "(e, ns) \<in> set m" using assms(2) unfolding get_by_env_def by (rule map_of_SomeD)
  moreover have "t \<in> set Enum.enum" by (simp add: enum_UNIV)
  ultimately show ?thesis using assms(1,3,4) unfolding tagged_inbounds_def by (force split: option.splits)
qed

lemma node_exists_iff:
  assumes "tagged_inbounds m"
  shows "node_exists ts (get_by_env e m) \<longleftrightarrow>
    (\<exists>ns n t ib. get_by_env e m = Some ns \<and> n \<in> set ns \<and> t \<in> set ts \<and> n_inbounds n t = Some ib)"
proof -
  have "(\<exists>i \<in> set (node_inbound_list n). i_tag i \<in> set ts) \<longleftrightarrow> (\<exists>t \<in> set ts. \<exists>ib. n_inbounds n t = Some ib)"
    if "get_by_env e m = Some ns" "n \<in> set ns" for ns n
  proof -
    have "i \<in> set (node_inbound_list n) \<longleftrightarrow> (\<exists>t. n_inbounds n t = Some i)" for i
      by (auto simp: node_inbound_list_def map_filter_iff enum_UNIV)
    then show ?thesis using tagged_inboundsD [OF assms that] by metis
  qed
  then show ?thesis
    by (cases "get_by_env e m") (auto simp: node_exists_def list_ex_iff)
qed

text \<open>The overview and the links agree: a location is shown as having Hysteria2 exactly when a
  request for its Hysteria2 links finds something to link to, and a location with a link for an
  Xray protocol other than Shadowsocks is shown as having Xray.\<close>

theorem locations_match_links:
  assumes "hm_wf (connections mem)" and "tagged_inbounds (nodes mem)" and "info \<in> set (sub_locations i mem)"
  shows "(ei_has_h2 info \<longleftrightarrow>
      link_targets \<lparr>sq_id = i, sq_format = f, sq_env = ei_env info, sq_proto = Hysteria2Req\<rparr> mem \<noteq> []) \<and>
    ((\<exists>(ib, j, c, rest) \<in> set (link_targets \<lparr>sq_id = i, sq_format = f, sq_env = ei_env info, sq_proto = XrayReq\<rparr> mem).
       proto_tag_of (c_proto c) \<noteq> Shadowsocks) \<longrightarrow> ei_has_xray info)"
proof -
  let ?e = "ei_env info"
  have env: "ei_env (env_info_of cs m e) = e" for cs m e by (simp add: env_info_of_def Let_def)
  from assms(3) obtain cs where cs: "get_by_subscription_id i (connections mem) = Some cs"
    by (cases "get_by_subscription_id i (connections mem)") (auto simp: sub_locations_def)
  with assms(3) have info: "info = env_info_of cs (nodes mem) ?e"
    by (auto simp: sub_locations_def env)
  have own: "(j, c) \<in> set cs \<longleftrightarrow> hm_get (connections mem) j = Some c \<and> c_subscription_id c = Some i" for j c
    using get_by_subscription_id_Some [OF assms(1) cs] by blast
  note ex = node_exists_iff [OF assms(2), of _ ?e] and tgt = link_targets_get [OF assms(1)]
  have h2: "ei_has_h2 info \<longleftrightarrow> (\<exists>ns n ib j c. get_by_env ?e (nodes mem) = Some ns \<and> n \<in> set ns \<and>
      n_inbounds n Hysteria2 = Some ib \<and> hm_get (connections mem) j = Some c \<and> c_subscription_id c = Some i \<and>
      \<not> c_is_deleted c \<and> c_env c = ?e \<and> proto_tag_of (c_proto c) = Hysteria2)"
    by (subst info, auto simp: env_info_of_def Let_def ex list_ex_iff own) blast
  have "link_targets \<lparr>sq_id = i, sq_format = f, sq_env = ?e, sq_proto = Hysteria2Req\<rparr> mem \<noteq> [] \<longleftrightarrow>
      (\<exists>ib j c h a l. (ib, j, c, h, a, l) \<in> set (link_targets \<lparr>sq_id = i, sq_format = f, sq_env = ?e, sq_proto = Hysteria2Req\<rparr> mem))"
    by (metis list.set_intros(1) neq_Nil_conv prod_cases6 empty_iff list.set(1))
  also have "\<dots> \<longleftrightarrow> ei_has_h2 info" unfolding h2 tgt by (auto; fastforce)
  finally have 1: "ei_has_h2 info \<longleftrightarrow> link_targets \<lparr>sq_id = i, sq_format = f, sq_env = ?e, sq_proto = Hysteria2Req\<rparr> mem \<noteq> []" ..
  have "ei_has_xray info" if t: "(ib, j, c, h, a, l) \<in> set (link_targets \<lparr>sq_id = i, sq_format = f, sq_env = ?e, sq_proto = XrayReq\<rparr> mem)"
      and "proto_tag_of (c_proto c) \<noteq> Shadowsocks" for ib j c h a l
  proof -
    from t have m: "hm_get (connections mem) j = Some c" "c_subscription_id c = Some i" "\<not> c_is_deleted c" "c_env c = ?e"
        "proto_tag_of (c_proto c) \<in> set (req_tags XrayReq)"
      and "\<exists>ns n. get_by_env ?e (nodes mem) = Some ns \<and> n \<in> set ns \<and> n_inbounds n (proto_tag_of (c_proto c)) = Some ib"
      unfolding tgt by auto
    moreover from m(5) that(2) have x: "proto_tag_of (c_proto c) \<in> set xray_tags" by (auto simp: xray_tags_def)
    ultimately have "node_exists xray_tags (get_by_env ?e (nodes mem))" unfolding ex by blast
    moreover have "(j, c) \<in> set cs" using m(1,2) by (simp add: own)
    ultimately show ?thesis
      by (subst info) (use m x in \<open>auto simp: env_info_of_def Let_def list_ex_iff intro!: bexI [of _ "(j, c)"]\<close>)
  qed
  with 1 show ?thesis by auto
qed

theorem locations_match_links_witness:
  "\<exists>info. info \<in> set (sub_locations 7 link_memory) \<and> ei_has_xray info \<and> \<not> ei_has_h2 info"
proof -
  have w: "tagged_inbounds (nodes link_memory)" by code_simp
  have "map ei_env (sub_locations 7 link_memory) = [Production]" by code_simp
  then obtain info where i: "info \<in> set (sub_locations 7 link_memory)" "ei_env info = Production" by fastforce
  have t: "link_targets \<lparr>sq_id = 7, sq_format = Txt, sq_env = Production, sq_proto = XrayReq\<rparr> link_memory =
      [(reality_inbound, 1, sample_conn, ''host'', 0x01020304, ''label'')]"
    "link_targets \<lparr>sq_id = 7, sq_format = Txt, sq_env = Production, sq_proto = Hysteria2Req\<rparr> link_memory = []"
    by code_simp+
  from locations_match_links [OF link_memory_wf(1) w i(1), of Txt] i show ?thesis
    by (auto simp: t sample_conn_def)
qed

section \<open>Metrics\<close>

inductive metric_step :: "(string \<Rightarrow> tags \<Rightarrow> u64) \<Rightarrow> metric_storage \<Rightarrow> metric_storage \<Rightarrow> bool" for h where
  step_receive: "metric_step h st (metric_receive h payload st)"
| step_gc: "metric_step h st (perform_gc now st)"

inductive_cases metric_stepE: "metric_step h st st'"

lemma metric_receive_max: "ms_max_points (metric_receive h payload st) = ms_max_points st"
proof -
  have "ms_max_points (insert_envelope h e st) = ms_max_points st" for e st
    by (simp add: insert_envelope_def Let_def split: option.split)
  then have "ms_max_points (fold (insert_envelope h) ms st) = ms_max_points st" for ms
    by (induction ms arbitrary: st) simp_all
  then show ?thesis by (simp add: metric_receive_def split: option.split)
qed

lemma perform_gc_max: "ms_max_points (perform_gc now st) = ms_max_points st"
  by (simp add: perform_gc_def Let_def)

interpretation metrics: preserved "metric_step h" "\<lambda>st. metrics_ok st \<and> ms_max_points st = n" for h n
  by unfold_locales
     (auto elim!: metric_stepE simp: metric_receive_ok perform_gc_ok metric_receive_max perform_gc_max)


definition sample_envelope :: metric_envelope where
  "sample_envelope = \<lparr>me_node_id = 9, me_name = ''sys.cpu'', me_value = 1, me_timestamp = 5000, me_tags = [(''env'', ''dev'')]\<rparr>"

definition sample_metrics :: metric_storage where
  "sample_metrics = metric_receive (\<lambda>_ _. 1) (Some [sample_envelope]) (storage_new 10 60)"


section \<open>Addresses of WireGuard peers\<close>

lemma shift_mask_eq:
  assumes "c \<le> 32" and "c \<noteq> 0"
  shows "shift_mask c = push_bit (32 - unat c) (- 1)"
proof -
  have p: "0 < unat c" using assms(2) by (simp add: unat_gt_0)
  have "(32 - c) AND 31 = take_bit 5 (32 - c)"
    by (simp add: take_bit_eq_mask mask_eq_exp_minus_1)
  then have "unat ((32 - c) AND 31) = unat (32 - c) mod 2 ^ 5"
    by (simp only: unat_mod_eq_take_bit)
  also have "\<dots> = 32 - unat c" using p by (simp add: unat_sub_cidr [OF assms(1)])
  finally have k: "unat ((32 - c) AND 31) = 32 - unat c" .
  have "NOT (push_bit k 1 - 1) = (push_bit k (- 1) :: u32)" for k
    by (simp add: push_bit_eq_mult not_eq_complement)
  then show ?thesis by (simp only: shift_mask_def k)
qed

text \<open>The range the addresses are taken from.\<close>

lemma next_ip_range:
  fixes b :: u32
  assumes "k \<le> 31" and "2 \<le> k"
  defines "low \<equiv> b AND push_bit k (- 1)" and "N \<equiv> 2 ^ k * unat (drop_bit k b)"
  shows "unat low = N" "unat (low + 1) = N + 1" "unat ((low OR NOT (push_bit k (- 1))) - 1) = N + (2 ^ k - 2)"
    "N + (2 ^ k - 1) < 2 ^ 32"
proof -
  have m: "NOT (push_bit k (- 1)) = (mask k :: u32)"
    by (simp add: push_bit_eq_mult not_eq_complement mask_eq_exp_minus_1)
  have d: "drop_bit k low = drop_bit k b"
    unfolding low_def by (rule bit_word_eqI) (auto simp: bit_simps dest: bit_imp_le_length)
  show l: "unat low = N" unfolding low_def N_def by (rule unat_and_netmask)
  have h: "unat (low OR mask k) = N + (2 ^ k - 1)"
    using unat_or_mask [of k low] assms(1) by (simp add: d N_def)
  then show b: "N + (2 ^ k - 1) < 2 ^ 32" using unat_bound [of "low OR mask k"] by simp
  have two: "(2::nat) ^ 2 \<le> 2 ^ k" using assms(2) by (intro power_increasing) simp_all
  show "unat (low + 1) = N + 1" using l b two by (simp add: unat_word_ariths)
  have "1 \<le> low OR mask k" using h two by (simp add: word_le_nat_alt)
  then show "unat ((low OR NOT (push_bit k (- 1))) - 1) = N + (2 ^ k - 2)"
    unfolding m using h two by (simp add: unat_sub)
qed

lemma contains_range:
  assumes "cidr m \<le> 32" and "address m = V4 b"
  defines "k \<equiv> 32 - unat (cidr m)"
  shows "contains_ipv4 m ip \<longleftrightarrow> 2 ^ k * unat (drop_bit k b) \<le> unat ip \<and>
    unat ip \<le> 2 ^ k * unat (drop_bit k b) + (2 ^ k - 1)"
proof -
  have dz: "unat (drop_bit k a) = unat a div 2 ^ k" for a :: u32
    by (simp only: unat_drop_bit_eq) (simp add: drop_bit_eq_div)
  have "contains_ipv4 m ip \<longleftrightarrow> unat b div 2 ^ k = unat ip div 2 ^ k"
    using contains_ipv4_prefix [OF assms(1,2), of ip] unfolding k_def [symmetric] by (simp add: word_unat_eq_iff dz)
  then show ?thesis using interval_iff_div [of "2 ^ k" "unat b" "unat ip"] by (simp add: dz)
qed

lemma list_find_SomeD: "List.find P xs = Some x \<Longrightarrow> P x \<and> x \<in> set xs"
  by (induction xs) (auto split: if_splits)

lemma of_nat_range:
  fixes ip :: u32
  assumes "u \<le> 2 ^ 32"
  shows "ip \<in> set (map of_nat [l ..< u]) \<longleftrightarrow> l \<le> unat ip \<and> unat ip < u"
proof
  assume "ip \<in> set (map of_nat [l ..< u])"
  then obtain n where n: "l \<le> n" "n < u" "ip = of_nat n" by auto
  then have "unat ip = n" using assms by (simp add: unat_of_nat)
  with n show "l \<le> unat ip \<and> unat ip < u" by simp
next
  assume "l \<le> unat ip \<and> unat ip < u"
  then show "ip \<in> set (map of_nat [l ..< u])" by (force intro: image_eqI [of _ _ "unat ip"])
qed

text \<open>The search, in terms of the network and broadcast addresses of the mask.\<close>

lemma next_ip_search:
  assumes "address net = V4 b" and "cidr net \<noteq> 0" and "cidr net \<le> 30" and "broadcast net = V4 hi"
  defines "low \<equiv> b AND netmask4 (cidr net)"
  obtains addrs where "\<And>ip. ip \<in> set addrs \<longleftrightarrow> low < ip \<and> ip < hi - 1"
    and "\<And>ip. low < ip \<Longrightarrow> ip < hi - 1 \<Longrightarrow> contains_ipv4 net ip"
    and "\<And>i peers. next_available_ip_mask net i (Some peers) =
      (case List.find (\<lambda>ip. ip \<notin> set (i # peer_ips peers)) addrs of
         Some ip \<Rightarrow> Inr \<lparr>address = V4 ip, cidr = 32\<rparr>
       | None \<Rightarrow> Inl (Custom ''No available IPs in the subnet''))"
proof -
  let ?k = "32 - unat (cidr net)"
  let ?N = "2 ^ ?k * unat (drop_bit ?k b)"
  have c: "cidr net \<le> 32" "unat (cidr net) \<le> 30" using assms(3) by (simp_all add: word_le_nat_alt)
  have k: "?k \<le> 31" "2 \<le> ?k" using c(2) assms(2) unat_gt_0 [of "cidr net"] by linarith+
  have mask: "shift_mask (cidr net) = push_bit ?k (- 1)" "netmask4 (cidr net) = push_bit ?k (- 1)"
    by (rule shift_mask_eq [OF c(1) assms(2)], rule netmask4_eq [OF c(1) assms(2)])
  note low = low_def [unfolded mask]
  note r = next_ip_range [OF k, of b, folded low]
  have "hi = b OR drop_bit (unat (cidr net)) (- 1)"
    using assms(1,3,4) by (auto simp: broadcast_def word_le_nat_alt)
  also have "\<dots> = low OR NOT (push_bit ?k (- 1))"
    unfolding low by (rule bit_word_eqI) (use c(2) in \<open>auto simp: bit_simps dest: bit_imp_le_length\<close>)
  finally have hi: "hi = low OR NOT (push_bit ?k (- 1))" .
  show ?thesis
  proof (rule that [of "map of_nat [unat (low + 1) ..< unat (hi - 1)]"])
    fix ip :: u32
    have "ip \<in> set (map of_nat [unat (low + 1) ..< unat (hi - 1)]) \<longleftrightarrow>
        unat (low + 1) \<le> unat ip \<and> unat ip < unat (hi - 1)"
      by (rule of_nat_range) (use unat_bound [of "hi - 1"] in simp)
    then show "ip \<in> set (map of_nat [unat (low + 1) ..< unat (hi - 1)]) \<longleftrightarrow> low < ip \<and> ip < hi - 1"
      using r by (simp add: word_less_nat_alt hi Suc_le_eq)
  next
    fix ip
    assume "low < ip" "ip < hi - 1"
    then have "?N < unat ip" "unat ip < ?N + (2 ^ ?k - 2)" unfolding word_less_nat_alt hi r(1,3) by blast+
    then show "contains_ipv4 net ip" unfolding contains_range [OF c(1) assms(1), of ip] by linarith
  qed (simp add: next_available_ip_mask_def assms(1) mask Let_def hi low)
qed

text \<open>C35. The address a node hands out to a new peer is inside the network, above its network address,
  below the address before the broadcast address, and neither the interface's nor any peer's; an
  error says that all of these are taken. The last address before the broadcast address is never
  handed out.\<close>

theorem next_available_ip_spec:
  assumes "address net = V4 b" and "cidr net \<noteq> 0" and "cidr net \<le> 30" and "broadcast net = V4 hi"
  shows "(case next_available_ip_mask net interface_ip (Some peers) of
      Inr m \<Rightarrow> \<exists>ip. m = \<lparr>address = V4 ip, cidr = 32\<rparr> \<and> contains_ipv4 net ip \<and>
        b AND netmask4 (cidr net) < ip \<and> ip < hi - 1 \<and> ip \<notin> set (interface_ip # peer_ips peers)
    | Inl _ \<Rightarrow> \<forall>ip. contains_ipv4 net ip \<and> b AND netmask4 (cidr net) < ip \<and> ip < hi - 1 \<longrightarrow>
        ip \<in> set (interface_ip # peer_ips peers))"
proof -
  let ?used = "interface_ip # peer_ips peers"
  from next_ip_search [OF assms] obtain addrs where
    range: "\<And>ip. ip \<in> set addrs \<longleftrightarrow> b AND netmask4 (cidr net) < ip \<and> ip < hi - 1"
    and inside: "\<And>ip. b AND netmask4 (cidr net) < ip \<Longrightarrow> ip < hi - 1 \<Longrightarrow> contains_ipv4 net ip"
    and step: "\<And>i peers. next_available_ip_mask net i (Some peers) =
      (case List.find (\<lambda>ip. ip \<notin> set (i # peer_ips peers)) addrs of
         Some ip \<Rightarrow> Inr \<lparr>address = V4 ip, cidr = 32\<rparr>
       | None \<Rightarrow> Inl (Custom ''No available IPs in the subnet''))" by blast
  show ?thesis
  proof (cases "List.find (\<lambda>ip. ip \<notin> set ?used) addrs")
    case None
    then have "ip \<in> set ?used" if "ip \<in> set addrs" for ip using that unfolding find_None_iff by blast
    then show ?thesis unfolding step None using range by simp
  next
    case (Some ip)
    from list_find_SomeD [OF this] have "ip \<notin> set ?used" "ip \<in> set addrs" by blast+
    with inside [of ip] range show ?thesis unfolding step Some by simp
  qed
qed

theorem next_available_ip_spec_witness:
  "\<exists>ip. next_available_ip_mask sample_net 0x0A000001 (Some []) = Inr \<lparr>address = V4 ip, cidr = 32\<rparr> \<and>
     contains_ipv4 sample_net ip \<and> ip \<noteq> 0x0A000001"
proof -
  have "contains_ipv4 sample_net 0x0A000002" by code_simp
  moreover have "address sample_net = V4 0x0A000000" "cidr sample_net = 24" "broadcast sample_net = V4 0x0A0000FF"
    by (simp_all add: sample_net_def broadcast_def mask_eq_exp_minus_1)
  moreover have "netmask4 24 = 0xFFFFFF00" by code_simp
  ultimately show ?thesis
    using next_available_ip_spec [of sample_net "0x0A000000" "0x0A0000FF" "0x0A000001" "[]"]
    by (cases "next_available_ip_mask sample_net 0x0A000001 (Some [])")
       (auto simp: peer_ips_def map_filter_def dest: spec [of _ "0x0A000002"])
qed

end
