(* ===== verification/Routes.thy ===== *)
theory Routes
  imports Views HandlerInv
begin

text \<open>
  The HTTP interface of the API server: the table of routes (\<open>bin/api/http/routes.rs\<close>), the check of
  the access token (\<open>http/filters.rs\<close>), the answer to a request that no route takes
  (\<open>bin/api/http/mod.rs\<close>) and the web sockets of the dashboards
  (\<open>bin/api/http/handlers/metrics.rs\<close>). Of warp the table uses \<open>and\<close>, which stops at the first
  rejection, \<open>or\<close>, which tries the next route after a rejection, and filters for the method, the
  path and a header. The decoders of queries and bodies (serde), the printers the views need, and
  whether warp counts a set of rejections as \<^emph>\<open>not found\<close> are the parameter \<open>http_ext\<close>. CORS
  headers are left out.
\<close>

section \<open>Requests and rejections\<close>

datatype http_method = MGet | MPost | MPut | MDelete

record http_request =
  hr_method :: http_method
  hr_path :: "string list"
  hr_authorization :: "string option"
  hr_query :: string
  hr_body :: string
  hr_upgrade :: bool

datatype rejected =
    RejNotFound
  | RejMethod
  | RejMissingHeader
  | RejAuth
  | RejQuery
  | RejBody
  | RejUpgrade
  | RejHandler error

record 'u http_ext =
  hx_link :: "'u link_ext"
  hx_yaml :: "clash_config \<Rightarrow> string option"
  hx_num_days :: "int \<Rightarrow> int"
  hx_uuid :: "string \<Rightarrow> uuid option"
  hx_is_not_found :: "rejected list \<Rightarrow> bool"
  hx_nodes_query :: "string \<Rightarrow> string option option"
  hx_node_id_query :: "string \<Rightarrow> uuid option"
  hx_sub_id_query :: "string \<Rightarrow> uuid option"
  hx_conn_query :: "string \<Rightarrow> uuid option"
  hx_sub_info_query :: "string \<Rightarrow> sub_info_request option"
  hx_conn_info_query :: "string \<Rightarrow> (uuid \<times> env) option"
  hx_key_query :: "string \<Rightarrow> string option"
  hx_node_body :: "string \<Rightarrow> node_request option"
  hx_sub_body :: "string \<Rightarrow> sub_req option"
  hx_sync_body :: "string \<Rightarrow> conn_type option"
  hx_conn_body :: "string \<Rightarrow> conn_create_request option"
  hx_key_body :: "string \<Rightarrow> (i16 \<times> string option) option"
  hx_activate_body :: "string \<Rightarrow> (string \<times> uuid) option"
  hx_trial_body :: "string \<Rightarrow> trial_req option"

record service_config =
  sc_token :: string
  sc_key_sign_token :: "u8 list"
  sc_bonus_days :: int
  sc_system_refer_codes :: "string list"
  sc_wireguard_network :: ip_addr_mask
  sc_enabled_envs :: "env list"
  sc_enabled_tags :: "proto_tag list"
  sc_trial_limit_days :: int
  sc_trial_limit_bytes :: int
  sc_subscription_title :: string

text \<open>The filter \<open>auth\<close>; a request without the header does not reach its closure.\<close>

definition auth_filter :: "string \<Rightarrow> string option \<Rightarrow> rejected option" where
  "auth_filter token header = (case header of
      None \<Rightarrow> Some RejMissingHeader
    | Some h \<Rightarrow> (case strip_prefix ''Bearer '' h of
        Some t \<Rightarrow> if t = token then None else Some RejAuth
      | None \<Rightarrow> Some RejAuth))"

section \<open>Answers\<close>

datatype answer =
    APage page
  | ASeries uuid u64
  | AAggregate string string string
  | AUnauthorized
  | ANotFound
  | ADefault "rejected list"
  | APanic

text \<open>\<open>rejection\<close>. Nothing in the repository rejects with the errors of its other two branches.\<close>

definition recover :: "'u http_ext \<Rightarrow> rejected list \<Rightarrow> answer" where
  "recover hx rejs = (if RejAuth \<in> set rejs then AUnauthorized
     else if hx_is_not_found hx rejs then ANotFound else ADefault rejs)"

text \<open>One round of the web sockets: the points of the last ten minutes, or no message.\<close>

definition ws_series :: "uuid \<Rightarrow> u64 \<Rightarrow> int \<Rightarrow> metric_storage \<Rightarrow> (int \<times> f64) list option" where
  "ws_series node_id key now st =
    (let points = get_range node_id key (i64_wrap (now - 10 * 60 * 1000)) now st
     in if points = [] then None else Some (map (\<lambda>p. (mp_timestamp p, mp_value p)) points))"

definition ws_aggregate :: "string \<Rightarrow> string \<Rightarrow> string \<Rightarrow> int \<Rightarrow> metric_storage \<Rightarrow>
    (uuid \<times> (int \<times> f64) list) list option" where
  "ws_aggregate tag_key tag_value name now st =
    (let result = get_aggregated_range tag_key tag_value name (i64_wrap (now - 600000)) now st
     in if result = [] then None
        else Some (map (\<lambda>(i, points). (i, map (\<lambda>p. (mp_timestamp p, mp_value p)) points)) result))"

section \<open>Routes\<close>

text \<open>A route: which of path and method it looks at first, the two, whether it asks for the token,
  and what it does with the rest of the request.\<close>

type_synonym server = "world \<times> email_store"
type_synonym call = "server \<Rightarrow> (error, answer) outcome \<times> server"

record route =
  rt_path_first :: bool
  rt_method :: "http_method option"
  rt_path :: "string list \<Rightarrow> bool"
  rt_auth :: bool
  rt_call :: "http_request \<Rightarrow> rejected + call"

definition route_rejects :: "string \<Rightarrow> route \<Rightarrow> http_request \<Rightarrow> rejected option" where
  "route_rejects token r q =
    (let path = rt_path r (hr_path q);
         meth = (case rt_method r of None \<Rightarrow> True | Some m \<Rightarrow> hr_method q = m)
     in if rt_path_first r \<and> \<not> path then Some RejNotFound
        else if \<not> meth then Some RejMethod
        else if \<not> path then Some RejNotFound
        else if rt_auth r then auth_filter token (hr_authorization q) else None)"

definition with_query :: "(string \<Rightarrow> 'a option) \<Rightarrow> ('a \<Rightarrow> call) \<Rightarrow> http_request \<Rightarrow> rejected + call" where
  "with_query decode f q = (case decode (hr_query q) of None \<Rightarrow> Inl RejQuery | Some v \<Rightarrow> Inr (f v))"

definition with_body :: "(string \<Rightarrow> 'a option) \<Rightarrow> ('a \<Rightarrow> call) \<Rightarrow> http_request \<Rightarrow> rejected + call" where
  "with_body decode f q = (case decode (hr_body q) of None \<Rightarrow> Inl RejBody | Some v \<Rightarrow> Inr (f v))"

text \<open>A handler on the world as a call, and one that only reads it at the current time.\<close>

definition on_world :: "(world \<Rightarrow> world handled) \<Rightarrow> call" where
  "on_world h s = (case s of (w, st) \<Rightarrow> (case h w of (r, w) \<Rightarrow>
     (case r of Ret p \<Rightarrow> Ret (APage (PReply p)) | Err e \<Rightarrow> Err e | Panic \<Rightarrow> Panic, (w, st))))"

definition reading :: "ext \<Rightarrow> (datetime \<Rightarrow> cache \<Rightarrow> (error, page) outcome) \<Rightarrow> call" where
  "reading x h s = (case s of (w, st) \<Rightarrow>
     (case h (utc_now x w) (w_mem w) of Ret p \<Rightarrow> Ret (APage p) | Err e \<Rightarrow> Err e | Panic \<Rightarrow> Panic, (tick w, st)))"

definition get_route :: "string list \<Rightarrow> bool \<Rightarrow> (http_request \<Rightarrow> rejected + call) \<Rightarrow> route" where
  "get_route path auth f = \<lparr>rt_path_first = False, rt_method = Some MGet, rt_path = (\<lambda>p. p = path),
     rt_auth = auth, rt_call = f\<rparr>"

definition post_route :: "string list \<Rightarrow> bool \<Rightarrow> (http_request \<Rightarrow> rejected + call) \<Rightarrow> route" where
  "post_route path auth f = \<lparr>rt_path_first = False, rt_method = Some MPost, rt_path = (\<lambda>p. p = path),
     rt_auth = auth, rt_call = f\<rparr>"

definition macro_route :: "string list \<Rightarrow> bool \<Rightarrow> (http_request \<Rightarrow> rejected + call) \<Rightarrow> route" where
  "macro_route path auth f = \<lparr>rt_path_first = True, rt_method = Some MGet, rt_path = (\<lambda>p. p = path),
     rt_auth = auth, rt_call = f\<rparr>"

definition trial_config_of :: "service_config \<Rightarrow> trial_config" where
  "trial_config_of c = \<lparr>tc_network = sc_wireguard_network c, tc_system_codes = sc_system_refer_codes c,
     tc_envs = sc_enabled_envs c, tc_protos = sc_enabled_tags c, tc_days = sc_trial_limit_days c,
     tc_bonus = sc_bonus_days c, tc_limit_bytes = sc_trial_limit_bytes c\<rparr>"

definition healthcheck_handler :: page where
  "healthcheck_handler = PReply (Reply 200 ''Ok'' None)"

definition sub_info_route :: "'u http_ext \<Rightarrow> ext \<Rightarrow> route" where
  "sub_info_route hx x = \<lparr>rt_path_first = False, rt_method = Some MGet,
     rt_path = (\<lambda>p. case p of [a, i] \<Rightarrow> a = ''subscription'' \<and> hx_uuid hx i \<noteq> None | _ \<Rightarrow> False),
     rt_auth = False,
     rt_call = (\<lambda>q. Inr (reading x (\<lambda>now mem.
       case hx_uuid hx (hr_path q ! 1) of
         Some i \<Rightarrow> Ret (get_subscription_info (hx_num_days hx) now i mem)
       | None \<Rightarrow> Panic)))\<rparr>"

definition u64_from_str :: "string \<Rightarrow> u64 option" where
  "u64_from_str s = map_option of_nat (parse_unsigned (2 ^ 64 - 1) s)"

definition series_route :: "'u http_ext \<Rightarrow> route" where
  "series_route hx = \<lparr>rt_path_first = True, rt_method = None,
     rt_path = (\<lambda>p. case p of [a, b, i, k, c] \<Rightarrow> a = ''metrics'' \<and> b = ''all'' \<and> c = ''ws'' \<and>
       hx_uuid hx i \<noteq> None \<and> u64_from_str k \<noteq> None | _ \<Rightarrow> False),
     rt_auth = False,
     rt_call = (\<lambda>q. if \<not> hr_upgrade q then Inl RejUpgrade
       else (case (hx_uuid hx (hr_path q ! 2), u64_from_str (hr_path q ! 3)) of
          (Some i, Some k) \<Rightarrow> Inr (\<lambda>s. (Ret (ASeries i k), s))
        | _ \<Rightarrow> Inl RejNotFound))\<rparr>"

definition aggregate_route :: route where
  "aggregate_route = \<lparr>rt_path_first = True, rt_method = None,
     rt_path = (\<lambda>p. case p of [a, b, i, k, n, c] \<Rightarrow> a = ''metrics'' \<and> b = ''aggregate'' \<and> c = ''ws'' | _ \<Rightarrow> False),
     rt_auth = False,
     rt_call = (\<lambda>q. if \<not> hr_upgrade q then Inl RejUpgrade
       else Inr (\<lambda>s. (Ret (AAggregate (hr_path q ! 2) (hr_path q ! 3) (hr_path q ! 4)), s)))\<rparr>"

text \<open>The routes in the order in which they are tried.\<close>

definition routes :: "ext \<Rightarrow> codec \<Rightarrow> mail_ext \<Rightarrow> 'u http_ext \<Rightarrow> service_config \<Rightarrow> metric_storage \<Rightarrow> route list" where
  "routes x k m hx cfg metrics = [
     get_route [''healthcheck''] False (\<lambda>_. Inr (\<lambda>s. (Ret (APage healthcheck_handler), s))),
     get_route [''sub''] False (with_query (hx_sub_info_query hx) (\<lambda>req. reading x (\<lambda>now mem.
       subscription_link_handler (hx_link hx) (hx_yaml hx) now req (sc_subscription_title cfg)
         (sc_trial_limit_bytes cfg) mem))),
     sub_info_route hx x,
     post_route [''subscription''] True (with_body (hx_sub_body hx) (\<lambda>req.
       on_world (post_subscription_handler x req (sc_bonus_days cfg) (sc_system_refer_codes cfg)))),
     \<lparr>rt_path_first = False, rt_method = Some MPut, rt_path = (\<lambda>p. p = [''subscription'']), rt_auth = True,
       rt_call = (\<lambda>q. case hx_sub_id_query hx (hr_query q) of
           None \<Rightarrow> Inl RejQuery
         | Some i \<Rightarrow> with_body (hx_sub_body hx) (\<lambda>req. on_world (put_subscription_handler x i req)) q)\<rparr>,
     get_route [''nodes''] False (with_query (hx_nodes_query hx) (\<lambda>e. reading x (\<lambda>_ mem.
       Ret (get_nodes_handler e metrics mem)))),
     get_route [''node''] True (with_query (hx_node_id_query hx) (\<lambda>i. reading x (\<lambda>_ mem.
       Ret (get_node_handler (x_uuid_str x) i mem)))),
     post_route [''node''] True (with_body (hx_node_body hx) (\<lambda>req. on_world (post_node_handler x req))),
     post_route [''connection''] True (with_body (hx_conn_body hx) (\<lambda>req.
       on_world (create_connection_handler x req (sc_wireguard_network cfg)))),
     \<lparr>rt_path_first = True, rt_method = Some MPost, rt_path = (\<lambda>p. take 2 p = [''connections'', ''sync'']),
       rt_auth = True, rt_call = with_body (hx_sync_body hx) (\<lambda>req. on_world (get_connections_handler x req))\<rparr>,
     \<lparr>rt_path_first = False, rt_method = Some MDelete, rt_path = (\<lambda>p. p = [''connection'']), rt_auth = True,
       rt_call = with_query (hx_conn_query hx) (\<lambda>i. on_world (delete_connection_handler x i))\<rparr>,
     macro_route [''info'', ''connections'', ''mtproto''] False (with_query (hx_conn_info_query hx) (\<lambda>(i, e).
       reading x (\<lambda>now mem. mtproto_connections_handler (hx_link hx) now i e mem))),
     macro_route [''info'', ''connections'', ''wireguard''] False (with_query (hx_conn_info_query hx) (\<lambda>(i, e).
       reading x (\<lambda>now mem. wireguard_connections_handler (hx_link hx) now i e mem))),
     macro_route [''connection''] True (with_query (hx_conn_query hx) (\<lambda>i.
       on_world (\<lambda>w. (Ret (get_connection_handler i w), w)))),
     get_route [''key'', ''validate''] False (with_query (hx_key_query hx) (\<lambda>code.
       on_world (get_key_validate_handler x k code (sc_key_sign_token cfg)))),
     post_route [''key''] True (with_body (hx_key_body hx) (\<lambda>(days, dist).
       on_world (post_key_handler x k days dist (sc_key_sign_token cfg)))),
     post_route [''key'', ''activate''] False (with_body (hx_activate_body hx) (\<lambda>(code, i).
       on_world (post_activate_key_handler x code i))),
     post_route [''trial''] False (with_body (hx_trial_body hx) (\<lambda>req s.
       case post_trial_handler x m (trial_config_of cfg) req s of (r, s) \<Rightarrow>
         (case r of Ret p \<Rightarrow> Ret (APage (PReply p)) | Err e \<Rightarrow> Err e | Panic \<Rightarrow> Panic, s))),
     series_route hx,
     aggregate_route]"

text \<open>\<open>or\<close>: a rejection, also one by a handler, passes the request on; in the end the rejections are
  turned into an answer.\<close>

fun try_routes :: "'u http_ext \<Rightarrow> string \<Rightarrow> route list \<Rightarrow> rejected list \<Rightarrow> http_request \<Rightarrow> server \<Rightarrow> answer \<times> server" where
  "try_routes hx token [] rejs q s = (recover hx rejs, s)"
| "try_routes hx token (r # rs) rejs q s = (case route_rejects token r q of
     Some e \<Rightarrow> try_routes hx token rs (rejs @ [e]) q s
   | None \<Rightarrow> (case rt_call r q of
       Inl e \<Rightarrow> try_routes hx token rs (rejs @ [e]) q s
     | Inr f \<Rightarrow> (case f s of
         (Ret a, s) \<Rightarrow> (a, s)
       | (Err e, s) \<Rightarrow> try_routes hx token rs (rejs @ [RejHandler e]) q s
       | (Panic, s) \<Rightarrow> (APanic, s))))"

definition serve :: "ext \<Rightarrow> codec \<Rightarrow> mail_ext \<Rightarrow> 'u http_ext \<Rightarrow> service_config \<Rightarrow> metric_storage \<Rightarrow> http_request \<Rightarrow>
    server \<Rightarrow> answer \<times> server" where
  "serve x k m hx cfg metrics q s = try_routes hx (sc_token cfg) (routes x k m hx cfg metrics) [] q s"

end
