(* ===== verification/HttpProps.thy ===== *)
theory HttpProps
  imports ViewProps Routes
begin

text \<open>
  Properties of the HTTP interface as a whole: what a request can do to the server, and what a
  request without the access token can do.
\<close>

section \<open>Requests as steps\<close>

lemma try_routes_rel:
  assumes refl: "\<And>s. R s s" and trans: "\<And>a b c. R a b \<Longrightarrow> R b c \<Longrightarrow> R a c"
    and call: "\<And>r f s. r \<in> set rs \<Longrightarrow> route_rejects token r q = None \<Longrightarrow> rt_call r q = Inr f \<Longrightarrow> R s (snd (f s))"
  shows "R s (snd (try_routes hx token rs rejs q s))"
  using call
proof (induction rs arbitrary: rejs s)
  case (Cons r rs)
  have IH: "R s (snd (try_routes hx token rs rejs q s))" for rejs s
    by (rule Cons.IH) (rule Cons.prems, simp_all)
  show ?case
  proof (cases "route_rejects token r q")
    case None
    show ?thesis
    proof (cases "rt_call r q")
      case (Inr f)
      obtain a s1 where f: "f s = (a, s1)" by (cases "f s")
      with Cons.prems [of r f s] None Inr have "R s s1" by simp
      with f None Inr IH [of s1] trans show ?thesis by (cases a) auto
    qed (use None IH in simp)
  qed (use IH in simp)
qed (simp add: refl)

lemma with_query_Inr: "with_query d f q = Inr g \<longleftrightarrow> (\<exists>v. d (hr_query q) = Some v \<and> g = f v)"
  by (auto simp: with_query_def split: option.split)

lemma with_body_Inr: "with_body d f q = Inr g \<longleftrightarrow> (\<exists>v. d (hr_body q) = Some v \<and> g = f v)"
  by (auto simp: with_body_def split: option.split)

lemmas call_Inr = with_query_Inr with_body_Inr

lemma on_world_snd: "snd (on_world h (w, st)) = (snd (h w), st)"
  by (simp add: on_world_def split_beta)

lemma reading_snd: "snd (reading x h (w, st)) = (tick w, st)"
  by (simp add: reading_def)

lemmas route_defs = routes_def get_route_def post_route_def macro_route_def sub_info_route_def
  series_route_def aggregate_route_def

text \<open>Each call of the table is a step of the server or leaves it alone.\<close>

lemma route_call_step:
  assumes "r \<in> set (routes x k m hx cfg metrics)" and "rt_call r q = Inr f"
  shows "snd (f (w, st)) = (w, st) \<or> srv_step x k m (w, st) (snd (f (w, st)))"
  using assms
  by (auto simp: route_defs call_Inr on_world_snd reading_snd split_beta srv_step.intros
      split: if_splits option.splits)


section \<open>Requests without the token\<close>

definition authorized :: "string \<Rightarrow> http_request \<Rightarrow> bool" where
  "authorized token q = (hr_authorization q = Some (''Bearer '' @ token))"

lemma auth_filter_None: "auth_filter token (hr_authorization q) = None \<longleftrightarrow> authorized token q"
proof (cases "hr_authorization q")
  case (Some h)
  have "strip_prefix ''Bearer '' h = Some token \<longleftrightarrow> h = ''Bearer '' @ token"
    using strip_prefix_SomeD [of "''Bearer ''" h token] strip_prefix_append [of "''Bearer ''" token] by blast
  with Some show ?thesis by (auto simp: auth_filter_def authorized_def split: option.split)
qed (simp add: auth_filter_def authorized_def)

text \<open>The requests that ask for the token, and the two that change something without it.\<close>

definition guarded :: "http_request \<Rightarrow> bool" where
  "guarded q = ((hr_method q, hr_path q) \<in> {(MPost, [''subscription'']), (MPut, [''subscription'']),
     (MGet, [''node'']), (MPost, [''node'']), (MPost, [''connection'']), (MDelete, [''connection'']),
     (MGet, [''connection'']), (MPost, [''key''])} \<or>
     hr_method q = MPost \<and> take 2 (hr_path q) = [''connections'', ''sync''])"

definition open_change :: "http_request \<Rightarrow> bool" where
  "open_change q = (hr_method q = MPost \<and> hr_path q \<in> {[''key'', ''activate''], [''trial'']})"

text \<open>Nothing but the counter of events has changed.\<close>

definition untouched :: "server \<Rightarrow> server \<Rightarrow> bool" where
  "untouched s s' = (w_mem (fst s') = w_mem (fst s) \<and> w_db (fst s') = w_db (fst s) \<and>
     w_pub (fst s') = w_pub (fst s) \<and> snd s' = snd s)"

lemma untouched_tick: "untouched (w, st) (tick w, st)" "untouched s s"
  by (simp_all add: untouched_def)

lemma validate_untouched: "untouched (w, st) (snd (get_key_validate_handler x k code secret w), st)"
  by (auto simp: untouched_def get_key_validate_handler_def run_db_def split: option.split)

lemma unauthorized_call:
  assumes "r \<in> set (routes x k m hx cfg metrics)" and "route_rejects token r q = None" and "rt_call r q = Inr f"
    and "\<not> authorized token q" and "\<not> open_change q"
  shows "untouched s (snd (f s))"
proof -
  have "\<not> rt_auth r"
    using assms(2,4) by (auto simp: route_rejects_def Let_def auth_filter_None split: if_splits option.splits)
  moreover have "rt_path r (hr_path q)" "\<forall>m. rt_method r = Some m \<longrightarrow> hr_method q = m"
    using assms(2) by (auto simp: route_rejects_def Let_def split: if_splits option.splits)
  moreover obtain w st where "s = (w, st)" by force
  ultimately show ?thesis
    using assms(1,3,5)
    by (auto simp: route_defs call_Inr on_world_snd reading_snd untouched_tick validate_untouched open_change_def
        split: if_splits option.splits)
qed

lemma try_routes_rejected:
  "\<forall>r \<in> set rs. route_rejects token r q \<noteq> None \<Longrightarrow>
   try_routes hx token rs rejs q s = (recover hx (rejs @ map (\<lambda>r. the (route_rejects token r q)) rs), s)"
  by (induction rs arbitrary: rejs) auto

lemma sync_path: "take 2 p = [a, b] \<longleftrightarrow> (\<exists>rest. p = a # b # rest)"
  by (cases p; cases "tl p") auto

text \<open>A guarded request fits only routes that ask for the token.\<close>

lemma guarded_routes:
  assumes "guarded q" and "r \<in> set (routes x k m hx cfg metrics)" and "\<not> rt_auth r"
  shows "route_rejects token r q \<noteq> None"
proof -
  have "\<not> rt_path r (hr_path q) \<or> (\<exists>m. rt_method r = Some m \<and> hr_method q \<noteq> m)"
    using assms by (auto simp: route_defs guarded_def sync_path split: list.splits)
  then show ?thesis by (auto simp: route_rejects_def Let_def)
qed

lemma guarded_auth:
  assumes "guarded q"
  shows "\<exists>r \<in> set (routes x k m hx cfg metrics). rt_auth r \<and> rt_path r (hr_path q) \<and> rt_method r = Some (hr_method q)"
  using assms unfolding guarded_def by (elim disjE insertE) (simp_all add: route_defs)

lemma guarded_refused:
  assumes "guarded q" and "\<not> authorized (sc_token cfg) q" and "hr_authorization q \<noteq> None"
  shows "serve x k m hx cfg metrics q s = (AUnauthorized, s)"
proof -
  let ?rs = "routes x k m hx cfg metrics"
  let ?rej = "\<lambda>r. route_rejects (sc_token cfg) r q"
  have refused: "auth_filter (sc_token cfg) (hr_authorization q) = Some RejAuth"
    using assms(2,3) auth_filter_None [of "sc_token cfg" q]
    by (auto simp: auth_filter_def split: option.splits if_splits)
  have all: "\<forall>r \<in> set ?rs. ?rej r \<noteq> None"
  proof
    fix r
    assume r: "r \<in> set ?rs"
    show "?rej r \<noteq> None"
      using guarded_routes [OF assms(1) r, of "sc_token cfg"] refused
      by (cases "rt_auth r") (auto simp: route_rejects_def Let_def)
  qed
  from guarded_auth [OF assms(1)] obtain r where r: "r \<in> set ?rs" "rt_auth r" "rt_path r (hr_path q)"
    "rt_method r = Some (hr_method q)" by blast
  then have "?rej r = Some RejAuth" using refused by (simp add: route_rejects_def)
  with r(1) have "RejAuth \<in> (\<lambda>r. the (?rej r)) ` set ?rs" by (force intro: image_eqI [of _ _ r])
  then show ?thesis by (simp add: serve_def try_routes_rejected [OF all] recover_def)
qed

text \<open>C12. A request without the access token changes nothing, neither memory, nor tables, nor the record
  of trials, and publishes nothing, unless it activates a key or asks for a trial; and where the
  token is asked for, a wrong one is answered with 401.\<close>

theorem unauthorized_harmless:
  assumes "\<not> authorized (sc_token cfg) q" and "\<not> open_change q"
  shows "untouched s (snd (serve x k m hx cfg metrics q s)) \<and>
    (guarded q \<and> hr_authorization q \<noteq> None \<longrightarrow> fst (serve x k m hx cfg metrics q s) = AUnauthorized)"
proof -
  have "untouched s (snd (serve x k m hx cfg metrics q s))"
    unfolding serve_def
  proof (rule try_routes_rel)
    fix r f and t :: server
    assume "r \<in> set (routes x k m hx cfg metrics)" "route_rejects (sc_token cfg) r q = None" "rt_call r q = Inr f"
    then show "untouched t (snd (f t))" using assms by (rule unauthorized_call)
  qed (auto simp: untouched_def)
  with guarded_refused [OF _ assms(1), of x k m hx metrics s] show ?thesis by auto
qed

definition sample_http :: "string http_ext" where
  "sample_http = \<lparr>hx_link = sample_links, hx_yaml = (\<lambda>_. None), hx_num_days = (\<lambda>n. n), hx_uuid = sample_uuid_parse,
     hx_is_not_found = list_all (\<lambda>r. r = RejNotFound), hx_nodes_query = (\<lambda>_. Some None),
     hx_node_id_query = (\<lambda>_. Some 9), hx_sub_id_query = (\<lambda>_. Some 7), hx_conn_query = (\<lambda>_. Some 1),
     hx_sub_info_query = (\<lambda>_. None), hx_conn_info_query = (\<lambda>_. None), hx_key_query = (\<lambda>_. None),
     hx_node_body = (\<lambda>_. None), hx_sub_body = (\<lambda>_. None), hx_sync_body = (\<lambda>_. None), hx_conn_body = (\<lambda>_. None),
     hx_key_body = (\<lambda>_. None), hx_activate_body = (\<lambda>_. None), hx_trial_body = (\<lambda>_. None)\<rparr>"

definition sample_config :: service_config where
  "sample_config = \<lparr>sc_token = ''secret'', sc_key_sign_token = [1], sc_bonus_days = 7, sc_system_refer_codes = [],
     sc_wireguard_network = sample_net, sc_enabled_envs = [Production], sc_enabled_tags = [Hysteria2],
     sc_trial_limit_days = 3, sc_trial_limit_bytes = 1000, sc_subscription_title = ''title''\<rparr>"

definition delete_request :: "string \<Rightarrow> http_request" where
  "delete_request token = \<lparr>hr_method = MDelete, hr_path = [''connection''], hr_authorization = Some (''Bearer '' @ token),
     hr_query = ''id=1'', hr_body = [], hr_upgrade = False\<rparr>"

abbreviation sample_serve :: "http_request \<Rightarrow> answer \<times> server" where
  "sample_serve q \<equiv> serve sample_ext half_codec sample_mail sample_http sample_config (storage_new 10 60) q
     (sample_world, empty_store)"

theorem unauthorized_harmless_witness:
  "fst (sample_serve (delete_request ''guess'')) = AUnauthorized \<and>
   hm_get (mem_conns (fst (snd (sample_serve (delete_request ''guess''))))) 1 = Some sample_conn"
proof (intro conjI)
  let ?q = "delete_request ''guess''"
  have q: "\<not> authorized (sc_token sample_config) ?q" "\<not> open_change ?q" "guarded ?q \<and> hr_authorization ?q \<noteq> None"
    by (simp_all add: authorized_def open_change_def guarded_def delete_request_def sample_config_def)
  note h = unauthorized_harmless [OF q(1,2), of "(sample_world, empty_store)" sample_ext half_codec sample_mail
      sample_http "storage_new 10 60"]
  show "fst (sample_serve ?q) = AUnauthorized" using h q(3) by blast
  have "w_mem (fst (snd (sample_serve ?q))) = w_mem sample_world" using h unfolding untouched_def by simp
  then show "hm_get (mem_conns (fst (snd (sample_serve ?q)))) 1 = Some sample_conn" by (simp only:) simp
qed

end
