(* ===== verification/SysMetrics.thy ===== *)
theory SysMetrics
  imports NodeMetrics
begin

text \<open>
  The metrics of the machine a node or the authentication service runs on (\<open>metrics/impls.rs\<close>), a
  whole round of \<open>collect_metrics\<close> of both programs, and what the API server's storage has of a round
  after the batch has travelled over the bus. The counters are what crate sysinfo answers in that
  round; the floating-point operations of Rust are parameters, and a literal is its bit pattern.
\<close>

section \<open>What the machine answers\<close>

type_synonym f32 = "32 word"

record net_counters =
  nt_total_received :: u64
  nt_total_transmitted :: u64
  nt_received :: u64
  nt_transmitted :: u64

record disk =
  dk_mount_point :: "string option"
  dk_total_space :: u64
  dk_available_space :: u64

text \<open>A mount point that is not UTF-8 is \<open>None\<close>.\<close>

record machine =
  mc_free_memory :: u64
  mc_total_memory :: u64
  mc_used_memory :: u64
  mc_available_memory :: u64
  mc_load_one :: f64
  mc_load_five :: f64
  mc_load_fifteen :: f64
  mc_networks :: "(string \<times> net_counters) list"
  mc_cpus :: "(string \<times> f32) list"
  mc_disks :: "disk list"

record float_ext =
  fl_div :: "f64 \<Rightarrow> f64 \<Rightarrow> f64"
  fl_mul :: "f64 \<Rightarrow> f64 \<Rightarrow> f64"
  fl_round :: "f64 \<Rightarrow> f64"
  fs_div :: "f32 \<Rightarrow> f32 \<Rightarrow> f32"
  fs_mul :: "f32 \<Rightarrow> f32 \<Rightarrow> f32"
  fs_round :: "f32 \<Rightarrow> f32"
  fs_widen :: "f32 \<Rightarrow> f64"

definition f64_100 :: f64 where
  "f64_100 = 0x4059000000000000"

definition f32_100 :: f32 where
  "f32_100 = 0x42C80000"

section \<open>The metrics\<close>

text \<open>\<open>MetricSink::write\<close> of the buffer reads the clock, like \<open>push\<close>.\<close>

definition sink_write :: "metric_ext \<Rightarrow> uuid \<Rightarrow> string \<Rightarrow> f64 \<Rightarrow> tags \<Rightarrow> metric_envelope list \<Rightarrow> metric_envelope list" where
  "sink_write mx node_id metric v ts batch = batch @ [\<lparr>me_node_id = node_id, me_name = metric, me_value = v,
     me_timestamp = mx_now mx (length batch), me_tags = ts\<rparr>]"

definition beat_pattern :: "f64 list" where
  "beat_pattern = [0x3FF0000000000000, 0x3FF0000000000000, 0x4004000000000000, 0x3FD999999999999A,
     0x3FE3333333333333, 0x3FF4CCCCCCCCCCCD, 0x3FF0000000000000, 0x3FF0000000000000,
     0x3FF199999999999A, 0x3FF0000000000000, 0x3FF0000000000000, 0x3FE999999999999A,
     0x3FF0000000000000, 0x3FFE666666666666, 0x3FD3333333333333, 0x3FE0000000000000,
     0x3FF0000000000000]"

text \<open>\<open>BEAT_INDEX\<close> is one counter of the process; \<open>fetch_add\<close> wraps around.\<close>

definition heartbeat :: "metric_ext \<Rightarrow> node \<Rightarrow> u64 \<times> metric_envelope list \<Rightarrow> u64 \<times> metric_envelope list" where
  "heartbeat mx n ib = (case ib of (beat, batch) \<Rightarrow>
     (beat + 1, sink_write mx (n_uuid n) ''sys.heartbeat'' (beat_pattern ! (unat beat mod length beat_pattern))
        (get_base_tags n) batch))"

definition memory_metrics :: "metric_ext \<Rightarrow> machine \<Rightarrow> node \<Rightarrow> metric_envelope list \<Rightarrow> metric_envelope list" where
  "memory_metrics mx mc n batch =
    (let tags = get_base_tags n;
         batch = sink_write mx (n_uuid n) ''sys.mem_free'' (mx_f64 mx (uint (mc_free_memory mc))) tags batch;
         batch = sink_write mx (n_uuid n) ''sys.mem_total'' (mx_f64 mx (uint (mc_total_memory mc))) tags batch;
         batch = sink_write mx (n_uuid n) ''sys.mem_used'' (mx_f64 mx (uint (mc_used_memory mc))) tags batch
     in sink_write mx (n_uuid n) ''sys.mem_available'' (mx_f64 mx (uint (mc_available_memory mc))) tags batch)"

definition loadavg :: "metric_ext \<Rightarrow> machine \<Rightarrow> node \<Rightarrow> metric_envelope list \<Rightarrow> metric_envelope list" where
  "loadavg mx mc n batch =
    (let tags = get_base_tags n;
         batch = sink_write mx (n_uuid n) ''sys.loadavg_1'' (mc_load_one mc) tags batch;
         batch = sink_write mx (n_uuid n) ''sys.loadavg_5'' (mc_load_five mc) tags batch
     in sink_write mx (n_uuid n) ''sys.loadavg_15'' (mc_load_fifteen mc) tags batch)"

text \<open>The tags are one variable of the loop over the interfaces.\<close>

definition bandwidth_of :: "metric_ext \<Rightarrow> node \<Rightarrow> string \<times> net_counters \<Rightarrow> tags \<times> metric_envelope list \<Rightarrow>
    tags \<times> metric_envelope list" where
  "bandwidth_of mx n nt tb = (case nt of (interface, d) \<Rightarrow> case tb of (tags, batch) \<Rightarrow>
    (let tags = hm_insert ''default_interface'' (if interface = n_interface n then ''true'' else ''false'') tags;
         w = (\<lambda>suffix v. sink_write mx (n_uuid n) (''net.'' @ interface @ suffix) (mx_f64 mx (uint v)) tags)
     in (tags, w ''.tx_bps'' (nt_transmitted d) (w ''.rx_bps'' (nt_received d)
          (w ''.total_tx_bps'' (nt_total_transmitted d) (w ''.total_rx_bps'' (nt_total_received d) batch))))))"

definition bandwidth :: "metric_ext \<Rightarrow> machine \<Rightarrow> node \<Rightarrow> metric_envelope list \<Rightarrow> metric_envelope list" where
  "bandwidth mx mc n batch = snd (fold (bandwidth_of mx n) (mc_networks mc) (get_base_tags n, batch))"

definition cpu_usage :: "float_ext \<Rightarrow> metric_ext \<Rightarrow> machine \<Rightarrow> node \<Rightarrow> metric_envelope list \<Rightarrow> metric_envelope list" where
  "cpu_usage fx mx mc n batch = fold (\<lambda>(name, u).
     sink_write mx (n_uuid n) (''sys.cpu.'' @ name)
       (fs_widen fx (fs_div fx (fs_round fx (fs_mul fx u f32_100)) f32_100)) (get_base_tags n)) (mc_cpus mc) batch"

definition safe_mount :: "string option \<Rightarrow> string" where
  "safe_mount mp = (let mount_point = (case mp of Some s \<Rightarrow> s | None \<Rightarrow> ''unknown'') in
     if mount_point = ''/'' then ''root'' else dropWhile (\<lambda>c. c = CHR ''/'') mount_point)"

text \<open>The subtraction wraps around where more is available than there is in total.\<close>

definition usage_percent :: "float_ext \<Rightarrow> metric_ext \<Rightarrow> disk \<Rightarrow> f64" where
  "usage_percent fx mx d = (if 0 < dk_total_space d
     then fl_div fx (fl_round fx (fl_mul fx (fl_div fx (mx_f64 mx (uint (dk_total_space d - dk_available_space d)))
            (mx_f64 mx (uint (dk_total_space d)))) f64_100)) f64_100
     else 0)"

definition disk_metrics :: "float_ext \<Rightarrow> metric_ext \<Rightarrow> node \<Rightarrow> disk \<Rightarrow> metric_envelope list \<Rightarrow> metric_envelope list" where
  "disk_metrics fx mx n d batch =
    (let tags = get_base_tags n;
         prefix = ''sys.disk.'' @ safe_mount (dk_mount_point d);
         used = dk_total_space d - dk_available_space d;
         batch = sink_write mx (n_uuid n) (prefix @ ''.used_bytes'') (mx_f64 mx (uint used)) tags batch;
         batch = sink_write mx (n_uuid n) (prefix @ ''.total_bytes'') (mx_f64 mx (uint (dk_total_space d))) tags batch
     in sink_write mx (n_uuid n) (prefix @ ''.usage_percent'') (usage_percent fx mx d) tags batch)"

definition disk_usage :: "float_ext \<Rightarrow> metric_ext \<Rightarrow> machine \<Rightarrow> node \<Rightarrow> metric_envelope list \<Rightarrow> metric_envelope list" where
  "disk_usage fx mx mc n batch = fold (disk_metrics fx mx n) (mc_disks mc) batch"

section \<open>A round\<close>

text \<open>\<open>collect_metrics\<close> of the authentication service, and of a node, which adds the metrics of its
  traffic where it has the clients.\<close>

definition auth_collect_metrics :: "float_ext \<Rightarrow> metric_ext \<Rightarrow> machine \<Rightarrow> node \<Rightarrow> u64 \<times> metric_envelope list \<Rightarrow>
    u64 \<times> metric_envelope list" where
  "auth_collect_metrics fx mx mc n ib = (case heartbeat mx n ib of (beat, batch) \<Rightarrow>
     (beat, disk_usage fx mx mc n (memory_metrics mx mc n (loadavg mx mc n (cpu_usage fx mx mc n
        (bandwidth mx mc n batch))))))"

definition collect_metrics :: "agent_ext \<Rightarrow> float_ext \<Rightarrow> metric_ext \<Rightarrow> machine \<Rightarrow> node \<Rightarrow> u64 \<times> collecting \<Rightarrow>
    u64 \<times> collecting" where
  "collect_metrics x fx mx mc n bsb = (case bsb of (beat, s, batch) \<Rightarrow>
     case auth_collect_metrics fx mx mc n (beat, batch) of (beat, batch) \<Rightarrow>
     (let sb = (s, batch);
          sb = (if ne_has_stats x then collect_user_metrics x mx n (collect_inbound_metrics x mx n sb) else sb)
      in (beat, if ne_has_wg x then collect_wg_metrics x mx n sb else sb)))"

section \<open>What a round reports\<close>

lemma sink_reports:
  assumes "reports n b b'" and "hm_get ts ''hostname'' = Some (n_hostname n)"
  shows "reports n b (sink_write mx (n_uuid n) name v ts b')"
  using assms by (auto simp: reports_def sink_write_def)

lemma reports_fold:
  assumes "\<And>a b. reports n b (f a b)"
  shows "reports n b (fold f as b)"
proof (induction as arbitrary: b)
  case (Cons a as)
  from reports_trans [OF assms Cons.IH] show ?case by simp
qed simp

lemma bandwidth_fold:
  assumes "hm_get ts ''hostname'' = Some (n_hostname n)"
  shows "reports n b (snd (fold (bandwidth_of mx n) nets (ts, b)))"
  using assms
proof (induction nets arbitrary: ts b)
  case (Cons nt nets)
  obtain i d where nt: "nt = (i, d)" by force
  let ?ts = "hm_insert ''default_interface'' (if i = n_interface n then ''true'' else ''false'') ts"
  have h: "hm_get ?ts ''hostname'' = Some (n_hostname n)" using Cons.prems by simp
  obtain b' where b': "bandwidth_of mx n nt (ts, b) = (?ts, b')" by (simp add: bandwidth_of_def nt Let_def)
  then have "reports n b b'" by (auto simp: bandwidth_of_def nt Let_def intro!: sink_reports h)
  from reports_trans [OF this Cons.IH [OF h]] show ?case by (simp add: b')
qed simp

lemma machine_reports:
  "reports n b (snd (heartbeat mx n (beat, b)))"
  "reports n b (bandwidth mx mc n b)"
  "reports n b (cpu_usage fx mx mc n b)"
  "reports n b (loadavg mx mc n b)"
  "reports n b (memory_metrics mx mc n b)"
  "reports n b (disk_usage fx mx mc n b)"
  unfolding cpu_usage_def disk_usage_def bandwidth_def
  by (auto simp: heartbeat_def loadavg_def memory_metrics_def disk_metrics_def Let_def
      intro!: sink_reports reports_fold bandwidth_fold)

lemma auth_collect_reports: "reports n b (snd (auth_collect_metrics fx mx mc n (beat, b)))"
proof -
  obtain i b1 where h: "heartbeat mx n (beat, b) = (i, b1)" by force
  with machine_reports(1) [of n b mx beat] have "reports n b b1" by simp
  then have "reports n b (bandwidth mx mc n b1)" by (rule reports_trans [OF _ machine_reports(2)])
  then have "reports n b (cpu_usage fx mx mc n (bandwidth mx mc n b1))"
    by (rule reports_trans [OF _ machine_reports(3)])
  then have "reports n b (loadavg mx mc n (cpu_usage fx mx mc n (bandwidth mx mc n b1)))"
    by (rule reports_trans [OF _ machine_reports(4)])
  then have "reports n b (memory_metrics mx mc n (loadavg mx mc n (cpu_usage fx mx mc n (bandwidth mx mc n b1))))"
    by (rule reports_trans [OF _ machine_reports(5)])
  then show ?thesis unfolding auth_collect_metrics_def h
    by (simp add: reports_trans [OF _ machine_reports(6)])
qed

lemma collect_metrics_grows:
  "grows n sb (snd (collect_metrics x fx mx mc n (beat, sb)))"
proof -
  obtain s b where sb: "sb = (s, b)" by force
  obtain i b' where c: "auth_collect_metrics fx mx mc n (beat, b) = (i, b')" by force
  have "grows n sb (s, b')" using auth_collect_reports [of n b fx mx mc beat] by (simp add: sb c grows_def)
  moreover have "grows n a (collect_user_metrics x mx n (collect_inbound_metrics x mx n a))" for a
    by (rule grows_trans [OF collect_metrics_grow(1,2)])
  ultimately have "grows n sb (if ne_has_stats x then collect_user_metrics x mx n (collect_inbound_metrics x mx n (s, b'))
      else (s, b'))"
    by (auto intro: grows_trans simp del: split_paired_All)
  then show ?thesis
    by (auto simp: collect_metrics_def sb c Let_def intro: grows_trans [OF _ collect_metrics_grow(3)])
qed

section \<open>A batch in the storage\<close>

definition queue_of :: "metric_storage \<Rightarrow> uuid \<Rightarrow> u64 \<Rightarrow> metric_point list" where
  "queue_of st i key = or_default (or_default (ms_inner st) i) key"

definition point_of :: "metric_envelope \<Rightarrow> metric_point" where
  "point_of e = \<lparr>mp_timestamp = me_timestamp e, mp_value = me_value e\<rparr>"

definition key_of :: "(string \<Rightarrow> tags \<Rightarrow> u64) \<Rightarrow> metric_envelope \<Rightarrow> u64" where
  "key_of h e = h (me_name e) (me_tags e)"

lemma get_range_queue:
  "get_range i key from until st = filter (\<lambda>p. from \<le> mp_timestamp p \<and> mp_timestamp p \<le> until) (queue_of st i key)"
  by (simp add: get_range_def queue_of_def or_default_def split: option.split)

text \<open>A new point pushes out older points only, as long as the newer ones fit.\<close>

lemma push_point_suffix:
  assumes "length pts < max_points" and "\<forall>a \<in> set (pts @ [p]). oldest \<le> mp_timestamp a"
  shows "\<exists>pre'. push_point max_points oldest p (pre @ pts) = pre' @ pts @ [p]"
proof -
  let ?old = "drop (length (pre @ pts @ [p]) - max_points) pre"
  have d: "drop (length (pre @ pts @ [p]) - max_points) (pre @ pts @ [p]) = ?old @ pts @ [p]"
    using assms(1) by simp
  obtain y ys where y: "pts @ [p] = y # ys" by (cases "pts @ [p]") auto
  have "y \<in> set (pts @ [p])" unfolding y by simp
  with assms(2) have "\<not> mp_timestamp y < oldest" by force
  then have "dropWhile (\<lambda>a. mp_timestamp a < oldest) (?old @ pts @ [p]) =
      dropWhile (\<lambda>a. mp_timestamp a < oldest) ?old @ pts @ [p]"
    unfolding y by (rule dropWhile_append3)
  then show ?thesis by (simp only: push_point_def Let_def append_assoc d) blast
qed

lemma insert_envelope_settings:
  "ms_max_points (insert_envelope h e st) = ms_max_points st \<and>
   ms_retention_seconds (insert_envelope h e st) = ms_retention_seconds st"
  by (simp add: insert_envelope_def Let_def split: option.split)

lemma receive_settings:
  "ms_max_points (fold (insert_envelope h) ms st) = ms_max_points st \<and>
   ms_retention_seconds (fold (insert_envelope h) ms st) = ms_retention_seconds st"
  by (induction ms arbitrary: st) (simp_all add: insert_envelope_settings)

lemma insert_envelope_queue:
  "queue_of (insert_envelope h e st) i key =
    (if i = me_node_id e \<and> key = key_of h e
     then push_point (ms_max_points st) (min_ts (me_timestamp e) st) (point_of e) (queue_of st i key)
     else queue_of st i key)"
  by (auto simp: insert_envelope_def Let_def queue_of_def or_default_def point_of_def key_of_def min_ts_def
      split: option.split)

lemma receive_queue:
  assumes "length ms \<le> ms_max_points st"
    and "\<forall>a \<in> set ms. \<forall>b \<in> set ms. min_ts (me_timestamp a) st \<le> me_timestamp b"
  shows "\<exists>pre. queue_of (fold (insert_envelope h) ms st) i key =
    pre @ map point_of (filter (\<lambda>e. me_node_id e = i \<and> key_of h e = key) ms)"
  using assms
proof (induction ms rule: rev_induct)
  case (snoc e ms)
  let ?st = "fold (insert_envelope h) ms st"
  let ?pts = "map point_of (filter (\<lambda>e. me_node_id e = i \<and> key_of h e = key) ms)"
  from snoc obtain pre where q: "queue_of ?st i key = pre @ ?pts" by auto
  show ?case
  proof (cases "me_node_id e = i \<and> key_of h e = key")
    case True
    have "length ?pts < ms_max_points st"
      using snoc.prems(1) by (simp add: order.strict_trans1 [OF length_filter_le] Suc_le_eq)
    moreover have "\<forall>a \<in> set (?pts @ [point_of e]). min_ts (me_timestamp e) st \<le> mp_timestamp a"
      using snoc.prems(2) by (auto simp: point_of_def)
    ultimately obtain pre' where "push_point (ms_max_points st) (min_ts (me_timestamp e) st) (point_of e) (pre @ ?pts) =
        pre' @ ?pts @ [point_of e]"
      using push_point_suffix by blast
    with True q show ?thesis
      by (simp add: insert_envelope_queue receive_settings min_ts_def)
  qed (use q in \<open>auto simp: insert_envelope_queue\<close>)
qed simp

text \<open>Every series on record is there under its hash.\<close>

definition keyed :: "(string \<Rightarrow> tags \<Rightarrow> u64) \<Rightarrow> metric_storage \<Rightarrow> bool" where
  "keyed h st = (\<forall>key name ts. hm_get (ms_metadata st) key = Some (name, ts) \<longrightarrow> h name ts = key)"

definition series_of :: "metric_envelope list \<Rightarrow> (string \<times> tags) set" where
  "series_of ms = (\<lambda>e. (me_name e, me_tags e)) ` set ms"

definition known_series :: "metric_storage \<Rightarrow> (string \<times> tags) set" where
  "known_series st = ran (hm_get (ms_metadata st))"

lemma insert_envelope_metadata:
  "hm_get (ms_metadata (insert_envelope h e st)) key =
    (if key = key_of h e \<and> hm_get (ms_metadata st) key = None then Some (me_name e, me_tags e)
     else hm_get (ms_metadata st) key)"
  by (auto simp: insert_envelope_def Let_def key_of_def split: option.split)

lemma insert_envelope_keyed: "keyed h st \<Longrightarrow> keyed h (insert_envelope h e st)"
  by (auto simp: keyed_def insert_envelope_metadata key_of_def)

lemma insert_envelope_known: "known_series (insert_envelope h e st) \<subseteq> insert (me_name e, me_tags e) (known_series st)"
  by (auto simp: known_series_def ran_def insert_envelope_metadata split: if_splits)

lemma receive_metadata:
  assumes "keyed h st"
  shows "keyed h (fold (insert_envelope h) ms st) \<and>
    known_series (fold (insert_envelope h) ms st) \<subseteq> known_series st \<union> series_of ms \<and>
    (\<forall>e \<in> set ms. hm_get (ms_metadata (fold (insert_envelope h) ms st)) (key_of h e) \<noteq> None) \<and>
    (\<forall>key. hm_get (ms_metadata st) key \<noteq> None \<longrightarrow>
      hm_get (ms_metadata (fold (insert_envelope h) ms st)) key \<noteq> None)"
  using assms
proof (induction ms arbitrary: st)
  case (Cons e ms)
  note IH = Cons.IH [OF insert_envelope_keyed [OF Cons.prems, of e]]
  have "known_series (fold (insert_envelope h) (e # ms) st) \<subseteq> known_series st \<union> series_of (e # ms)"
    using IH insert_envelope_known [of h e st] by (auto simp: series_of_def)
  moreover have "\<forall>a \<in> set (e # ms). hm_get (ms_metadata (fold (insert_envelope h) (e # ms) st)) (key_of h a) \<noteq> None"
    using IH by (auto simp: insert_envelope_metadata)
  moreover have "\<forall>key. hm_get (ms_metadata st) key \<noteq> None \<longrightarrow>
      hm_get (ms_metadata (fold (insert_envelope h) (e # ms) st)) key \<noteq> None"
    using IH by (auto simp: insert_envelope_metadata)
  ultimately show ?case using IH by simp
qed (simp add: series_of_def)

lemma perform_gc_keyed: "keyed h st \<Longrightarrow> hm_wf (ms_metadata st) \<Longrightarrow> keyed h (perform_gc now st)"
  by (auto simp: keyed_def perform_gc_def Let_def dest!: map_of_SomeD)

text \<open>Without a collision, a series of the batch is on record under its own name and tags.\<close>

lemma receive_on_record:
  assumes "keyed h st" and "inj_on (\<lambda>(name, ts). h name ts) (known_series st \<union> series_of ms)" and "e \<in> set ms"
  shows "hm_get (ms_metadata (fold (insert_envelope h) ms st)) (key_of h e) = Some (me_name e, me_tags e)"
proof -
  let ?st = "fold (insert_envelope h) ms st"
  obtain name ts where m: "hm_get (ms_metadata ?st) (key_of h e) = Some (name, ts)"
    using receive_metadata [OF assms(1), of ms] assms(3) by fastforce
  then have "h name ts = key_of h e" using receive_metadata [OF assms(1), of ms] by (auto simp: keyed_def)
  moreover have "(name, ts) \<in> known_series st \<union> series_of ms"
    using m receive_metadata [OF assms(1), of ms] by (auto simp: known_series_def ran_def)
  moreover have "(me_name e, me_tags e) \<in> known_series st \<union> series_of ms" using assms(3) by (simp add: series_of_def)
  ultimately have "(name, ts) = (me_name e, me_tags e)"
    by (intro inj_onD [OF assms(2)]) (simp_all add: key_of_def)
  with m show ?thesis by simp
qed

end
