(* ===== verification/Wiring.thy ===== *)
theory Wiring
  imports SysMetrics Settings NodeBoot Routes
begin

text \<open>
  How the three programs are put together: the files snapshots are kept in (\<open>memory/snapshot.rs\<close>),
  the sockets of the bus (\<open>zmq/{publisher,subscriber}.rs\<close>), the start of a node from its settings
  (\<open>bin/node/{config,node}.rs\<close>), the start and the routes of the authentication service
  (\<open>bin/auth/{config,service}.rs\<close>) and the start of the API server (\<open>bin/api/main.rs\<close>,
  \<open>bin/api/postgres/pg.rs\<close>). The parsers of JSON, YAML and TOML, the connections to Xray, to the
  WireGuard interface and to PostgreSQL, and the number of processors are parameters.
\<close>

section \<open>Snapshot files\<close>

text \<open>A file is complete or was cut off while it was written; the archive format itself is not
  modelled. The operating system's \<open>rename\<close> replaces the target at once.\<close>

datatype disk_file = Whole snapshot | Partial

type_synonym files = "string \<Rightarrow> disk_file option"

definition fs_open_truncate :: "string \<Rightarrow> files \<Rightarrow> files" where
  "fs_open_truncate path fs = fs(path \<mapsto> Partial)"

definition fs_write_all :: "string \<Rightarrow> snapshot \<Rightarrow> files \<Rightarrow> files" where
  "fs_write_all path sn fs = fs(path \<mapsto> Whole sn)"

definition fs_rename :: "string \<Rightarrow> string \<Rightarrow> files \<Rightarrow> files" where
  "fs_rename src dst fs = (case fs src of None \<Rightarrow> fs | Some f \<Rightarrow> (fs(src := None))(dst \<mapsto> f))"

text \<open>The file operations of \<open>create_snapshot\<close>. An attempt ends after the first \<open>k\<close> of them: an
  operation fails, or the process dies.\<close>

definition snapshot_ops :: "string \<Rightarrow> snapshot \<Rightarrow> (files \<Rightarrow> files) list" where
  "snapshot_ops path sn = (let temp_path = path @ ''.tmp'' in
     [fs_open_truncate temp_path, fs_write_all temp_path sn, fs_rename temp_path path])"

definition create_snapshot_file :: "nat \<Rightarrow> string \<Rightarrow> datetime \<Rightarrow> base connections \<Rightarrow> files \<Rightarrow> files" where
  "create_snapshot_file k path now mem fs = fold (\<lambda>f. f) (take k (snapshot_ops path (create_snapshot now mem))) fs"

text \<open>\<open>load_snapshot\<close>: no file is \<open>Ok(None)\<close>. The bytes are read without a check, so that a cut-off file
  is undefined behaviour; it is \<open>Panic\<close> here. A file that cannot be read is an error.\<close>

definition load_snapshot_file :: "bool \<Rightarrow> string \<Rightarrow> files \<Rightarrow> (error, snapshot option) outcome" where
  "load_snapshot_file read_fails path fs = (case fs path of
      None \<Rightarrow> Ret None
    | Some f \<Rightarrow> if read_fails then Err Io else (case f of Whole sn \<Rightarrow> Ret (Some sn) | Partial \<Rightarrow> Panic))"

definition get_snapshot_timestamp :: "bool \<Rightarrow> string \<Rightarrow> files \<Rightarrow> (error, u64 option) outcome" where
  "get_snapshot_timestamp read_fails path fs = (case fs path of
      None \<Rightarrow> Ret None
    | Some f \<Rightarrow> if read_fails then Err Io else (case f of Whole sn \<Rightarrow> Ret (Some (sn_timestamp sn)) | Partial \<Rightarrow> Panic))"

text \<open>What a node and the authentication service start from: an error means a fresh start.\<close>

definition starting_snapshot :: "bool \<Rightarrow> string \<Rightarrow> files \<Rightarrow> (error, snapshot option) outcome" where
  "starting_snapshot read_fails path fs = (case fs path of
      None \<Rightarrow> Ret None
    | Some _ \<Rightarrow> (case load_snapshot_file read_fails path fs of
        Ret r \<Rightarrow> Ret r | Err _ \<Rightarrow> Ret None | Panic \<Rightarrow> Panic))"

definition snapshot_len :: "base connections \<Rightarrow> nat" where
  "snapshot_len mem = length mem"

section \<open>Sockets\<close>

text \<open>\<open>Publisher::init\<close>: six attempts, then the program panics; \<open>fails i\<close> says that attempt \<open>i\<close> fails.
  The result is the attempt that succeeded.\<close>

function publisher_init :: "(nat \<Rightarrow> bool) \<Rightarrow> nat \<Rightarrow> (error, nat) outcome" where
  "publisher_init fails i = (if \<not> fails i then Ret i else if 5 \<le> i then Panic
     else publisher_init fails (i + 1))"
  by pat_completeness auto
termination
  by (relation "measure (\<lambda>(_, i). 6 - i)") auto

declare publisher_init.simps [simp del]

text \<open>A SUB socket passes on the messages whose first frame starts with one of its subscriptions.
  \<open>recv\<close> reads two frames and gives nothing where one of them cannot be read.\<close>

definition socket_passes :: "(uuid \<Rightarrow> string) \<Rightarrow> topic list \<Rightarrow> topic \<Rightarrow> bool" where
  "socket_passes us topics t = (\<exists>p \<in> set topics. starts_with (topic_to_string us t) (topic_to_string us p))"

definition recv :: "string option \<Rightarrow> 'p option \<Rightarrow> (string \<times> 'p) option" where
  "recv topic payload = (case topic of None \<Rightarrow> None | Some t \<Rightarrow> map_option (Pair t) payload)"

definition node_topics :: "node_config_raw \<Rightarrow> topic list" where
  "node_topics cfg = [Init (nw_uuid cfg), Updates (nw_env cfg)]"

definition auth_topics :: "node_config_raw \<Rightarrow> topic list" where
  "auth_topics cfg = [Init (nw_uuid cfg), AuthTopic]"

section \<open>The start of a node\<close>

record node_settings =
  se_xray_enabled :: bool
  se_xray_path :: string
  se_wg_enabled :: bool
  se_wg_path :: string
  se_h2_enabled :: bool
  se_h2_path :: string
  se_mtproto_enabled :: bool
  se_mtproto_path :: string
  se_node :: node_config_raw
  se_snapshot_path :: string

record boot_ext =
  be_file :: "string \<Rightarrow> string option"
  be_json :: "string \<Rightarrow> (inbound list \<times> string) option"
  be_yaml :: "string \<Rightarrow> hysteria2_settings option"
  be_toml :: "string \<Rightarrow> mtproto_settings option"
  be_v6_parse :: "string \<Rightarrow> u128 option"
  be_xray_connect :: "nat \<Rightarrow> string \<Rightarrow> error option"
  be_wg_new :: "string \<Rightarrow> bool"
  be_wg_data :: "string \<Rightarrow> bool"
  be_cpus :: "nat option"
  be_hostname :: "string option"
  be_now :: datetime

text \<open>\<open>XraySettings::from_file\<close> gives the inbounds and the address of the API. The two clients connect
  one after the other.\<close>

definition xray_from_file :: "boot_ext \<Rightarrow> string \<Rightarrow> error + inbound list \<times> string" where
  "xray_from_file b path = (case be_file b path of
      None \<Rightarrow> Inl Io
    | Some text \<Rightarrow> (case be_json b text of None \<Rightarrow> Inl JsonError | Some s \<Rightarrow> Inr s))"

definition init_xray :: "boot_ext \<Rightarrow> node_settings \<Rightarrow> (error, inbound list option) outcome" where
  "init_xray b se = (if \<not> se_xray_enabled se then Ret None
     else (case xray_from_file b (se_xray_path se) of
        Inl _ \<Rightarrow> Panic
      | Inr (inbounds, listen) \<Rightarrow>
         (let endpoint = ''http://'' @ listen in
          case be_xray_connect b 0 endpoint of
            Some e \<Rightarrow> Err e
          | None \<Rightarrow> (case be_xray_connect b 1 endpoint of
              Some e \<Rightarrow> Err e
            | None \<Rightarrow> Ret (Some inbounds)))))"

definition init_wireguard :: "boot_ext \<Rightarrow> node_settings \<Rightarrow> (error, wireguard_settings option) outcome" where
  "init_wireguard b se = (if \<not> se_wg_enabled se then Ret None
     else (case wg_from_file (se_wg_path se) (be_file b (se_wg_path se)) of
        Inl e \<Rightarrow> Err e
      | Inr raw \<Rightarrow> (case wg_settings_of (be_v6_parse b) raw of
          Inl e \<Rightarrow> Err e
        | Inr wg \<Rightarrow> if \<not> be_wg_new b (ws_interface wg) then Panic
            else if \<not> be_wg_data b (ws_interface wg) then Panic else Ret (Some wg))))"

definition init_hysteria2 :: "boot_ext \<Rightarrow> node_settings \<Rightarrow> (error, h2_settings option) outcome" where
  "init_hysteria2 b se = (if \<not> se_h2_enabled se then Ret None
     else (case Option.bind (be_file b (se_h2_path se)) (be_yaml b) of
        None \<Rightarrow> Panic
      | Some cfg \<Rightarrow> (case h2_validate cfg of
          Inl _ \<Rightarrow> Panic
        | Inr _ \<Rightarrow> (case h2_settings_of cfg of Inl _ \<Rightarrow> Panic | Inr s \<Rightarrow> Ret (Some s)))))"

definition init_mtproto :: "boot_ext \<Rightarrow> node_settings \<Rightarrow> (error, mtproto_settings option) outcome" where
  "init_mtproto b se = (if \<not> se_mtproto_enabled se then Ret None
     else (case Option.bind (be_file b (se_mtproto_path se)) (be_toml b) of
        None \<Rightarrow> Panic
      | Some m \<Rightarrow> Ret (Some m)))"

definition bind_outcome :: "('e, 'a) outcome \<Rightarrow> ('a \<Rightarrow> ('e, 'b) outcome) \<Rightarrow> ('e, 'b) outcome" where
  "bind_outcome r f = (case r of Ret a \<Rightarrow> f a | Err e \<Rightarrow> Err e | Panic \<Rightarrow> Panic)"

definition init_node :: "boot_ext \<Rightarrow> node_settings \<Rightarrow> (error, node) outcome" where
  "init_node b se =
    bind_outcome (init_xray b se) (\<lambda>xray.
    bind_outcome (init_wireguard b se) (\<lambda>wg.
    bind_outcome (init_hysteria2 b se) (\<lambda>h2.
    bind_outcome (init_mtproto b se) (\<lambda>mtproto.
      case node_config_from_raw (be_cpus b) (be_hostname b) (se_node se) of
        Inl e \<Rightarrow> Err e
      | Inr cfg \<Rightarrow> (case node_new (be_now b) cfg xray wg h2 mtproto of None \<Rightarrow> Panic | Some n \<Rightarrow> Ret n)))))"

text \<open>\<open>run\<close> up to the point where the node serves: the sockets, the snapshot, the registration.\<close>

definition node_run :: "ext \<Rightarrow> (nat \<Rightarrow> bool) \<Rightarrow> bool \<Rightarrow> (string \<Rightarrow> uuid option) \<Rightarrow> agent_ext \<Rightarrow> boot_ext \<Rightarrow>
    (nat \<Rightarrow> bool) \<Rightarrow> bool \<Rightarrow> node_settings \<Rightarrow> files \<Rightarrow> world \<times> node_state \<Rightarrow>
    (error, (world \<times> (error + node_state)) option) outcome" where
  "node_run x hf sf up ax b pub_fails read_fails se fs ws =
    bind_outcome (init_node b se) (\<lambda>n.
    bind_outcome (publisher_init pub_fails 0) (\<lambda>_.
    bind_outcome (starting_snapshot read_fails (se_snapshot_path se) fs) (\<lambda>sn.
      Ret (node_start x hf sf up ax n sn ws))))"

section \<open>The authentication service\<close>

text \<open>Its node has no inbounds.\<close>

definition auth_run :: "ext \<Rightarrow> (nat \<Rightarrow> bool) \<Rightarrow> (string \<Rightarrow> uuid option) \<Rightarrow> (int \<Rightarrow> nat \<Rightarrow> datetime option) \<Rightarrow>
    (nat \<Rightarrow> datetime) \<Rightarrow> boot_ext \<Rightarrow> (nat \<Rightarrow> bool) \<Rightarrow> bool \<Rightarrow> node_config_raw \<Rightarrow> string \<Rightarrow> files \<Rightarrow> world \<Rightarrow>
    (error, (world \<times> base connections) option) outcome" where
  "auth_run x hf up ft clock b pub_fails read_fails cfg path fs w =
    (case node_config_from_raw (be_cpus b) (be_hostname b) cfg of
       Inl e \<Rightarrow> Err e
     | Inr nc \<Rightarrow> (case node_new (be_now b) nc None None None None of
         None \<Rightarrow> Panic
       | Some n \<Rightarrow>
          bind_outcome (publisher_init pub_fails 0) (\<lambda>_.
          bind_outcome (starting_snapshot read_fails path fs) (\<lambda>sn.
            Ret (auth_start x hf up ft clock n sn w)))))"

text \<open>Its routes; \<open>parse\<close> reads the JSON body, of which only the token is used.\<close>

datatype auth_answer = HealthOk | AuthReply bool "string option" | AuthRejected

definition auth_serve :: "(uuid \<Rightarrow> string) \<Rightarrow> (string \<Rightarrow> uuid option) \<Rightarrow> http_request \<Rightarrow> base connections \<Rightarrow> auth_answer" where
  "auth_serve us parse q mem =
    (if hr_path q \<noteq> [] \<and> hd (hr_path q) = ''health-check'' then HealthOk
     else if hr_method q = MPost \<and> hr_path q \<noteq> [] \<and> hd (hr_path q) = ''auth'' then
       (case parse (hr_body q) of
          None \<Rightarrow> AuthRejected
        | Some token \<Rightarrow> (case auth_handler token mem of (ok, i) \<Rightarrow> AuthReply ok (map_option us i)))
     else AuthRejected)"

section \<open>The start of the API server\<close>

text \<open>The client of PostgreSQL is made when it is first needed and again when a ping fails; whether
  a connection and a ping fail depends on the number of such events so far.\<close>

record pg_manager =
  pm_client :: bool
  pm_events :: nat

definition pg_connect :: "(nat \<Rightarrow> bool) \<Rightarrow> pg_manager \<Rightarrow> (error + unit) \<times> pg_manager" where
  "pg_connect fails m = (let m' = m\<lparr>pm_events := Suc (pm_events m)\<rparr> in
     if fails (pm_events m) then (Inl Database, m') else (Inr (), m'\<lparr>pm_client := True\<rparr>))"

definition get_client :: "(nat \<Rightarrow> bool) \<Rightarrow> (nat \<Rightarrow> bool) \<Rightarrow> pg_manager \<Rightarrow> (error + unit) \<times> pg_manager" where
  "get_client fails ping_fails m =
    (case (if pm_client m then (Inr (), m) else pg_connect fails m) of
       (Inl e, m) \<Rightarrow> (Inl e, m)
     | (Inr _, m) \<Rightarrow> if ping_fails (pm_events m) then pg_connect fails (m\<lparr>pm_events := Suc (pm_events m)\<rparr>)
         else (Inr (), m\<lparr>pm_events := Suc (pm_events m)\<rparr>))"

text \<open>\<open>main\<close> up to the point where the tasks and the server run: the publisher, the record of trials
  and the tables. Memory and bus are empty before.\<close>

definition api_boot :: "ext \<Rightarrow> mail_ext \<Rightarrow> (nat \<Rightarrow> bool) \<Rightarrow> world \<times> string option \<Rightarrow>
    (error, world \<times> email_store) outcome" where
  "api_boot x m pub_fails disk = (case disk of (w, trials) \<Rightarrow>
     bind_outcome (publisher_init pub_fails 0) (\<lambda>_.
       (let st = load_trials m \<lparr>es_store = [], es_file = trials\<rparr> in
        case get_state_from_db x (w\<lparr>w_mem := cache_new, w_pub := []\<rparr>) of
          (Inl e, _) \<Rightarrow> Err e
        | (Inr _, w) \<Rightarrow> Ret (w, st))))"

section \<open>Laws\<close>

lemma bind_outcome_Ret: "bind_outcome r f = Ret b \<longleftrightarrow> (\<exists>a. r = Ret a \<and> f a = Ret b)"
  by (cases r) (simp_all add: bind_outcome_def)

lemma create_snapshot_file_at:
  "create_snapshot_file k path now mem fs path = (if 3 \<le> k then Some (Whole (create_snapshot now mem)) else fs path)"
proof -
  consider "k = 0" | "k = 1" | "k = 2" | "3 \<le> k" by linarith
  then show ?thesis
  proof cases
    case 4
    then have "take k (snapshot_ops path (create_snapshot now mem)) = snapshot_ops path (create_snapshot now mem)"
      by (simp add: snapshot_ops_def Let_def)
    with 4 show ?thesis
      by (simp add: create_snapshot_file_def snapshot_ops_def Let_def fs_open_truncate_def fs_write_all_def fs_rename_def)
  qed (simp_all add: create_snapshot_file_def snapshot_ops_def Let_def fs_open_truncate_def fs_write_all_def
      numeral_2_eq_2)
qed

lemma publisher_init_Ret:
  assumes "i \<le> j" and "j \<le> 5" and "\<not> fails j"
  shows "\<exists>k. publisher_init fails i = Ret k \<and> k \<le> j \<and> \<not> fails k"
  using assms
proof (induction "j - i" arbitrary: i)
  case 0
  then show ?case by (simp add: publisher_init.simps [of fails i])
next
  case (Suc d)
  show ?case
  proof (cases "fails i")
    case True
    have d: "d = j - (i + 1)" "i + 1 \<le> j" using Suc.hyps(2) by auto
    then have "\<not> 5 \<le> i" using Suc.prems(2) by simp
    with Suc.hyps(1) [OF d Suc.prems(2,3)] True show ?thesis
      by (auto simp: publisher_init.simps [of fails i])
  qed (use Suc.prems in \<open>auto simp: publisher_init.simps [of fails i]\<close>)
qed

lemma publisher_init_Panic:
  assumes "\<forall>j. i \<le> j \<and> j \<le> 5 \<longrightarrow> fails j" and "i \<le> 5"
  shows "publisher_init fails i = Panic"
  using assms
proof (induction "5 - i" arbitrary: i)
  case 0
  then have "fails i" "5 \<le> i" by auto
  then show ?case by (simp add: publisher_init.simps [of fails i])
next
  case (Suc d)
  have "d = 5 - (i + 1)" "i + 1 \<le> 5" "\<forall>j. i + 1 \<le> j \<and> j \<le> 5 \<longrightarrow> fails j" using Suc by auto
  from Suc.hyps(1) [OF this(1,3,2)] Suc.prems Suc.hyps(2) show ?case
    by (auto simp: publisher_init.simps [of fails i])
qed

lemma starts_with_refl: "starts_with s s"
  by (simp add: starts_with_def)

lemma socket_passes_own: "p \<in> set topics \<Longrightarrow> socket_passes us topics p"
  using starts_with_refl by (auto simp: socket_passes_def)

lemma accepted_passes:
  "node_accepts (nw_uuid cfg) (nw_env cfg) t \<Longrightarrow> socket_passes us (node_topics cfg) t"
  "auth_accepts (nw_uuid cfg) t \<Longrightarrow> socket_passes us (auth_topics cfg) t"
  by (cases t; simp add: socket_passes_own node_topics_def auth_topics_def)+

lemma get_client_ok:
  assumes "get_client fails ping_fails m = (Inr u, m')"
  shows "pm_client m' \<and> (\<not> ping_fails (pm_events m' - 1) \<or> \<not> fails (pm_events m' - 1))"
  using assms by (auto simp: get_client_def pg_connect_def Let_def split: if_splits prod.splits sum.splits)

section \<open>A node has what its settings ask for\<close>

definition tags_ok :: "(proto_tag \<Rightarrow> inbound option) \<Rightarrow> bool" where
  "tags_ok ins = (\<forall>t ib. ins t = Some ib \<longrightarrow> i_tag ib = t)"

lemma tags_ok_update: "tags_ok ins \<Longrightarrow> i_tag ib = t \<Longrightarrow> tags_ok (ins(t \<mapsto> ib))"
  by (auto simp: tags_ok_def)

lemma tags_ok_fold: "tags_ok ins \<Longrightarrow> tags_ok (fold (\<lambda>i m. m(i_tag i \<mapsto> i)) is ins)"
  by (induction "is" arbitrary: ins) (simp_all add: tags_ok_update)

lemma dom_fold_inbounds: "dom (fold (\<lambda>i m. m(i_tag i \<mapsto> i)) is ins) = dom ins \<union> i_tag ` set is"
  by (induction "is" arbitrary: ins) auto

lemma node_new_inbounds:
  assumes "node_new now cfg xray wg h2 mt = Some n"
  shows "tags_ok (n_inbounds n)"
    and "\<forall>w. wg = Some w \<longrightarrow> n_inbounds n Wireguard = Some ((plain_inbound (ws_port w) Wireguard)\<lparr>i_wg := Some w\<rparr>)"
    and "\<forall>h. h2 = Some h \<longrightarrow> n_inbounds n Hysteria2 = Some ((plain_inbound (h2_port h) Hysteria2)\<lparr>i_h2 := Some h\<rparr>)"
    and "\<forall>m. mt = Some m \<longrightarrow> (\<exists>k l ks. mt_secret m = (k, l) # ks \<and>
      n_inbounds n Mtproto = Some ((plain_inbound (mt_port m) Mtproto)\<lparr>i_mtproto_secret := Some k\<rparr>))"
    and "dom (n_inbounds n) = i_tag ` set (case xray of Some is \<Rightarrow> is | None \<Rightarrow> []) \<union>
      (if wg = None then {} else {Wireguard}) \<union> (if h2 = None then {} else {Hysteria2}) \<union>
      (if mt = None then {} else {Mtproto})"
    and "n_uuid n = nc_uuid cfg \<and> n_env n = nc_env cfg \<and> n_hostname n = nc_hostname cfg \<and> n_status n = Online"
proof -
  have e: "tags_ok Map.empty" by (simp add: tags_ok_def)
  show "tags_ok (n_inbounds n)" using assms
    by (auto simp: node_new_def Let_def plain_inbound_def e intro!: tags_ok_update tags_ok_fold
        split: option.splits list.splits)
  show "dom (n_inbounds n) = i_tag ` set (case xray of Some is \<Rightarrow> is | None \<Rightarrow> []) \<union>
      (if wg = None then {} else {Wireguard}) \<union> (if h2 = None then {} else {Hysteria2}) \<union>
      (if mt = None then {} else {Mtproto})"
    using assms
    by (cases xray; cases wg; cases h2; cases mt)
      (clarsimp simp: node_new_def Let_def dom_fold_inbounds insert_commute split: list.splits)+
qed (use assms in \<open>auto simp: node_new_def Let_def split: option.splits list.splits\<close>)

lemma init_node_RetE:
  assumes "init_node b se = Ret n"
  obtains xray wg h2 mt cfg where "init_xray b se = Ret xray" "init_wireguard b se = Ret wg"
    "init_hysteria2 b se = Ret h2" "init_mtproto b se = Ret mt"
    "node_config_from_raw (be_cpus b) (be_hostname b) (se_node se) = Inr cfg"
    "node_new (be_now b) cfg xray wg h2 mt = Some n"
proof -
  from assms obtain xray wg h2 mt where i: "init_xray b se = Ret xray" "init_wireguard b se = Ret wg"
      "init_hysteria2 b se = Ret h2" "init_mtproto b se = Ret mt"
      and r: "(case node_config_from_raw (be_cpus b) (be_hostname b) (se_node se) of Inl e \<Rightarrow> Err e
        | Inr cfg \<Rightarrow> (case node_new (be_now b) cfg xray wg h2 mt of None \<Rightarrow> Panic | Some n \<Rightarrow> Ret n)) = Ret n"
    unfolding init_node_def bind_outcome_Ret by blast
  from r show thesis by (auto split: sum.splits option.splits intro: that [OF i])
qed

lemma init_services_on:
  "init_wireguard b se = Ret wg \<Longrightarrow> wg = None \<longleftrightarrow> \<not> se_wg_enabled se"
  "init_hysteria2 b se = Ret h2 \<Longrightarrow> h2 = None \<longleftrightarrow> \<not> se_h2_enabled se"
  "init_mtproto b se = Ret mt \<Longrightarrow> mt = None \<longleftrightarrow> \<not> se_mtproto_enabled se"
proof -
  show "init_mtproto b se = Ret mt \<Longrightarrow> mt = None \<longleftrightarrow> \<not> se_mtproto_enabled se"
    by (cases mt) (auto simp: init_mtproto_def split: if_splits option.splits)
qed (auto simp: init_wireguard_def init_hysteria2_def split: if_splits sum.splits option.splits)

section \<open>The record of trials in a run\<close>

text \<open>What a restart would read is at least what is in memory. A referral code may hold any
  characters, a line feed included: the entry of its own line is read all the same.\<close>

definition trial_file :: "email_store \<Rightarrow> string" where
  "trial_file st = (case es_file st of Some f \<Rightarrow> f | None \<Rightarrow> [])"

definition trials_kept :: "mail_ext \<Rightarrow> email_store \<Rightarrow> bool" where
  "trials_kept m st = (file_wf (trial_file st) \<and> (\<forall>h. hm_get (es_store st) h \<noteq> None \<longrightarrow>
     hm_get (fold (load_line m) (file_lines (trial_file st)) []) h \<noteq> None))"

lemma load_line_keeps: "hm_get mp h \<noteq> None \<Longrightarrow> hm_get (load_line m l mp) h \<noteq> None"
  by (simp add: load_line_def Let_def split: option.split)

lemma load_lines_keep: "hm_get mp h \<noteq> None \<Longrightarrow> hm_get (fold (load_line m) ls mp) h \<noteq> None"
  by (induction ls arbitrary: mp) (simp_all add: load_line_keeps del: not_None_eq)

lemma file_lines_snoc: "file_lines (g @ [CHR 0x0A]) = map strip_cr (split_on (CHR 0x0A) g)"
  by (simp add: file_lines_def split_on_butlast)

lemma file_lines_concat:
  assumes "file_wf f"
  shows "file_lines (f @ g @ [CHR 0x0A]) = file_lines f @ file_lines (g @ [CHR 0x0A])"
proof (cases "f = []")
  case False
  with assms obtain f' where f: "f = f' @ [CHR 0x0A]" by (metis append_butlast_last_id file_wf_def)
  have "file_lines (f @ g @ [CHR 0x0A]) = file_lines ((f' @ CHR 0x0A # g) @ [CHR 0x0A])" by (simp add: f)
  then show ?thesis by (simp only: file_lines_snoc f split_on_snoc map_append)
qed (simp add: file_lines_def)

lemma split_on_head:
  assumes "c \<notin> set a"
  shows "\<exists>y ys. split_on c (a @ b) = (a @ y) # ys"
  using assms
proof (induction a)
  case Nil
  show ?case by (cases b) (auto split: list.split)
next
  case (Cons z a)
  then obtain y ys where "split_on c (a @ b) = (a @ y) # ys" by auto
  with Cons.prems show ?case by auto
qed

lemma trial_line_loaded:
  assumes "mail_laws m"
  shows "hm_get (fold (load_line m) (file_lines (trial_line m us t (hmac_email m e) s r)) mp) (hmac_email m e) \<noteq> None"
proof -
  let ?a = "to_rfc3339 m t @ '','' @ hmac_email m e @ '',''" and ?b = "us s @ '','' @ r"
  have "CHR 0x0A \<notin> set ?a" using assms by (auto simp: mail_laws_def plain_def hmac_email_def)
  then obtain y ys where y: "split_on (CHR 0x0A) (?a @ ?b) = (?a @ y) # ys" using split_on_head by blast
  have "trial_line m us t (hmac_email m e) s r = (?a @ ?b) @ [CHR 0x0A]" by (simp add: trial_line_def)
  then have l: "file_lines (trial_line m us t (hmac_email m e) s r) = strip_cr (?a @ y) # map strip_cr ys"
    by (simp only: file_lines_snoc y list.map)
  have "load_line m (strip_cr (?a @ y)) mp = hm_insert (hmac_email m e) t mp"
    using load_line_trial [OF assms, of t e y mp] by simp
  then show ?thesis unfolding l by (simp add: load_lines_keep del: not_None_eq)
qed

lemma save_trial_kept:
  assumes "mail_laws m" and "trials_kept m st"
  shows "trials_kept m (save_trial_hmac m us False e s t r st)"
proof -
  let ?st = "save_trial_hmac m us False e s t r st"
  let ?l = "trial_line m us t (hmac_email m e) s r"
  have f: "trial_file ?st = trial_file st @ ?l"
    by (simp add: trial_file_def save_trial_hmac_def Let_def)
  obtain g where g: "?l = g @ [CHR 0x0A]" by (simp add: trial_line_def)
  have wf: "file_wf (trial_file st)" using assms(2) by (simp add: trials_kept_def)
  have lines: "file_lines (trial_file ?st) = file_lines (trial_file st) @ file_lines ?l"
    unfolding f g by (rule file_lines_concat [OF wf])
  have "hm_get (fold (load_line m) (file_lines (trial_file ?st)) []) h \<noteq> None"
    if "hm_get (es_store ?st) h \<noteq> None" for h
  proof (cases "h = hmac_email m e")
    case True
    then show ?thesis unfolding lines using trial_line_loaded [OF assms(1)] by (simp del: not_None_eq)
  next
    case False
    with that have "hm_get (es_store st) h \<noteq> None" by (simp add: save_trial_hmac_def Let_def)
    with assms(2) have "hm_get (fold (load_line m) (file_lines (trial_file st)) []) h \<noteq> None"
      by (simp add: trials_kept_def del: not_None_eq)
    then show ?thesis unfolding lines by (simp add: load_lines_keep del: not_None_eq)
  qed
  moreover have "file_wf (trial_file ?st)" unfolding f g by (simp add: file_wf_def)
  ultimately show ?thesis by (simp add: trials_kept_def del: not_None_eq)
qed

lemma save_trial_step:
  assumes "mail_laws m" and "\<forall>k. \<not> io_fails m k" and "trials_kept m (snd ws)"
  shows "trials_kept m (snd (save_trial x m who i t r ws))"
  using assms save_trial_kept by (simp add: save_trial_def split: option.split)

lemma post_trial_store:
  "snd (snd (post_trial_handler x m cfg req (w, st))) = st \<or>
   (\<exists>v i t r. snd (post_trial_handler x m cfg req (w, st)) =
      save_trial x m (tr_email req) i t r (save_trial x m (tr_user req) i t r (v, st)))"
  by (auto simp: post_trial_handler_def Let_def split: if_splits option.splits prod.splits outcome.splits
      status.splits)

lemma srv_step_trials:
  assumes "srv_step x k m ws ws'" and "mail_laws m" and "\<forall>k. \<not> io_fails m k" and "trials_kept m (snd ws)"
  shows "trials_kept m (snd ws')"
  using assms(1)
proof cases
  case (srv_trial w st cfg tq)
  with post_trial_store [of x m cfg tq w st] assms(2-) show ?thesis
    by (auto intro!: save_trial_step)
qed (use assms(4) in simp_all)

interpretation trials: preserved "srv_step x k m"
    "\<lambda>ws. mail_laws m \<and> (\<forall>k. \<not> io_fails m k) \<longrightarrow> trials_kept m (snd ws)" for x k m
  by unfold_locales (auto intro: srv_step_trials)

lemma boot_trials:
  assumes "api_boot x m pf (w, trials) = Ret (w', st)"
  shows "st = load_trials m \<lparr>es_store = [], es_file = trials\<rparr>"
  using assms by (auto simp: api_boot_def bind_outcome_Ret Let_def split: prod.splits sum.splits)

lemma boot_trials_kept:
  assumes "file_wf (case trials of Some f \<Rightarrow> f | None \<Rightarrow> [])"
  shows "trials_kept m (load_trials m \<lparr>es_store = [], es_file = trials\<rparr>)"
  using assms by (cases trials) (simp_all add: trials_kept_def load_trials_def trial_file_def)

end
