(* ===== verification/Mail.thy ===== *)
theory Mail
  imports Handlers Links "HOL-Library.Sublist"
begin

text \<open>
  The mail that follows a trial (\<open>EmailStore::send_email_background\<close>, \<open>bin/api/email.rs\<close>): its text, the
  message around it and the attempts to send it. Reading an address, building a message and the SMTP
  transport (crate lettre) are parameters. The mail is sent by a task of its own after the trial
  has been recorded (\<open>bin/api/http/handlers/trial.rs\<close>); nothing of it comes back to the request.
\<close>

record smtp_config =
  sm_server :: string
  sm_username :: string
  sm_password :: string
  sm_port :: u16
  sm_from :: string
  sm_title :: string
  sm_company_name :: string
  sm_support :: string
  sm_email_file :: string
  sm_email_sign_token :: "u8 list"
  sm_company_website :: string

record email_message =
  ml_from :: string
  ml_to :: string
  ml_subject :: string
  ml_body :: string

record smtp_ext =
  sx_mailbox :: "string \<Rightarrow> bool"
  sx_builds :: "email_message \<Rightarrow> bool"
  sx_send_fails :: "nat \<Rightarrow> bool"

text \<open>The lines of the template; the letters that are not ASCII are given by their bytes.\<close>

definition html_lines :: \<open>string \<Rightarrow> string \<Rightarrow> string \<Rightarrow> string \<Rightarrow> string \<Rightarrow> string list\<close> where
  \<open>html_lines web_host sub_id title company_name support =
    [[],
     ''            <!DOCTYPE html>'',
     ''            <html>'',
     ''            <head>'',
     ''              <meta charset="UTF-8">'',
     ''              <title>'' @ title @ ''</title>'',
     ''            </head>'',
     ''            <body style="margin:0;padding:0;background:#0b0d12;font-family:Arial,sans-serif;">'',
     [],
     ''              <table width="100%" cellpadding="0" cellspacing="0" style="background:#0b0d12;padding:40px 0;">'',
     ''                <tr>'',
     ''                  <td align="center">'',
     [],
     ''                    <table width="600" cellpadding="0" cellspacing="0" style="background:#121621;border-radius:16px;padding:32px;color:#e6e8ef;">'',
     [],
     ''                      <tr>'',
     ''                        <td style="text-align:center;">'',
     ''                          <h1 style="margin:0;color:#5b7cfa;">'' @ title @ ''</h1>'',
     ''                          <p style="color:#9aa1b2;margin-top:8px;">'',
     ''                            '' @ [CHR 0xD0, CHR 0xA2, CHR 0xD0, CHR 0xB2, CHR 0xD0, CHR 0xBE, CHR 0xD1,
       CHR 0x8F] @ '' '' @ [CHR 0xD0, CHR 0xBF, CHR 0xD0, CHR 0xBE, CHR 0xD0, CHR 0xB4, CHR 0xD0, CHR 0xBF,
       CHR 0xD0, CHR 0xB8, CHR 0xD1, CHR 0x81, CHR 0xD0, CHR 0xBA, CHR 0xD0, CHR 0xB0] @ '' '' @ [CHR 0xD0,
       CHR 0xB4, CHR 0xD0, CHR 0xBB, CHR 0xD1, CHR 0x8F] @ '' '' @ [CHR 0xD1, CHR 0x82, CHR 0xD0, CHR 0xB5,
       CHR 0xD1, CHR 0x81, CHR 0xD1, CHR 0x82] @ ''-'' @ [CHR 0xD0, CHR 0xB4, CHR 0xD1, CHR 0x80, CHR 0xD0,
       CHR 0xB0, CHR 0xD0, CHR 0xB9, CHR 0xD0, CHR 0xB2, CHR 0xD0, CHR 0xB0] @ '' '' @ [CHR 0xD1, CHR 0x83,
       CHR 0xD1, CHR 0x81, CHR 0xD0, CHR 0xBF, CHR 0xD0, CHR 0xB5, CHR 0xD1, CHR 0x88, CHR 0xD0, CHR 0xBD,
       CHR 0xD0, CHR 0xBE] @ '' '' @ [CHR 0xD1, CHR 0x81, CHR 0xD0, CHR 0xBE, CHR 0xD0, CHR 0xB7, CHR 0xD0,
       CHR 0xB4, CHR 0xD0, CHR 0xB0, CHR 0xD0, CHR 0xBD, CHR 0xD0, CHR 0xB0],
     ''                          </p>'',
     ''                        </td>'',
     ''                      </tr>'',
     [],
     ''                      <tr>'',
     ''                        <td style="padding:20px 0;text-align:center;">'',
     ''                          <div style="font-size:12px;color:#9aa1b2;">Subscription ID</div>'',
     ''                          <div style="font-family:monospace;font-size:14px;word-break:break-all;">'',
     ''                            '' @ sub_id,
     ''                          </div>'',
     ''                        </td>'',
     ''                      </tr>'',
     [],
     ''                      <tr>'',
     ''                        <td align="center" style="padding:20px 0;">'',
     [],
     ''                          <a href="'' @ web_host @ ''/subscription?id='' @ sub_id @ ''"'',
     ''                             style="'',
     ''                              display:inline-block;'',
     ''                              padding:14px 24px;'',
     ''                              background:linear-gradient(90deg,#5b7cfa,#22d3ee);'',
     ''                              color:#fff;'',
     ''                              text-decoration:none;'',
     ''                              border-radius:12px;'',
     ''                              font-weight:bold;'',
     ''                             ">'',
     ''                            '' @ [CHR 0xD0, CHR 0x9E, CHR 0xD1, CHR 0x82, CHR 0xD0, CHR 0xBA, CHR 0xD1,
       CHR 0x80, CHR 0xD1, CHR 0x8B, CHR 0xD1, CHR 0x82, CHR 0xD1, CHR 0x8C] @ '' '' @ [CHR 0xD0, CHR 0xBF,
       CHR 0xD0, CHR 0xBE, CHR 0xD0, CHR 0xB4, CHR 0xD0, CHR 0xBF, CHR 0xD0, CHR 0xB8, CHR 0xD1, CHR 0x81,
       CHR 0xD0, CHR 0xBA, CHR 0xD1, CHR 0x83],
     ''                          </a>'',
     [],
     ''                        </td>'',
     ''                      </tr>'',
     [],
     ''                      <tr>'',
     ''                        <td style="text-align:center;color:#9aa1b2;font-size:12px;padding-top:16px;">'',
     ''                          '' @ [CHR 0xD0, CHR 0x95, CHR 0xD1, CHR 0x81, CHR 0xD0, CHR 0xBB, CHR 0xD0,
       CHR 0xB8] @ '' '' @ [CHR 0xD0, CHR 0xBA, CHR 0xD0, CHR 0xBD, CHR 0xD0, CHR 0xBE, CHR 0xD0, CHR 0xBF,
       CHR 0xD0, CHR 0xBA, CHR 0xD0, CHR 0xB0] @ '' '' @ [CHR 0xD0, CHR 0xBD, CHR 0xD0, CHR 0xB5] @ '' '' @
       [CHR 0xD1, CHR 0x80, CHR 0xD0, CHR 0xB0, CHR 0xD0, CHR 0xB1, CHR 0xD0, CHR 0xBE, CHR 0xD1, CHR 0x82,
       CHR 0xD0, CHR 0xB0, CHR 0xD0, CHR 0xB5, CHR 0xD1, CHR 0x82] @ '' '' @ [CHR 0xE2, CHR 0x80, CHR 0x94] @
       '' '' @ [CHR 0xD1, CHR 0x81, CHR 0xD0, CHR 0xBA, CHR 0xD0, CHR 0xBE, CHR 0xD0, CHR 0xBF, CHR 0xD0,
       CHR 0xB8, CHR 0xD1, CHR 0x80, CHR 0xD1, CHR 0x83, CHR 0xD0, CHR 0xB9] @ '' '' @ [CHR 0xD1, CHR 0x81,
       CHR 0xD1, CHR 0x81, CHR 0xD1, CHR 0x8B, CHR 0xD0, CHR 0xBB, CHR 0xD0, CHR 0xBA, CHR 0xD1, CHR 0x83] @
       '':<br>'',
     ''                          <span style="color:#5b7cfa;">'',
     ''                            '' @ web_host @ ''/subscription?id='' @ sub_id,
     ''                          </span>'',
     ''                        </td>'',
     ''                      </tr>'',
     [],
     ''                      <tr>'',
     ''                        <td style="text-align:center;padding-top:24px;font-size:11px;color:#6b7280;">'',
     ''                          '' @ company_name @ '' '' @ [CHR 0xE2, CHR 0x80, CHR 0xA2] @ '' <a href="'' @
       support @ ''">'' @ [CHR 0xD0, CHR 0x9F, CHR 0xD0, CHR 0xBE, CHR 0xD0, CHR 0xB4, CHR 0xD0, CHR 0xB4,
       CHR 0xD0, CHR 0xB5, CHR 0xD1, CHR 0x80, CHR 0xD0, CHR 0xB6, CHR 0xD0, CHR 0xBA, CHR 0xD0, CHR 0xB0] @
       ''</a>'',
     ''                        </td>'',
     ''                      </tr>'',
     [],
     ''                    </table>'',
     [],
     ''                  </td>'',
     ''                </tr>'',
     ''              </table>'',
     [],
     ''            </body>'',
     ''            </html>'',
     ''            '']\<close>

definition html_body :: "smtp_config \<Rightarrow> string \<Rightarrow> string" where
  "html_body cfg sub_id = join_with [CHR 0x0A]
     (html_lines (sm_company_website cfg) sub_id (sm_title cfg) (sm_company_name cfg) (sm_support cfg))"

text \<open>\<open>for i in 0..3\<close>: the first attempt that succeeds is the last. The result is the attempts made and
  whether the mail is out.\<close>

fun send_loop :: "(nat \<Rightarrow> bool) \<Rightarrow> nat list \<Rightarrow> nat list \<times> bool" where
  "send_loop fails [] = ([], False)"
| "send_loop fails (i # is) = (if fails i then (case send_loop fails is of (l, ok) \<Rightarrow> (i # l, ok)) else ([i], True))"

text \<open>The task: addresses that cannot be read end it with a panic, a message that cannot be built ends
  it with a line in the log.\<close>

definition send_email_background :: "smtp_ext \<Rightarrow> (uuid \<Rightarrow> string) \<Rightarrow> smtp_config \<Rightarrow> string \<Rightarrow> uuid \<Rightarrow>
    (unit, (email_message \<times> nat list \<times> bool) option) outcome" where
  "send_email_background sx us cfg to sub_id =
    (if \<not> sx_mailbox sx (sm_from cfg) \<or> \<not> sx_mailbox sx to then Panic
     else (let msg = \<lparr>ml_from = sm_from cfg, ml_to = to, ml_subject = sm_title cfg, ml_body = html_body cfg (us sub_id)\<rparr>
           in if sx_builds sx msg then Ret (Some (msg, send_loop (sx_send_fails sx) [0, 1, 2])) else Ret None))"

text \<open>The mail a trial request leads to.\<close>

definition trial_mail_task :: "smtp_ext \<Rightarrow> (uuid \<Rightarrow> string) \<Rightarrow> smtp_config \<Rightarrow> trial_req \<Rightarrow> (error, reply) outcome \<Rightarrow>
    (unit, (email_message \<times> nat list \<times> bool) option) outcome option" where
  "trial_mail_task sx us cfg req answer = (case answer of
      Ret r \<Rightarrow> (if r_status r = 200 then (case (tr_email req, r_response r) of
          (Some email, Some (sub_id, _)) \<Rightarrow> Some (send_email_background sx us cfg email sub_id)
        | _ \<Rightarrow> None) else None)
    | _ \<Rightarrow> None)"

section \<open>What the mail says and how often it is sent\<close>

lemma join_with_sublist: "l \<in> set ls \<Longrightarrow> sublist l (join_with sep ls)"
proof (cases ls)
  case (Cons y ys)
  assume "l \<in> set ls"
  with Cons consider "l = y" | "l \<in> set ys" by auto
  then show ?thesis
  proof cases
    case 2
    then obtain as bs where "ys = as @ l # bs" by (meson split_list)
    then have "join_with sep ls = (y @ concat (map (\<lambda>z. sep @ z) as) @ sep) @ l @ concat (map (\<lambda>z. sep @ z) bs)"
      by (simp add: join_with_def Cons)
    then show ?thesis by (metis sublist_appendI)
  qed (simp add: join_with_def Cons)
qed simp

lemma mail_has_link: "sublist (sm_company_website cfg @ ''/subscription?id='' @ sub_id) (html_body cfg sub_id)"
proof -
  let ?link = "sm_company_website cfg @ ''/subscription?id='' @ sub_id"
  have "replicate 28 (CHR '' '') @ ?link \<in>
      set (html_lines (sm_company_website cfg) sub_id (sm_title cfg) (sm_company_name cfg) (sm_support cfg))"
    by (simp add: html_lines_def numeral_eq_Suc)
  from join_with_sublist [OF this] have "sublist (replicate 28 (CHR '' '') @ ?link) (html_body cfg sub_id)"
    by (simp add: html_body_def)
  moreover have "sublist ?link (replicate 28 (CHR '' '') @ ?link)" by (metis append_Nil2 sublist_appendI)
  ultimately show ?thesis using sublist_order.order_trans by blast
qed

lemma send_loop_sent: "snd (send_loop fails is) \<longleftrightarrow> (\<exists>i \<in> set is. \<not> fails i)"
  by (induction "is") (auto split: prod.split)

lemma send_loop_attempts:
  "prefix (fst (send_loop fails is)) is \<and> (\<forall>i \<in> set (butlast (fst (send_loop fails is))). fails i)"
  by (induction "is") (auto split: prod.split)

end
