(* ===== verification/RunProps.thy ===== *)
theory RunProps
  imports HttpProps Wiring Mail
begin

text \<open>
  Properties of the programs over their whole life: what a node is made of when it starts from its
  settings, snapshots across crashes, the record of trials across restarts, and the way of a metric
  from the machine to the storage of the API server.
\<close>

interpretation keys: preserved "metric_step h" "\<lambda>st. metrics_ok st \<and> keyed h st" for h
proof
  fix st st'
  assume "metric_step h st st'" and "metrics_ok st \<and> keyed h st"
  then show "metrics_ok st' \<and> keyed h st'"
  proof (cases rule: metric_step.cases)
    case (step_receive payload)
    then show ?thesis using \<open>metrics_ok st \<and> keyed h st\<close> receive_metadata [of h st]
      by (auto simp: metric_receive_ok) (auto simp: metric_receive_def split: option.split)
  next
    case (step_gc now)
    then have "hm_wf (ms_metadata st)" using \<open>metrics_ok st \<and> keyed h st\<close> by (simp add: metrics_ok_def)
    with step_gc \<open>metrics_ok st \<and> keyed h st\<close> show ?thesis by (simp add: perform_gc_ok perform_gc_keyed)
  qed
qed

section \<open>Starting a node\<close>


definition sample_boot :: boot_ext where
  "sample_boot = \<lparr>be_file = (\<lambda>path. if path = ''/mt'' then Some ''toml'' else None),
     be_json = (\<lambda>_. None), be_yaml = (\<lambda>_. None), be_toml = (\<lambda>_. Some \<lparr>mt_port = 443, mt_secret = [(''s'', ''l'')]\<rparr>),
     be_v6_parse = (\<lambda>_. None), be_xray_connect = (\<lambda>_ _. None), be_wg_new = (\<lambda>_. True), be_wg_data = (\<lambda>_. True),
     be_cpus = Some 4, be_hostname = Some ''n1'', be_now = 0\<rparr>"

definition sample_settings :: node_settings where
  "sample_settings = \<lparr>se_xray_enabled = False, se_xray_path = [], se_wg_enabled = False, se_wg_path = [],
     se_h2_enabled = False, se_h2_path = [], se_mtproto_enabled = True, se_mtproto_path = ''/mt'',
     se_node = \<lparr>nw_env = Production, nw_hostname = None, nw_default_interface = ''eth0'', nw_address = 1,
       nw_uuid = 9, nw_label = ''l'', nw_max_bandwidth_bps = 1, nw_country = ''c'', nw_type = ''Common''\<rparr>,
     se_snapshot_path = ''/s''\<rparr>"

lemma sample_init: "\<exists>n. init_node sample_boot sample_settings = Ret n"
  by (simp add: init_node_def init_xray_def init_wireguard_def init_hysteria2_def init_mtproto_def bind_outcome_def
      sample_boot_def sample_settings_def node_config_from_raw_def node_new_def Let_def)


section \<open>Snapshots\<close>

text \<open>C15. Snapshots survive crashes: after any sequence of attempts to write one, each of which may be
  cut off between or during its file operations, the file holds the last snapshot whose attempt was
  completed, or what it held at the beginning; a cut-off file is never read.\<close>

theorem snapshot_crash_safe:
  assumes "fs path \<noteq> Some Partial"
  shows "let fs' = fold (\<lambda>(k, now, mem). create_snapshot_file k path now mem) attempts fs;
             complete = filter (\<lambda>(k, _). 3 \<le> k) attempts
         in fs' path = (if complete = [] then fs path
              else case last complete of (_, now, mem) \<Rightarrow> Some (Whole (create_snapshot now mem))) \<and>
            load_snapshot_file read_fails path fs' \<noteq> Panic"
proof -
  have at: "fold (\<lambda>(k, now, mem). create_snapshot_file k path now mem) attempts fs path =
      (if filter (\<lambda>(k, _). 3 \<le> k) attempts = [] then fs path
       else case last (filter (\<lambda>(k, _). 3 \<le> k) attempts) of (_, now, mem) \<Rightarrow> Some (Whole (create_snapshot now mem)))"
    by (induction attempts rule: rev_induct) (auto simp: create_snapshot_file_at split: prod.splits)
  moreover have "fold (\<lambda>(k, now, mem). create_snapshot_file k path now mem) attempts fs path \<noteq> Some Partial"
    unfolding at using assms by (auto split: prod.splits)
  then have "load_snapshot_file read_fails path (fold (\<lambda>(k, now, mem). create_snapshot_file k path now mem) attempts fs) \<noteq> Panic"
    by (simp add: load_snapshot_file_def split: option.split disk_file.split)
  ultimately show ?thesis by (simp only: Let_def simp_thms)
qed

theorem snapshot_crash_safe_witness:
  "fold (\<lambda>(k, now, mem). create_snapshot_file k ''s'' now mem) [(3, 10 ^ 9, []), (1, 2 * 10 ^ 9, []), (2, 3 * 10 ^ 9, [])]
     (\<lambda>_. None) ''s'' = Some (Whole (create_snapshot (10 ^ 9) []))"
  using snapshot_crash_safe [of "\<lambda>_. None" "''s''" "[(3, 10 ^ 9, []), (1, 2 * 10 ^ 9, []), (2, 3 * 10 ^ 9, [])]" False]
  by (simp add: Let_def)

section \<open>Trials across restarts\<close>

text \<open>C23. A trial is granted once, also across restarts: when the file of trials can be written, every
  address that has had a trial when the server goes down, after any sequence of requests and
  rounds, is on record again when the server has started from its file, and a request that names
  it is refused.\<close>

theorem trials_survive_restart:
  assumes "mail_laws m" and "\<forall>k. \<not> io_fails m k" and "file_wf (case trials of Some f \<Rightarrow> f | None \<Rightarrow> [])"
    and "api_boot x m pf (w0, trials) = Ret s0" and "(srv_step x k m)\<^sup>*\<^sup>* s0 (w, st)"
    and "api_boot x2 m pf2 (w, es_file st) = Ret (w2, st2)" and "check_email_hmac m e st"
    and "tr_email req = Some e \<and> tr_user req = None \<or> tr_user req = Some e \<and> tr_email req = None"
  shows "post_trial_handler x2 m cfg req (w2, st2) = (Ret (bad_request ''Trial already requested''), w2, st2)"
proof -
  obtain w1 st1 where s0: "s0 = (w1, st1)" by force
  have "trials_kept m st1"
    using boot_trials [of x m pf w0 trials w1 st1] assms(4) boot_trials_kept [OF assms(3)] by (simp add: s0)
  then have "trials_kept m st"
    using trials.reach_inv [OF assms(5)] assms(1,2) by (simp add: s0)
  with assms(7) have h: "hm_get (fold (load_line m) (file_lines (trial_file st)) []) (hmac_email m e) \<noteq> None"
    by (simp add: trials_kept_def check_email_hmac_def del: not_None_eq)
  have "st2 = load_trials m \<lparr>es_store = [], es_file = es_file st\<rparr>" by (rule boot_trials [OF assms(6)])
  then have "check_email_hmac m e st2"
    using h by (cases "es_file st") (simp_all add: load_trials_def trial_file_def check_email_hmac_def file_lines_def)
  then have "trial_requested m req st2" using assms(8) by (auto simp: trial_requested_def)
  with assms(8) show ?thesis by (auto simp: post_trial_handler_def)
qed

text \<open>An instance: time stamps as binary numbers.\<close>

function bin_text :: "int \<Rightarrow> string" where
  "bin_text n = (if n \<le> 0 then [] else (if n mod 2 = 1 then CHR ''1'' else CHR ''0'') # bin_text (n div 2))"
  by pat_completeness auto
termination
  by (relation "measure nat") auto

declare bin_text.simps [simp del]

fun bin_value :: "string \<Rightarrow> int" where
  "bin_value [] = 0"
| "bin_value (c # cs) = (if c = CHR ''1'' then 1 else 0) + 2 * bin_value cs"

lemma bin_value_text: "0 \<le> n \<Longrightarrow> bin_value (bin_text n) = n"
proof (induction n rule: bin_text.induct)
  case (1 n)
  show ?case
  proof (cases "n = 0")
    case True
    then show ?thesis by (simp add: bin_text.simps [of 0])
  next
    case False
    with 1 have "0 < n" "bin_value (bin_text (n div 2)) = n div 2" by auto
    then show ?thesis by (simp add: bin_text.simps [of n]) presburger
  qed
qed

lemma bin_text_chars: "set (bin_text n) \<subseteq> {CHR ''0'', CHR ''1''}"
  by (induction n rule: bin_text.induct) (auto simp: bin_text.simps)

definition binary_mail :: mail_ext where
  "binary_mail = \<lparr>hmac_hex = (\<lambda>e. dec_string (length e)),
     to_rfc3339 = (\<lambda>t. (if t < 0 then CHR ''-'' else CHR ''+'') # bin_text \<bar>t\<bar>),
     parse_datetime = (\<lambda>s. case s of [] \<Rightarrow> None
       | c # cs \<Rightarrow> Some (if c = CHR ''-'' then - bin_value cs else bin_value cs)),
     io_fails = (\<lambda>_. False)\<rparr>"

lemma binary_mail_laws: "mail_laws binary_mail"
proof -
  have "CHR 0x0A \<notin> set (dec_string n)" "CHR '','' \<notin> set (dec_string n)" for n by (rule dec_string_no, code_simp)+
  moreover have "CHR 0x0A \<notin> set (bin_text n)" "CHR '','' \<notin> set (bin_text n)" for n using bin_text_chars [of n] by auto
  ultimately show ?thesis by (auto simp: mail_laws_def binary_mail_def plain_def bin_value_text)
qed

definition booted :: "world \<times> email_store" where
  "booted = (case api_boot sample_ext binary_mail (\<lambda>_. False) (sample_world, None) of
     Ret s \<Rightarrow> s | _ \<Rightarrow> (sample_world, empty_store))"

definition after_trial :: "world \<times> email_store" where
  "after_trial = snd (post_trial_handler sample_ext binary_mail sample_trial_config sample_trial booted)"

definition rebooted :: "world \<times> email_store" where
  "rebooted = (case api_boot sample_ext binary_mail (\<lambda>_. False) (fst after_trial, es_file (snd after_trial)) of
     Ret s \<Rightarrow> s | _ \<Rightarrow> (sample_world, empty_store))"

lemma sample_boots:
  "api_boot sample_ext binary_mail (\<lambda>_. False) (sample_world, None) = Ret booted"
  "api_boot sample_ext binary_mail (\<lambda>_. False) (fst after_trial, es_file (snd after_trial)) = Ret rebooted"
proof -
  have "(case api_boot sample_ext binary_mail (\<lambda>_. False) (sample_world, None) of Ret _ \<Rightarrow> True | _ \<Rightarrow> False)"
    by code_simp
  then show "api_boot sample_ext binary_mail (\<lambda>_. False) (sample_world, None) = Ret booted"
    by (auto simp: booted_def split: outcome.splits)
  have "(case api_boot sample_ext binary_mail (\<lambda>_. False) (fst after_trial, es_file (snd after_trial)) of
      Ret _ \<Rightarrow> True | _ \<Rightarrow> False)"
    by code_simp
  then show "api_boot sample_ext binary_mail (\<lambda>_. False) (fst after_trial, es_file (snd after_trial)) = Ret rebooted"
    by (auto simp: rebooted_def split: outcome.splits)
qed

theorem trials_survive_restart_witness:
  "post_trial_handler sample_ext binary_mail sample_trial_config sample_trial rebooted =
     (Ret (bad_request ''Trial already requested''), rebooted)"
proof -
  have "srv_step sample_ext k binary_mail (fst booted, snd booted) after_trial" for k
    unfolding after_trial_def using srv_step.srv_trial [of sample_ext k binary_mail "fst booted" "snd booted"] by simp
  then have run: "(srv_step sample_ext k binary_mail)\<^sup>*\<^sup>* booted (fst after_trial, snd after_trial)" for k by auto
  have c: "check_email_hmac binary_mail ''a'' (snd after_trial)" by code_simp
  have "post_trial_handler sample_ext binary_mail sample_trial_config sample_trial (fst rebooted, snd rebooted) =
      (Ret (bad_request ''Trial already requested''), fst rebooted, snd rebooted)"
    by (rule trials_survive_restart [OF binary_mail_laws _ _ sample_boots(1) run _ c])
      (use sample_boots(2) in \<open>simp_all add: binary_mail_def file_wf_def sample_trial_def\<close>)
  then show ?thesis by simp
qed

section \<open>What a granted trial brings\<close>

lemma trial_conn_subs: "mem_subs (snd (trial_conn x net i et w)) = mem_subs w \<and>
    db_subs (w_db (snd (trial_conn x net i et w))) = db_subs (w_db w)"
proof -
  obtain e tag where et: "et = (e, tag)" by force
  have n: "snd (new_proto x net tag w) = tick w" by (rule new_proto_tick)
  have a: "mem_subs (snd (announce x i c v)) = mem_subs v \<and> w_db (snd (announce x i c v)) = w_db v" for i c v
    using announce_frame [of x i c v "fst (announce x i c v)" "snd (announce x i c v)"] by simp
  have d: "mem_subs (snd (add_conn x i c v)) = mem_subs v \<and> db_subs (w_db (snd (add_conn x i c v))) = db_subs (w_db v)" for i c v
    by (auto simp: add_conn_frame pg_conn_insert_def split: option.split)
  show ?thesis
    by (auto simp: trial_conn_def et Let_def split_beta n a d split: sum.split outcome.split status.split)
qed

lemma trial_conns_subs: "mem_subs (snd (trial_conns x net i ets w)) = mem_subs w \<and>
    db_subs (w_db (snd (trial_conns x net i ets w))) = db_subs (w_db w)"
proof (induction ets arbitrary: w)
  case (Cons et ets)
  then show ?case using trial_conn_subs [of x net i et w] by (auto simp: split_beta split: option.split)
qed simp

lemma save_trial_world: "w_mem (fst (save_trial x m who i t r ws)) = w_mem (fst ws)"
    "w_db (fst (save_trial x m who i t r ws)) = w_db (fst ws)"
  by (simp_all add: save_trial_def split: option.split)

lemma add_sub_ok:
  assumes "add_sub x s w = (Ret (Ok i), w')"
  shows "i = s_id s" "hm_get (mem_subs w') i = Some s"
    "map_option s_expires_at (hm_get (db_subs (w_db w')) i) = Some (s_expires_at s)"
  using assms by (auto simp: add_sub_def subs_add_def run_db_def pg_sub_create_def Let_def tick_def
      split: prod.splits sum.splits option.splits if_splits status.splits)

lemma trial_grants:
  assumes "post_trial_handler x m cfg req (w, st) = (Ret r, w', st')" and "r_status r = 200"
  obtains v s w1 now where "add_sub x s v = (Ret (Ok (s_id s)), w1)" "r_response r = Some (s_id s, INone)"
    "mem_subs w' = mem_subs w1" "db_subs (w_db w') = db_subs (w_db w1)"
    "s_expires_at s = x_plus_days x now (tc_days cfg)" "s_expires_at s \<noteq> None"
proof -
  have "\<exists>v t i ref code e lim now w1 j v2 rb. add_sub x (subscription_new t i ref code (Some e) lim) v = (Ret (Ok j), w1) \<and>
      x_plus_days x now (tc_days cfg) = Some e \<and>
      trial_conns x (tc_network cfg) j (List.product (tc_envs cfg) (tc_protos cfg)) w1 = (None, v2) \<and>
      r_response r = Some (i, INone) \<and>
      (w', st') = save_trial x m (tr_email req) i now rb (save_trial x m (tr_user req) i now rb (v2, st))"
    using assms
    by (auto simp: post_trial_handler_def reply_defs Let_def split: if_splits option.splits prod.splits outcome.splits
        status.splits)
      (intro exI conjI, assumption, assumption, assumption, rule refl, erule sym)+
  then obtain v t i ref code e lim now w1 j v2 rb where
      a: "add_sub x (subscription_new t i ref code (Some e) lim) v = (Ret (Ok j), w1)"
      and e: "x_plus_days x now (tc_days cfg) = Some e"
      and c: "trial_conns x (tc_network cfg) j (List.product (tc_envs cfg) (tc_protos cfg)) w1 = (None, v2)"
      and r: "r_response r = Some (i, INone)"
      and w': "(w', st') = save_trial x m (tr_email req) i now rb (save_trial x m (tr_user req) i now rb (v2, st))"
    by blast
  have "w_mem w' = w_mem v2" "w_db w' = w_db v2"
    using save_trial_world [of x m "tr_email req" i now rb "save_trial x m (tr_user req) i now rb (v2, st)"]
      save_trial_world [of x m "tr_user req" i now rb "(v2, st)"] by (simp_all add: w' [symmetric])
  then have "mem_subs w' = mem_subs w1" "db_subs (w_db w') = db_subs (w_db w1)"
    using trial_conns_subs [of x "tc_network cfg" j _ w1] c by (metis snd_conv)+
  then show thesis
    using a e r add_sub_ok(1) [OF a] by (intro that [of "subscription_new t i ref code (Some e) lim" v w1 now])
      (simp_all add: subscription_new_def)
qed


definition sample_smtp :: smtp_config where
  "sample_smtp = \<lparr>sm_server = ''h'', sm_username = ''u'', sm_password = ''p'', sm_port = 465, sm_from = ''f'', sm_title = ''t'', sm_company_name = ''c'', sm_support = ''s'',
     sm_email_file = ''m'', sm_email_sign_token = [1], sm_company_website = ''w''\<rparr>"

definition sample_smtp_ext :: smtp_ext where
  "sample_smtp_ext = \<lparr>sx_mailbox = (\<lambda>_. True), sx_builds = (\<lambda>_. True), sx_send_fails = (\<lambda>i. i = 0)\<rparr>"


section \<open>Metrics\<close>

text \<open>C34. What a node measures arrives: when a round's batch is flushed and received by the API
  server, the storage has, for every metric of the round, the series on record under its name and
  tags and findable by the node's name, and the series has the measured point. This needs that the
  batch is no longer than a series may be, that the round is shorter than the retention, and that no
  two series share a hash. The node's connections are not changed by measuring.\<close>

theorem metrics_arrive:
  assumes "(metric_step h)\<^sup>*\<^sup>* (storage_new limit r) st"
    and "collect_metrics x fx mx mc n (beat, s, []) = (beat', s', ms)"
    and "flush_to_zmq False (ms, []) = (rest, sent)"
    and "length ms \<le> limit" and "\<forall>a \<in> set ms. \<forall>b \<in> set ms. min_ts (me_timestamp a) st \<le> me_timestamp b"
    and "inj_on (\<lambda>(name, ts). h name ts) (known_series st \<union> series_of ms)"
    and "e \<in> set ms" and "st' = fold (\<lambda>b. metric_receive h (Some b)) sent st"
  shows "ns_mem s' = ns_mem s \<and> rest = [] \<and> me_node_id e = n_uuid n \<and>
    hm_get (ms_metadata st') (key_of h e) = Some (me_name e, me_tags e) \<and>
    key_of h e \<in> set (find_series_by_tag ''hostname'' (n_hostname n) st') \<and>
    point_of e \<in> set (get_range (n_uuid n) (key_of h e) (me_timestamp e) (me_timestamp e) st')"
proof -
  have "metrics_ok (storage_new limit r) \<and> ms_max_points (storage_new limit r) = limit"
    using storage_new_ok by (simp add: storage_new_def)
  from metrics.reach_inv [OF assms(1) this] have ok: "metrics_ok st" "ms_max_points st = limit" by blast+
  have "metrics_ok (storage_new limit r) \<and> keyed h (storage_new limit r)"
    using storage_new_ok by (simp add: storage_new_def keyed_def)
  from keys.reach_inv [OF assms(1) this] have k: "keyed h st" by blast
  have g: "grows n (s, []) (s', ms)" using collect_metrics_grows [of n "(s, [])" x fx mx mc beat] assms(2) by simp
  then have e: "me_node_id e = n_uuid n" "hm_get (me_tags e) ''hostname'' = Some (n_hostname n)"
    using assms(7) by (auto simp: grows_def reports_def)
  from assms(3,7) have "rest = []" "sent = [ms]" by (auto simp: flush_to_zmq_def split: if_splits)
  then have st': "st' = fold (insert_envelope h) ms st" by (simp add: assms(8) metric_receive_def)
  have rec: "hm_get (ms_metadata st') (key_of h e) = Some (me_name e, me_tags e)"
    unfolding st' by (rule receive_on_record [OF k assms(6,7)])
  have "metrics_ok st'" using metric_receive_ok [OF ok(1), of h "Some ms"] by (simp add: st' metric_receive_def)
  with rec map_of_SomeD [OF e(2)]
  have idx: "key_of h e \<in> set (find_series_by_tag ''hostname'' (n_hostname n) st')"
    unfolding metrics_ok_def index_ok_def find_series_by_tag_def by blast
  obtain pre where "queue_of st' (n_uuid n) (key_of h e) =
      pre @ map point_of (filter (\<lambda>a. me_node_id a = n_uuid n \<and> key_of h a = key_of h e) ms)"
    unfolding st' using receive_queue [of ms st h "n_uuid n" "key_of h e"] assms(4,5) ok(2) by auto
  then have "point_of e \<in> set (queue_of st' (n_uuid n) (key_of h e))" using assms(7) e(1) by auto
  then show ?thesis using g rec idx e(1) \<open>rest = []\<close> by (auto simp: grows_def get_range_queue point_of_def)
qed

definition sample_machine :: machine where
  "sample_machine = \<lparr>mc_free_memory = 1, mc_total_memory = 4, mc_used_memory = 3, mc_available_memory = 1,
     mc_load_one = 1, mc_load_five = 2, mc_load_fifteen = 3,
     mc_networks = [(''eth0'', \<lparr>nt_total_received = 7, nt_total_transmitted = 8, nt_received = 1, nt_transmitted = 2\<rparr>)],
     mc_cpus = [(''cpu0'', 5)], mc_disks = [\<lparr>dk_mount_point = Some ''/'', dk_total_space = 10, dk_available_space = 4\<rparr>]\<rparr>"

definition sample_floats :: float_ext where
  "sample_floats = \<lparr>fl_div = (\<lambda>a b. a), fl_mul = (\<lambda>a b. a), fl_round = (\<lambda>a. a), fs_div = (\<lambda>a b. a),
     fs_mul = (\<lambda>a b. a), fs_round = (\<lambda>a. a), fs_widen = ucast\<rparr>"

definition sample_metric_ext :: metric_ext where
  "sample_metric_ext = \<lparr>mx_f64 = word_of_int, mx_now = (\<lambda>i. 5000)\<rparr>"

definition sample_hash :: "string \<Rightarrow> tags \<Rightarrow> u64" where
  "sample_hash name ts = word_of_int (foldr (\<lambda>c a. of_char c + 131 * a) name 0)"

definition sample_round :: "u64 \<times> collecting" where
  "sample_round = collect_metrics sample_agent sample_floats sample_metric_ext sample_machine vless_node
     (3, fresh_node_state, [])"

lemma inj_series:
  assumes "distinct (map (key_of h) ms)"
  shows "inj_on (\<lambda>(name, ts). h name ts) (series_of ms)"
proof (rule inj_onI)
  fix a b
  assume "a \<in> series_of ms" "b \<in> series_of ms" and eq: "(case a of (name, ts) \<Rightarrow> h name ts) = (case b of (name, ts) \<Rightarrow> h name ts)"
  then obtain d e where de: "d \<in> set ms" "a = (me_name d, me_tags d)" "e \<in> set ms" "b = (me_name e, me_tags e)"
    by (auto simp: series_of_def)
  with eq have "key_of h d = key_of h e" by (simp add: key_of_def)
  with assms de(1,3) have "d = e" by (metis distinct_map inj_onD)
  with de show "a = b" by simp
qed

theorem metrics_arrive_witness:
  "let e = hd (snd (snd sample_round));
       st' = metric_receive sample_hash (Some (snd (snd sample_round))) (storage_new 100 60)
   in me_name e = ''sys.heartbeat'' \<and> me_value e = 0x3FD999999999999A \<and>
      point_of e \<in> set (get_range 9 (key_of sample_hash e) 5000 5000 st')"
proof -
  let ?st = "storage_new 100 60"
  obtain b s ms where r: "sample_round = (b, s, ms)" by (cases sample_round) auto
  have "length (snd (snd sample_round)) = 16 \<and> distinct (map (key_of sample_hash) (snd (snd sample_round)))" by code_simp
  then have l: "length ms = 16" "distinct (map (key_of sample_hash) ms)" by (simp_all add: r)
  have "list_all (\<lambda>e. me_timestamp e = 5000) (snd (snd sample_round)) \<and> min_ts 5000 ?st \<le> 5000" by code_simp
  then have t: "\<forall>e \<in> set ms. me_timestamp e = 5000" "min_ts 5000 ?st \<le> 5000" by (simp_all add: r list_all_iff)
  have "me_name (hd (snd (snd sample_round))) = ''sys.heartbeat'' \<and> me_value (hd (snd (snd sample_round))) = 0x3FD999999999999A"
    by code_simp
  then have e: "me_name (hd ms) = ''sys.heartbeat''" "me_value (hd ms) = 0x3FD999999999999A" "hd ms \<in> set ms"
    using l(1) by (cases ms; simp add: r)+
  have "(metric_step sample_hash)\<^sup>*\<^sup>* (storage_new 100 60) ?st" by simp
  moreover have "collect_metrics sample_agent sample_floats sample_metric_ext sample_machine vless_node
      (3, fresh_node_state, []) = (b, s, ms)" using r by (simp add: sample_round_def)
  moreover have "flush_to_zmq False (ms, []) = ([], [ms])" using l(1) by (auto simp: flush_to_zmq_def)
  moreover have "known_series ?st = {}" by (simp add: known_series_def storage_new_def)
  ultimately have "point_of (hd ms) \<in> set (get_range (n_uuid vless_node) (key_of sample_hash (hd ms)) (me_timestamp (hd ms))
      (me_timestamp (hd ms)) (metric_receive sample_hash (Some ms) ?st))"
    using metrics_arrive [of sample_hash 100 60 ?st sample_agent sample_floats sample_metric_ext sample_machine vless_node 3
        fresh_node_state b s ms "[]" "[ms]" "hd ms"] l t e(3) inj_series [OF l(2)] by simp
  then show ?thesis using e t by (simp add: r Let_def vless_node_def sample_node_def)
qed

end
