(* ===== verification/Resumption.thy ===== *)
theory Resumption
  imports Prelude
begin

text \<open>
  Interleaving. A request of the API server runs as an asynchronous task: it holds the lock of the
  memory, or waits for a statement of the database or for a send, and between two such actions any
  other task may run. A task is a resumption: it has returned, or it does one action on the shared
  state and continues as what the action says. This theory has the tasks, what one does when it
  runs alone, pools of tasks that take turns in any order, and a rely-guarantee rule for an
  invariant of all of them. It knows nothing of the server.
\<close>

section \<open>Tasks\<close>

datatype ('s, 'a) task =
    Return 'a
  | Act "'s \<Rightarrow> ('s, 'a) task \<times> 's"

primrec run_task :: "('s, 'a) task \<Rightarrow> 's \<Rightarrow> 'a \<times> 's" where
  "run_task (Return a) = (\<lambda>s. (a, s))"
| "run_task (Act f) = (\<lambda>s. case map_prod run_task id (f s) of (g, s') \<Rightarrow> g s')"

primrec task_bind :: "('s, 'a) task \<Rightarrow> ('a \<Rightarrow> ('s, 'b) task) \<Rightarrow> ('s, 'b) task" where
  "task_bind (Return a) k = k a"
| "task_bind (Act f) k = Act (\<lambda>s. map_prod (\<lambda>t. task_bind t k) id (f s))"

definition atomically :: "('s \<Rightarrow> 'a \<times> 's) \<Rightarrow> ('s, 'a) task" where
  "atomically f = Act (\<lambda>s. case f s of (a, s') \<Rightarrow> (Return a, s'))"

text \<open>A task on a part of the state.\<close>

primrec on_fst :: "('s, 'a) task \<Rightarrow> ('s \<times> 'r, 'a) task" where
  "on_fst (Return a) = Return a"
| "on_fst (Act f) = Act (\<lambda>s. case map_prod on_fst id (f (fst s)) of (t, s') \<Rightarrow> (t, s', snd s))"

text \<open>Induction without the range of the action.\<close>

lemma task_induct [case_names Return Act]:
  assumes "\<And>a. P (Return a)" and "\<And>f. (\<And>s. P (fst (f s))) \<Longrightarrow> P (Act f)"
  shows "P t"
proof (induction t)
  case (Act f)
  have "P (fst (f s))" for s by (rule Act [of "f s"]) (simp_all add: fsts.intros)
  then show ?case by (rule assms(2))
qed (rule assms(1))

lemma run_task_bind [simp]: "run_task (task_bind t k) s = (case run_task t s of (a, s') \<Rightarrow> run_task (k a) s')"
  by (induction t arbitrary: s rule: task_induct) (simp_all add: split_beta)

lemma task_bind_assoc [simp]: "task_bind (task_bind t f) g = task_bind t (\<lambda>a. task_bind (f a) g)"
  by (induction t rule: task_induct) (simp_all add: map_prod_def split_beta)

lemma run_task_atomically [simp]: "run_task (atomically f) s = f s"
  by (simp add: atomically_def split_beta)

lemma run_task_on_fst [simp]: "run_task (on_fst t) s = (case run_task t (fst s) of (a, s') \<Rightarrow> (a, s', snd s))"
  by (induction t arbitrary: s rule: task_induct) (simp_all add: split_beta)

section \<open>Pools\<close>

type_synonym ('s, 'a) pool = "('s, 'a) task list \<times> 's"

text \<open>Any task that has not returned may act next, and a new task may start at any time.\<close>

inductive pool_step :: "('s, 'a) task set \<Rightarrow> ('s, 'a) pool \<Rightarrow> ('s, 'a) pool \<Rightarrow> bool" for P where
  pool_act: "i < length ts \<Longrightarrow> ts ! i = Act f \<Longrightarrow> f s = (t, s') \<Longrightarrow> pool_step P (ts, s) (ts[i := t], s')"
| pool_spawn: "t \<in> P \<Longrightarrow> pool_step P (ts, s) (ts @ [t], s)"

inductive_cases pool_stepE: "pool_step P p p'"

text \<open>One turn of a task, and a list of turns.\<close>

definition turn :: "nat \<Rightarrow> ('s, 'a) pool \<Rightarrow> ('s, 'a) pool" where
  "turn i p = (case p of (ts, s) \<Rightarrow>
     if i < length ts then (case ts ! i of Return a \<Rightarrow> (ts, s) | Act f \<Rightarrow> (case f s of (t, s') \<Rightarrow> (ts[i := t], s'))) else (ts, s))"

definition schedule :: "nat list \<Rightarrow> ('s, 'a) pool \<Rightarrow> ('s, 'a) pool" where
  "schedule is p = fold turn is p"

lemma schedule_simps [simp]: "schedule [] p = p" "schedule (i # is) p = schedule is (turn i p)"
  "schedule (is @ js) p = schedule js (schedule is p)"
  by (simp_all add: schedule_def)

lemma turn_reach: "(pool_step P)\<^sup>*\<^sup>* p (turn i p)"
  by (cases p) (auto simp: turn_def intro: pool_act split: task.split prod.split)

lemma schedule_reach: "(pool_step P)\<^sup>*\<^sup>* p (schedule is p)"
proof (induction "is" arbitrary: p)
  case (Cons i "is")
  show ?case using rtranclp_trans [OF turn_reach Cons] by simp
qed simp

lemma spawn_reach: "set ts \<subseteq> P \<Longrightarrow> (pool_step P)\<^sup>*\<^sup>* (us, s) (us @ ts, s)"
proof (induction ts arbitrary: us)
  case (Cons t ts)
  have "pool_step P (us, s) (us @ [t], s)" using Cons.prems by (intro pool_spawn) simp
  moreover have "(pool_step P)\<^sup>*\<^sup>* (us @ [t], s) (us @ t # ts, s)" using Cons.IH [of "us @ [t]"] Cons.prems by simp
  ultimately show ?case by (rule converse_rtranclp_into_rtranclp)
qed simp

text \<open>Taking all its turns at once, a task does what it does alone.\<close>

lemma schedule_alone:
  "i < length ts \<Longrightarrow> ts ! i = t \<Longrightarrow> \<exists>n. schedule (replicate n i) (ts, s) = (ts[i := Return (fst (run_task t s))], snd (run_task t s))"
proof (induction t arbitrary: ts s rule: task_induct)
  case (Return a)
  then show ?case by (intro exI [of _ 0]) (metis list_update_id replicate_0 run_task.simps(1) schedule_simps(1) fst_conv snd_conv)
next
  case (Act f)
  obtain t s' where f: "f s = (t, s')" by force
  with Act.IH [where ts = "ts[i := t]" and s = s and sa = s'] Act.prems obtain n where
    "schedule (replicate n i) (ts[i := t], s') = (ts[i := Return (fst (run_task t s'))], snd (run_task t s'))" by auto
  with Act.prems f show ?case by (intro exI [of _ "Suc n"]) (simp add: turn_def)
qed

section \<open>Rely and guarantee\<close>

text \<open>Every action keeps the invariant \<open>I\<close> and changes the state within \<open>G\<close>, given what the task
  knows (\<open>J\<close>); what it knows after an action no action of another task can undo. \<open>Q\<close> is what is
  known when it returns.\<close>

definition unaffected :: "('s \<Rightarrow> 's \<Rightarrow> bool) \<Rightarrow> ('s \<Rightarrow> bool) \<Rightarrow> bool" where
  "unaffected G J = (\<forall>s s'. J s \<longrightarrow> G s s' \<longrightarrow> J s')"

inductive sat :: "('s \<Rightarrow> bool) \<Rightarrow> ('s \<Rightarrow> 's \<Rightarrow> bool) \<Rightarrow> ('a \<Rightarrow> 's \<Rightarrow> bool) \<Rightarrow> ('s \<Rightarrow> bool) \<Rightarrow> ('s, 'a) task \<Rightarrow> bool"
  for I G Q where
  sat_return: "(\<And>s. I s \<Longrightarrow> J s \<Longrightarrow> Q a s) \<Longrightarrow> sat I G Q J (Return a)"
| sat_act: "(\<And>s. I s \<Longrightarrow> J s \<Longrightarrow> I (snd (f s)) \<and> G s (snd (f s)) \<and>
    (\<exists>J'. unaffected G J' \<and> J' (snd (f s)) \<and> sat I G Q J' (fst (f s)))) \<Longrightarrow> sat I G Q J (Act f)"

inductive_cases sat_ActE: "sat I G Q J (Act f)"
inductive_cases sat_ReturnE: "sat I G Q J (Return a)"

lemma sat_weaken: "sat I G Q J t \<Longrightarrow> (\<And>s. I s \<Longrightarrow> J' s \<Longrightarrow> J s) \<Longrightarrow> sat I G Q J' t"
  by (erule sat.cases) (auto intro!: sat.intros)

lemma sat_Return_iff [simp]: "sat I G Q J (Return a) \<longleftrightarrow> (\<forall>s. I s \<longrightarrow> J s \<longrightarrow> Q a s)"
  by (auto intro: sat_return elim: sat_ReturnE)

lemma sat_vacuous: "(\<And>s. \<not> J s) \<Longrightarrow> sat I G Q J t"
  by (cases t) (auto intro: sat.intros)

lemma sat_atomically:
  assumes "\<And>s. I s \<Longrightarrow> J s \<Longrightarrow> I (snd (f s)) \<and> G s (snd (f s)) \<and> Q (fst (f s)) (snd (f s))"
    and "\<And>a. unaffected G (Q a)"
  shows "sat I G Q J (atomically f)"
  unfolding atomically_def
proof (rule sat_act)
  fix s
  assume "I s" "J s"
  moreover have "sat I G Q (Q (fst (f s))) (Return (fst (f s)))" by (rule sat_return)
  ultimately show "I (snd (case f s of (a, s') \<Rightarrow> (Return a, s'))) \<and> G s (snd (case f s of (a, s') \<Rightarrow> (Return a, s'))) \<and>
      (\<exists>J'. unaffected G J' \<and> J' (snd (case f s of (a, s') \<Rightarrow> (Return a, s'))) \<and>
        sat I G Q J' (fst (case f s of (a, s') \<Rightarrow> (Return a, s'))))"
    using assms by (auto simp: split_beta)
qed

lemma sat_bind:
  assumes "sat I G Q J t" and "\<And>a. sat I G R (Q a) (k a)"
  shows "sat I G R J (task_bind t k)"
  using assms(1)
proof (induction rule: sat.induct)
  case (sat_return J a)
  then show ?case using sat_weaken [OF assms(2), where J' = J] by simp
next
  case (sat_act J f)
  show ?case by simp (rule sat.sat_act, use sat_act in fastforce)
qed

lemma sat_seq:
  assumes "sat I G (\<lambda>_ _. True) J t" and "\<And>a. sat I G R (\<lambda>_. True) (k a)"
  shows "sat I G R J (task_bind t k)"
  by (rule sat_bind [OF assms])

lemma sat_post: "sat I G Q J t \<Longrightarrow> (\<And>a s. I s \<Longrightarrow> Q a s \<Longrightarrow> Q' a s) \<Longrightarrow> sat I G Q' J t"
proof (induction rule: sat.induct)
  case (sat_act J f)
  show ?case by (rule sat.sat_act) (use sat_act in fastforce)
qed (auto intro: sat.sat_return)

text \<open>What no other task can undo is still known after a task that does not undo it.\<close>

lemma sat_keep:
  assumes "sat I G Q J t" and "unaffected G K"
  shows "sat I G (\<lambda>a s. Q a s \<and> K s) (\<lambda>s. J s \<and> K s) t"
  using assms(1)
proof (induction rule: sat.induct)
  case (sat_act J f)
  show ?case
  proof (rule sat.sat_act)
    fix s
    assume "I s" "J s \<and> K s"
    with sat_act obtain J' where "I (snd (f s))" "G s (snd (f s))" "unaffected G J'" "J' (snd (f s))"
        "sat I G (\<lambda>a s. Q a s \<and> K s) (\<lambda>s. J' s \<and> K s) (fst (f s))" by blast
    moreover from this assms(2) \<open>J s \<and> K s\<close> have "K (snd (f s))" "unaffected G (\<lambda>s. J' s \<and> K s)"
      unfolding unaffected_def by blast+
    ultimately show "I (snd (f s)) \<and> G s (snd (f s)) \<and> (\<exists>J'. unaffected G J' \<and> J' (snd (f s)) \<and>
        sat I G (\<lambda>a s. Q a s \<and> K s) J' (fst (f s)))" by blast
  qed
qed (auto intro: sat.sat_return)

lemma sat_on_fst:
  fixes t :: "('s, 'a) task"
  assumes "sat I G Q J t"
  shows "sat (\<lambda>s. I (fst s)) (\<lambda>s s'. G (fst s) (fst s')) (\<lambda>a s. Q a (fst s)) (\<lambda>s. J (fst s))
    (on_fst t :: ('s \<times> 'r, 'a) task)"
  using assms
proof (induction rule: sat.induct)
  case (sat_act J f)
  have "\<exists>J'. unaffected (\<lambda>s s'. G (fst s) (fst s')) J' \<and> J' (snd (f (fst s)), snd s) \<and>
      sat (\<lambda>s. I (fst s)) (\<lambda>s s'. G (fst s) (fst s')) (\<lambda>a s. Q a (fst s)) J' (on_fst (fst (f (fst s))))"
    if "I (fst s)" "J (fst s)" for s :: "'s \<times> 'r"
  proof -
    from sat_act(1) [OF that] obtain J' where "unaffected G J'" "J' (snd (f (fst s)))"
      "sat (\<lambda>s. I (fst s)) (\<lambda>s s'. G (fst s) (fst s')) (\<lambda>a s. Q a (fst s)) (\<lambda>s. J' (fst s))
        (on_fst (fst (f (fst s))) :: ('s \<times> 'r, 'a) task)"
      by blast
    then show ?thesis by (intro exI [of _ "\<lambda>s. J' (fst s)"]) (auto simp: unaffected_def)
  qed
  with sat_act(1) show ?case by (auto simp: split_beta intro!: sat.sat_act)
qed (auto intro: sat.sat_return)

text \<open>A pool in order: the invariant holds, and so does what every task knows.\<close>

definition pool_ok :: "('s \<Rightarrow> bool) \<Rightarrow> ('s \<Rightarrow> 's \<Rightarrow> bool) \<Rightarrow> ('a \<Rightarrow> 's \<Rightarrow> bool) \<Rightarrow> ('s, 'a) pool \<Rightarrow> bool" where
  "pool_ok I G Q p = (case p of (ts, s) \<Rightarrow> I s \<and> (\<forall>t \<in> set ts. \<exists>J. unaffected G J \<and> J s \<and> sat I G Q J t))"

locale concurrent =
  fixes I :: "'s \<Rightarrow> bool" and G :: "'s \<Rightarrow> 's \<Rightarrow> bool" and Q :: "'a \<Rightarrow> 's \<Rightarrow> bool" and P :: "('s, 'a) task set"
  assumes task_sat: "t \<in> P \<Longrightarrow> sat I G Q (\<lambda>_. True) t"
begin

lemma pool_step_ok: "pool_step P p p' \<Longrightarrow> pool_ok I G Q p \<Longrightarrow> pool_ok I G Q p'"
proof (induction rule: pool_step.induct)
  case (pool_act i ts f s t s')
  then have ok: "I s" "\<And>t. t \<in> set ts \<Longrightarrow> \<exists>J. unaffected G J \<and> J s \<and> sat I G Q J t"
    by (auto simp: pool_ok_def)
  from ok(2) [of "Act f"] pool_act obtain J where J: "J s" "sat I G Q J (Act f)" by (metis nth_mem)
  from J(2) ok(1) J(1) pool_act(3) have a: "I s'" "G s s'" "\<exists>J'. unaffected G J' \<and> J' s' \<and> sat I G Q J' t"
    by (force elim: sat_ActE)+
  have "\<exists>J. unaffected G J \<and> J s' \<and> sat I G Q J u" if "u \<in> set ts" for u
    using ok(2) [OF that] a(2) unfolding unaffected_def by blast
  with a show ?case by (auto simp: pool_ok_def dest!: subsetD [OF set_update_subset_insert])
next
  case (pool_spawn t ts s)
  have "unaffected G (\<lambda>_. True)" by (simp add: unaffected_def)
  with pool_spawn task_sat show ?case by (fastforce simp: pool_ok_def)
qed

end

sublocale concurrent \<subseteq> pool: preserved "pool_step P" "pool_ok I G Q"
  by unfold_locales (rule pool_step_ok)

context concurrent
begin

text \<open>In every state of every interleaving the invariant holds, and what a task has returned is as it
  promised.\<close>

lemma pool_reach:
  assumes "(pool_step P)\<^sup>*\<^sup>* ([], s0) (ts, s)" and "I s0"
  shows "I s" and "Return a \<in> set ts \<Longrightarrow> Q a s"
proof -
  have ok: "pool_ok I G Q (ts, s)" using pool.reach_inv [OF assms(1)] assms(2) by (simp add: pool_ok_def)
  then show i: "I s" by (simp add: pool_ok_def)
  show "Q a s" if "Return a \<in> set ts"
    using ok that i by (auto simp: pool_ok_def elim!: sat_ReturnE)
qed

end

end
