(* ===== verification/Races.thy ===== *)
theory Races
  imports BillingProps Resumption
begin

text \<open>
  The requests of the API server as tasks that interleave. Each action of a task is what the code
  does while it holds the lock of the memory, or one statement or transaction (the database client
  is behind a mutex), or one send; reading the clock and drawing random values is part of the
  action it precedes. Run alone, a task is the operation of \<open>Sync\<close>, \<open>ApiTasks\<close> or \<open>Handlers\<close> of
  the same name. The reload of the memory and \<open>update_sub\<close> hold the lock of the memory while their
  statements run, so each is one action: what other tasks do to the tables meanwhile they could
  have done just before or just after.
\<close>

section \<open>Operations on connections\<close>

definition add_conn_task :: "ext \<Rightarrow> uuid \<Rightarrow> conn \<Rightarrow> (world, (sync_error, status) outcome) task" where
  "add_conn_task x conn_id c =
    task_bind (atomically (run_db x (\<lambda>fails _. pg_conn_insert fails (x_uuid_str x) (x_v6_str x)
        (conn_row_of conn_id c)))) (\<lambda>r. case r of
      Inl e \<Rightarrow> Return (Err (SDatabase e))
    | Inr _ \<Rightarrow> atomically (\<lambda>w. case conns_add conn_id c (mem_conns w) of (st, m) \<Rightarrow>
        ((case st of
            Ok i \<Rightarrow> Ret (Ok i)
          | AlreadyExist i \<Rightarrow> Ret (Ok i)
          | BadRequest i msg \<Rightarrow> Ret (BadRequest i msg)
          | _ \<Rightarrow> Err (SMemory unexpected)),
         set_conns m w)))"

definition delete_connection_task :: "ext \<Rightarrow> uuid \<Rightarrow> conn \<Rightarrow> (world, (sync_error, status) outcome) task" where
  "delete_connection_task x conn_id c =
    task_bind (atomically (\<lambda>w. (hm_get (mem_conns w) conn_id, w))) (\<lambda>found. case found of
      None \<Rightarrow> Return (Ret (NotFound conn_id))
    | Some existing \<Rightarrow>
        if c_is_deleted existing then Return (Ret (NotModified conn_id))
        else task_bind (atomically (run_db x (\<lambda>fails _. pg_conn_delete fails conn_id))) (\<lambda>r. case r of
            Inl e \<Rightarrow> Return (Err (SDatabase e))
          | Inr _ \<Rightarrow> task_bind (atomically (publish x (conn_topic c) [as_delete_message c conn_id])) (\<lambda>r. case r of
                Inl e \<Rightarrow> Return (Err e)
              | Inr _ \<Rightarrow> atomically (\<lambda>w. (Ret (Ok conn_id), mark True x conn_id w)))))"

definition restore_connection_task :: "ext \<Rightarrow> uuid \<Rightarrow> (world, (sync_error, status) outcome) task" where
  "restore_connection_task x conn_id =
    task_bind (atomically (\<lambda>w. (hm_get (mem_conns w) conn_id, w))) (\<lambda>found. case found of
      None \<Rightarrow> Return (Ret (NotFound conn_id))
    | Some _ \<Rightarrow> task_bind (atomically (run_db x (\<lambda>fails _. pg_conn_restore fails conn_id))) (\<lambda>r. case r of
          Inl e \<Rightarrow> Return (Err (SDatabase e))
        | Inr _ \<Rightarrow> atomically (\<lambda>w. (Ret (Ok conn_id), mark False x conn_id w))))"

definition restore_task_task :: "ext \<Rightarrow> uuid \<times> conn \<Rightarrow> (world, uuid option) task" where
  "restore_task_task x ic = (case ic of (conn_id, c) \<Rightarrow>
     task_bind (atomically (publish x (conn_topic c) [as_update_message c conn_id])) (\<lambda>r. case r of
        Inl _ \<Rightarrow> Return None
      | Inr _ \<Rightarrow> task_bind (restore_connection_task x conn_id) (\<lambda>r. case r of
            Ret (Ok _) \<Rightarrow> Return (Some conn_id)
          | Ret (Updated _) \<Rightarrow> Return (Some conn_id)
          | _ \<Rightarrow> Return None)))"

primrec restore_tasks_task :: "ext \<Rightarrow> (uuid \<times> conn) list \<Rightarrow> (world, uuid list) task" where
  "restore_tasks_task x [] = Return []"
| "restore_tasks_task x (ic # ics) = task_bind (restore_task_task x ic) (\<lambda>r.
     task_bind (restore_tasks_task x ics) (\<lambda>rs. Return (case r of Some i \<Rightarrow> i # rs | None \<Rightarrow> rs)))"

definition restore_connections_task :: "ext \<Rightarrow> uuid \<Rightarrow> (world, (sync_error, uuid list) outcome) task" where
  "restore_connections_task x sub_id =
    task_bind (atomically (\<lambda>w. (conns_to_restore sub_id (mem_conns w), w))) (\<lambda>ics.
    task_bind (restore_tasks_task x ics) (\<lambda>restored. Return (Ret restored)))"

primrec delete_all_task :: "ext \<Rightarrow> (uuid \<times> conn) list \<Rightarrow> (world, unit) task" where
  "delete_all_task x [] = Return ()"
| "delete_all_task x (ic # ics) =
    task_bind (delete_connection_task x (fst ic) (snd ic)) (\<lambda>_. delete_all_task x ics)"

definition cleanup_connections_task :: "ext \<Rightarrow> (world, unit) task" where
  "cleanup_connections_task x =
    task_bind (atomically (\<lambda>w. (expired_conns (utc_now x w) (mem_conns w), tick w))) (delete_all_task x)"

primrec delete_subs_task :: "ext \<Rightarrow> uuid list \<Rightarrow> (world, unit) task" where
  "delete_subs_task x [] = Return ()"
| "delete_subs_task x (i # is) =
    task_bind (atomically (\<lambda>w. (conns_to_delete i (mem_conns w), w))) (\<lambda>ics.
    task_bind (delete_all_task x ics) (\<lambda>_. delete_subs_task x is))"

definition cleanup_subscriptions_task :: "ext \<Rightarrow> (world, unit) task" where
  "cleanup_subscriptions_task x =
    task_bind (atomically (\<lambda>w. filter_subs x Not (mem_subs w) w)) (delete_subs_task x)"

primrec restore_subs_task :: "ext \<Rightarrow> uuid list \<Rightarrow> (world, unit) task" where
  "restore_subs_task x [] = Return ()"
| "restore_subs_task x (i # is) = task_bind (restore_connections_task x i) (\<lambda>_. restore_subs_task x is)"

definition restore_subscriptions_task :: "ext \<Rightarrow> (world, unit) task" where
  "restore_subscriptions_task x =
    task_bind (atomically (\<lambda>w. filter_subs x id (mem_subs w) w)) (restore_subs_task x)"

text \<open>\<open>add_days\<close>: the test, the new expiry in memory, the transaction, the restoration.\<close>

definition add_days_task :: "ext \<Rightarrow> uuid \<Rightarrow> int \<Rightarrow> (world, (sync_error, status) outcome) task" where
  "add_days_task x sub_id days =
    task_bind (atomically (\<lambda>w. (case hm_get (mem_subs w) sub_id of
        Some s \<Rightarrow> \<not> is_active (utc_now x w) s | None \<Rightarrow> False, tick w))) (\<lambda>was_inactive.
    task_bind (atomically (\<lambda>w. case hm_get (mem_subs w) sub_id of
        None \<Rightarrow> (Some (Ret (NotFound sub_id)), w)
      | Some s \<Rightarrow> (case extended_expiry (x_plus_days x) (utc_now x w) days (s_expires_at s) of
          None \<Rightarrow> (Some Panic, w)
        | Some new_expires \<Rightarrow>
            (let w = tick w;
                 s' = snd (set_sub_expires_at (utc_now x w) (utc_now x (tick w)) new_expires s)
             in (None, tick (tick (set_subs (hm_insert sub_id s' (mem_subs w)) w))))))) (\<lambda>early. case early of
      Some answer \<Rightarrow> Return answer
    | None \<Rightarrow> task_bind (atomically (\<lambda>w. case run_db x (\<lambda>fails now. pg_sub_add_days fails
          (x_db_fails x (Suc (w_tick w))) (x_plus_days x) now sub_id days) w of (r, w) \<Rightarrow> (r, tick w))) (\<lambda>r. case r of
        Panic \<Rightarrow> Return Panic
      | Err e \<Rightarrow> Return (Err (SDatabase e))
      | Ret row \<Rightarrow> (if was_inactive
          then task_bind (restore_connections_task x sub_id) (\<lambda>_. Return (Ret (Updated (s_id row))))
          else Return (Ret (Updated (s_id row)))))))"

section \<open>Requests\<close>

text \<open>What \<open>POST /connection\<close> does until it drops the lock of the memory, and the new connection it
  then knows.\<close>

definition create_prepare ::
    "ext \<Rightarrow> conn_create_request \<Rightarrow> ip_addr_mask \<Rightarrow> world \<Rightarrow> ((error, reply) outcome + uuid \<times> conn) \<times> world" where
  "create_prepare x req wg_network w =
    (case requested_expiry (x_plus_days x) (utc_now x w) (map_option uint (cq_days req)) of
       None \<Rightarrow> (Inl Panic, tick w)
     | Some expired_at \<Rightarrow>
        (let w = tick w in
         case sub_check x (cq_subscription_id req) w of
           Some r \<Rightarrow> (Inl (Ret r), tick w)
         | None \<Rightarrow>
            (let w = tick w in
             case new_proto x wg_network (cq_proto req) w of
               (Inl msg, w) \<Rightarrow> (Inl (Ret (internal_error msg)), w)
             | (Inr p, w) \<Rightarrow>
                (let c = conn_new (utc_now x w) (cq_env req) (cq_subscription_id req) p expired_at;
                     w = tick w
                 in (Inr (x_new_uuid x (w_tick w), c), tick w)))))"

text \<open>Once the connection is stored: the message to its subscribers, and the answer.\<close>

definition create_finish :: "ext \<Rightarrow> uuid \<Rightarrow> conn \<Rightarrow> (sync_error, status) outcome \<Rightarrow> (world, (error, reply) outcome) task" where
  "create_finish x conn_id c st = (case st of
        Ret (Ok i) \<Rightarrow> task_bind (atomically (announce x conn_id c)) (\<lambda>r. Return (Ret (case r of
            Inl _ \<Rightarrow> internal_error (''Serialization error: '' @ x_err_str x SRkyvSerialize)
          | Inr _ \<Rightarrow> success_response (''Connection '' @ x_uuid_str x i @ '' has been created'') (Some i)
              (IConnection c))))
      | Ret (AlreadyExist i) \<Rightarrow> Return (Ret (not_modified (''Connection '' @ x_uuid_str x i @ '' already exists'')))
      | Ret (BadRequest i msg) \<Rightarrow> Return (Ret (bad_request (''BadRequest '' @ x_uuid_str x i @ '' '' @ msg)))
      | Ret st \<Rightarrow> Return (Ret (bad_request (''Unsupported operation status: '' @ status_to_string (x_uuid_str x) st)))
      | Err e \<Rightarrow> Return (Ret (internal_error (''Internal error while processing connection '' @ x_uuid_str x conn_id @
          '': '' @ x_err_str x e)))
      | Panic \<Rightarrow> Return Panic)"

definition create_connection_task ::
    "ext \<Rightarrow> conn_create_request \<Rightarrow> ip_addr_mask \<Rightarrow> (world, (error, reply) outcome) task" where
  "create_connection_task x req wg_network =
    task_bind (atomically (create_prepare x req wg_network)) (\<lambda>r. case r of
      Inl answer \<Rightarrow> Return answer
    | Inr (conn_id, c) \<Rightarrow> task_bind (add_conn_task x conn_id c) (create_finish x conn_id c))"

definition delete_finish :: "ext \<Rightarrow> uuid \<Rightarrow> conn \<Rightarrow> (sync_error, status) outcome \<Rightarrow> (error, reply) outcome" where
  "delete_finish x conn_id c st = (case st of
            Ret (Ok i) \<Rightarrow> Ret (success_response
               (''Connection '' @ x_uuid_str x i @ '' has been deleted'') (Some i) (IConnection c))
          | Ret (NotFound i) \<Rightarrow> Ret (not_found (''Connection '' @ x_uuid_str x i @ '' not found''))
          | Ret st \<Rightarrow> Ret (bad_request (''Unsupported operation status: '' @
               status_to_string (x_uuid_str x) st))
          | Err e \<Rightarrow> Ret (internal_error (''Internal error while deleting connection '' @
               x_uuid_str x conn_id @ '': '' @ x_err_str x e))
          | Panic \<Rightarrow> Panic)"

definition delete_connection_handler_task :: "ext \<Rightarrow> uuid \<Rightarrow> (world, (error, reply) outcome) task" where
  "delete_connection_handler_task x conn_id =
    task_bind (atomically (\<lambda>w. (hm_get (mem_conns w) conn_id, w))) (\<lambda>found. case found of
      None \<Rightarrow> Return (Ret (not_found (''Connection '' @ x_uuid_str x conn_id @ '' not found'')))
    | Some c \<Rightarrow>
        if c_is_deleted c
        then Return (Ret (not_found (''Connection '' @ x_uuid_str x conn_id @ '' already is deleted'')))
        else task_bind (delete_connection_task x conn_id c) (\<lambda>st. Return (delete_finish x conn_id c st)))"

definition activate_finish ::
    "ext \<Rightarrow> uuid \<Rightarrow> key \<Rightarrow> (sync_error, status) outcome \<Rightarrow> (world, (error, reply) outcome) task" where
  "activate_finish x sub_id ky st = (case st of
            Ret (Updated _) \<Rightarrow>
              task_bind (atomically (\<lambda>w. let ky = key_activate (utc_now x w) sub_id ky
                in case run_db x (\<lambda>fails now. pg_key_activate fails now ky) (tick w) of (r, w) \<Rightarrow> ((r, ky), w)))
              (\<lambda>(r, ky). Return (Ret (case r of
                Inl e \<Rightarrow> bad_request (''Key activation failed: '' @ x_err_str x (SDatabase e))
              | Inr _ \<Rightarrow> success_response (''Key '' @ x_uuid_str x (k_id ky) @ '' activated'') (Some (k_id ky)) (IKey ky))))
          | Ret (NotFound _) \<Rightarrow> Return (Ret (not_found ''Subscription not found''))
          | Err e \<Rightarrow> Return (Ret (bad_request (''Failed to add days: '' @ x_err_str x e)))
          | Ret _ \<Rightarrow> Return (Ret (not_modified []))
          | Panic \<Rightarrow> Return Panic)"

definition post_activate_key_task :: "ext \<Rightarrow> string \<Rightarrow> uuid \<Rightarrow> (world, (error, reply) outcome) task" where
  "post_activate_key_task x code sub_id =
    task_bind (atomically (run_db x (\<lambda>fails _ d. (pg_key_get fails code d, d)))) (\<lambda>found. case found of
      None \<Rightarrow> Return (Ret (not_found ''Key not found''))
    | Some ky \<Rightarrow>
        if k_activated ky then Return (Ret (bad_request ''Key already activated''))
        else task_bind (add_days_task x sub_id (sint (k_days ky))) (activate_finish x sub_id ky))"

text \<open>The connections of a trial.\<close>

definition trial_conn_task :: "ext \<Rightarrow> ip_addr_mask \<Rightarrow> uuid \<Rightarrow> env \<times> proto_tag \<Rightarrow> (world, string option) task" where
  "trial_conn_task x wg_network sub_id et = (case et of (e, tag) \<Rightarrow>
     task_bind (atomically (\<lambda>w. case new_proto x wg_network tag w of
         (Inl msg, w) \<Rightarrow> (Inl msg, w)
       | (Inr p, w) \<Rightarrow> (Inr (x_new_uuid x (w_tick (tick w)), conn_new (utc_now x w) e (Some sub_id) p None), tick (tick w))))
     (\<lambda>r. case r of
       Inl msg \<Rightarrow> Return (Some msg)
     | Inr (conn_id, c) \<Rightarrow> task_bind (add_conn_task x conn_id c) (\<lambda>st. case st of
         Ret (Ok _) \<Rightarrow> task_bind (atomically (announce x conn_id c)) (\<lambda>r. Return (case r of
             Inl _ \<Rightarrow> Some (''Serialization error: '' @ x_err_str x SRkyvSerialize)
           | Inr _ \<Rightarrow> None))
       | _ \<Rightarrow> Return None)))"

primrec trial_conns_task :: "ext \<Rightarrow> ip_addr_mask \<Rightarrow> uuid \<Rightarrow> (env \<times> proto_tag) list \<Rightarrow> (world, string option) task" where
  "trial_conns_task x wg_network sub_id [] = Return None"
| "trial_conns_task x wg_network sub_id (et # ets) =
    task_bind (trial_conn_task x wg_network sub_id et) (\<lambda>r. case r of
      Some msg \<Rightarrow> Return (Some msg)
    | None \<Rightarrow> trial_conns_task x wg_network sub_id ets)"

definition add_sub_task :: "ext \<Rightarrow> subscription \<Rightarrow> (world, (sync_error, status) outcome) task" where
  "add_sub_task x s =
    task_bind (atomically (run_db x (\<lambda>fails now. pg_sub_create fails now s))) (\<lambda>r. case r of
      Inl e \<Rightarrow> Return (Err (SDatabase e))
    | Inr _ \<Rightarrow> atomically (\<lambda>w. case subs_add s (mem_subs w) of (st, m) \<Rightarrow>
        ((case st of
            Ok i \<Rightarrow> Ret (Ok i)
          | Updated i \<Rightarrow> Ret (Updated i)
          | AlreadyExist i \<Rightarrow> Ret (AlreadyExist i)
          | BadRequest i msg \<Rightarrow> Ret (BadRequest i msg)
          | _ \<Rightarrow> Err (SMemory unexpected)),
         set_subs m w)))"

definition reward_task :: "ext \<Rightarrow> uuid option \<Rightarrow> int \<Rightarrow> (world, (sync_error, unit) outcome) task" where
  "reward_task x sub_id days = (case sub_id of
      None \<Rightarrow> Return (Ret ())
    | Some i \<Rightarrow> task_bind (add_days_task x i days) (\<lambda>r. Return (case r of
        Ret _ \<Rightarrow> Ret ()
      | Err e \<Rightarrow> Err e
      | Panic \<Rightarrow> Panic)))"

definition post_subscription_task ::
    "ext \<Rightarrow> sub_req \<Rightarrow> int \<Rightarrow> string list \<Rightarrow> (world, (error, reply) outcome) task" where
  "post_subscription_task x req bonus system_refer_codes =
    task_bind (atomically (\<lambda>w. ((x_new_uuid x (w_tick w),
        referrer system_refer_codes bonus (q_referred_by req) (mem_subs w)), tick w))) (\<lambda>(sub_id, found).
    case (case q_refer_code req of Some c \<Rightarrow> Some c | None \<Rightarrow> get_uuid_last_octet_simple (x_uuid_str x) sub_id) of
      None \<Rightarrow> Return Panic
    | Some ref_code \<Rightarrow> (case found of
        None \<Rightarrow> Return (Ret (bad_request ''Refer code no found''))
      | Some (bonus_days, sub_id_to_update) \<Rightarrow>
         task_bind (reward_task x sub_id_to_update bonus) (\<lambda>r. case r of
           Panic \<Rightarrow> Return Panic
         | Err e \<Rightarrow> Return (Ret (internal_error (''Couldn'' @ [CHR 0x27] @ ''t create subscription: '' @ x_err_str x e)))
         | Ret _ \<Rightarrow>
            task_bind (atomically (\<lambda>w. case requested_expiry (x_plus_days x) (utc_now x w)
                (map_option (\<lambda>d. i64_add d bonus_days) (q_days req)) of
                  None \<Rightarrow> (None, tick w)
                | Some expires_at \<Rightarrow> (Some (expires_at, utc_now x (tick w)), tick (tick w)))) (\<lambda>r. case r of
              None \<Rightarrow> Return Panic
            | Some (expires_at, created) \<Rightarrow>
               (let s = subscription_new created sub_id (q_referred_by req) ref_code expires_at (q_limit_bytes req)
                in task_bind (add_sub_task x s) (\<lambda>st. Return (case st of
                  Ret (Ok i) \<Rightarrow> Ret (success_response
                     (''Subscription '' @ x_uuid_str x i @ '' has been created'') (Some sub_id) (ISubscription s))
                | Ret (AlreadyExist i) \<Rightarrow> Ret (not_modified (''Subscription '' @ x_uuid_str x i @ '' already exists''))
                | Ret (NotFound i) \<Rightarrow> Ret (not_found (''Subscription '' @ x_uuid_str x i @ '' is not found''))
                | Ret _ \<Rightarrow> Ret (not_modified [])
                | Err e \<Rightarrow> Ret (internal_error (''Internal error while processing subscription '' @
                     x_uuid_str x sub_id @ '': '' @ x_err_str x e))
                | Panic \<Rightarrow> Panic)))))))"

definition add_node_task :: "ext \<Rightarrow> uuid \<Rightarrow> node \<Rightarrow> (world, (sync_error, status) outcome) task" where
  "add_node_task x node_id n =
    task_bind (atomically (run_db x (\<lambda>fails _. pg_node_upsert fails (x_v6_str x) node_id n))) (\<lambda>r. case r of
      Inl e \<Rightarrow> Return (Err (SDatabase e))
    | Inr _ \<Rightarrow> atomically (\<lambda>w. case nodes_add n (mem_nodes w) of (st, m) \<Rightarrow>
        ((case st of
            Ok _ \<Rightarrow> Ret (Ok node_id)
          | AlreadyExist _ \<Rightarrow> Ret (Ok node_id)
          | Updated _ \<Rightarrow> Ret (Ok node_id)
          | NotModified i \<Rightarrow> Ret (NotModified i)
          | _ \<Rightarrow> Err (SMemory unexpected)),
         set_nodes m w)))"

definition sync_node_status_task :: "ext \<Rightarrow> uuid \<Rightarrow> env \<Rightarrow> node_status \<Rightarrow> (world, (sync_error, unit) outcome) task" where
  "sync_node_status_task x u e st =
    task_bind (atomically (\<lambda>w. (nodes_get e u (mem_nodes w), w))) (\<lambda>found. case found of
      None \<Rightarrow> Return (Ret ())
    | Some n \<Rightarrow>
        if n_status n = st then Return (Ret ())
        else task_bind (atomically (run_db x (\<lambda>fails now. pg_node_update_status fails now u (env_to_string e) st)))
          (\<lambda>r. case r of
            Inl er \<Rightarrow> Return (Err (SDatabase er))
          | Inr _ \<Rightarrow> atomically (\<lambda>w. (Ret (), set_nodes (nodes_modify e u (node_update_status st) (mem_nodes w)) w))))"

definition post_node_task :: "ext \<Rightarrow> node_request \<Rightarrow> (world, (error, reply) outcome) task" where
  "post_node_task x req =
    task_bind (atomically (\<lambda>w. (as_node (utc_now x w) req, tick w))) (\<lambda>n.
    task_bind (add_node_task x (nq_uuid req) n) (\<lambda>r. case r of
      Err e \<Rightarrow> Return (Ret (internal_error (''INTERNAL_SERVER_ERROR '' @ x_err_str x e @ '' for '' @
         x_uuid_str x (nq_uuid req))))
    | Panic \<Rightarrow> Return Panic
    | Ret st \<Rightarrow>
       (let ok = (\<lambda>i. task_bind (sync_node_status_task x (nq_uuid req) (n_env n) Online)
              (\<lambda>_. Return (Ret (success_response ''Ok'' (Some i) IId))))
        in case st of
          Ok i \<Rightarrow> ok i
        | AlreadyExist i \<Rightarrow> ok i
        | NotModified i \<Rightarrow> ok i
        | _ \<Rightarrow> Return (Ret (bad_request ''Operation not supported'')))))"

text \<open>\<open>POST /trial\<close> works on the server's state and on the store of trials, which has a lock of its own.
  Only one of the two \<open>save_trial_hmac\<close> at the end has something to save.\<close>

definition post_trial_rest ::
    "ext \<Rightarrow> mail_ext \<Rightarrow> trial_config \<Rightarrow> trial_req \<Rightarrow> (world \<times> email_store, (error, reply) outcome) task" where
  "post_trial_rest x m cfg req =
       task_bind (on_fst (atomically (\<lambda>w. ((x_new_uuid x (w_tick w),
           referrer (tc_system_codes cfg) (tc_bonus cfg) (tr_referred_by req) (mem_subs w)), tick w)))) (\<lambda>(sub_id, found).
         case found of
           None \<Rightarrow> Return (Ret (bad_request ''Refer code not found''))
         | Some (bonus_days, sub_id_to_update) \<Rightarrow>
            task_bind (on_fst (reward_task x sub_id_to_update bonus_days)) (\<lambda>r. case r of
              Panic \<Rightarrow> Return Panic
            | Err e \<Rightarrow> Return (Ret (internal_error (''Couldn'' @ [CHR 0x27] @ ''t add bonus days: '' @ x_err_str x e)))
            | Ret _ \<Rightarrow>
               task_bind (on_fst (atomically (\<lambda>w. ((utc_now x w, utc_now x (tick w)),
                 case (x_plus_days x (utc_now x w) (tc_days cfg), get_uuid_last_octet_simple (x_uuid_str x) sub_id) of
                   (Some _, Some _) \<Rightarrow> tick (tick w) | _ \<Rightarrow> tick w)))) (\<lambda>(now, created).
               case (x_plus_days x now (tc_days cfg), get_uuid_last_octet_simple (x_uuid_str x) sub_id) of
                 (Some expires_at, Some ref_code) \<Rightarrow>
                  task_bind (on_fst (add_sub_task x (subscription_new created sub_id (tr_referred_by req) ref_code
                      (Some expires_at) (Some (tc_limit_bytes cfg))))) (\<lambda>st. case st of
                    Ret (Ok new_sub_id) \<Rightarrow>
                      task_bind (on_fst (trial_conns_task x (tc_network cfg) new_sub_id
                          (List.product (tc_envs cfg) (tc_protos cfg)))) (\<lambda>r. case r of
                        Some msg \<Rightarrow> Return (Ret (internal_error msg))
                      | None \<Rightarrow>
                         (let ref_by = (case tr_referred_by req of Some r \<Rightarrow> r | None \<Rightarrow> ''WEB'')
                          in atomically (\<lambda>ws. (Ret (success_response ''Trial activated. Check email'' (Some sub_id) INone),
                               save_trial x m (tr_email req) sub_id now ref_by
                                 (save_trial x m (tr_user req) sub_id now ref_by ws)))))
                  | Panic \<Rightarrow> Return Panic
                  | _ \<Rightarrow> Return (Ret (internal_error ''Failed to add sub'')))
               | _ \<Rightarrow> Return Panic)))"

definition post_trial_task ::
    "ext \<Rightarrow> mail_ext \<Rightarrow> trial_config \<Rightarrow> trial_req \<Rightarrow> (world \<times> email_store, (error, reply) outcome) task" where
  "post_trial_task x m cfg req =
    (if tr_user req \<noteq> None \<and> tr_email req \<noteq> None then Return (Err (Custom ''Only one param is allowed''))
     else task_bind (atomically (\<lambda>ws. (trial_requested m req (snd ws), ws))) (\<lambda>requested.
       if requested then Return (Ret (bad_request ''Trial already requested'')) else post_trial_rest x m cfg req))"

section \<open>A task alone\<close>

named_theorems alone

lemma add_conn_alone [alone]: "run_task (add_conn_task x i c) w = add_conn x i c w"
  by (simp add: add_conn_task_def add_conn_def split_beta split: sum.split)

lemma delete_connection_alone [alone]: "run_task (delete_connection_task x i c) w = delete_connection x i c w"
  by (simp add: delete_connection_task_def delete_connection_def split_beta split: option.split sum.split)

lemma restore_connection_alone [alone]: "run_task (restore_connection_task x i) w = restore_connection x i w"
  by (simp add: restore_connection_task_def restore_connection_def split_beta split: option.split sum.split)

lemma restore_task_alone [alone]: "run_task (restore_task_task x ic) w = restore_task x ic w"
  by (cases ic) (simp add: restore_task_task_def restore_task_def alone split_beta
      split: sum.split outcome.split status.split)

lemma restore_tasks_alone [alone]: "run_task (restore_tasks_task x ics) w = restore_tasks x ics w"
  by (induction ics arbitrary: w) (simp_all add: alone split_beta Let_def)

lemma restore_connections_alone [alone]:
  "run_task (restore_connections_task x i) w = restore_connections_by_subscription x i w"
  by (simp add: restore_connections_task_def restore_connections_by_subscription_def alone split_beta)

lemma delete_all_alone [alone]: "run_task (delete_all_task x ics) w = ((), delete_all x ics w)"
  by (induction ics arbitrary: w) (simp_all add: alone delete_all_def split_beta)

lemma cleanup_connections_alone [alone]:
  "run_task (cleanup_connections_task x) w = ((), cleanup_expired_connections x w)"
  by (simp add: cleanup_connections_task_def cleanup_expired_connections_def alone Let_def)

lemma add_days_alone [alone]: "run_task (add_days_task x i days) w = add_days x i days w"
  by (simp add: add_days_task_def add_days_def alone split_beta Let_def split: option.split outcome.split)

lemma create_connection_alone [alone]:
  "run_task (create_connection_task x req net) w = create_connection_handler x req net w"
  by (simp add: create_connection_task_def create_finish_def create_prepare_def create_connection_handler_def alone split_beta Let_def
      split: option.split sum.split outcome.split status.split)

lemma delete_handler_alone [alone]:
  "run_task (delete_connection_handler_task x i) w = delete_connection_handler x i w"
  by (simp add: delete_connection_handler_task_def delete_finish_def delete_connection_handler_def alone split_beta
      split: option.split outcome.split status.split)

lemma activate_alone [alone]: "run_task (post_activate_key_task x code i) w = post_activate_key_handler x code i w"
  by (simp add: post_activate_key_task_def activate_finish_def post_activate_key_handler_def alone split_beta Let_def
      split: option.split outcome.split status.split sum.split)

lemma trial_conn_alone [alone]: "run_task (trial_conn_task x net i et) w = trial_conn x net i et w"
  by (cases et) (simp add: trial_conn_task_def trial_conn_def alone split_beta Let_def
      split: outcome.split status.split sum.split)

lemma trial_conns_alone [alone]: "run_task (trial_conns_task x net i ets) w = trial_conns x net i ets w"
  by (induction ets arbitrary: w) (simp_all add: alone split_beta split: option.split)

lemma add_sub_alone [alone]: "run_task (add_sub_task x s) w = add_sub x s w"
  by (simp add: add_sub_task_def add_sub_def split_beta split: sum.split)

lemma reward_alone [alone]: "run_task (reward_task x i days) w = reward x i days w"
  by (simp add: reward_task_def reward_def alone split_beta split: option.split outcome.split)

lemma post_trial_alone [alone]: "run_task (post_trial_task x m cfg req) ws = post_trial_handler x m cfg req ws"
  by (cases ws) (simp add: post_trial_task_def post_trial_rest_def post_trial_handler_def alone split_beta Let_def
      split: option.split outcome.split status.split)

lemma cleanup_subscriptions_alone [alone]:
  "run_task (cleanup_subscriptions_task x) w = ((), cleanup_expired_subscriptions x w)"
proof -
  have "run_task (delete_subs_task x is) w =
      ((), fold (\<lambda>sub_id w. delete_all x (conns_to_delete sub_id (mem_conns w)) w) is w)" for "is" w
    by (induction "is" arbitrary: w) (simp_all add: alone)
  then show ?thesis by (simp add: cleanup_subscriptions_task_def cleanup_expired_subscriptions_def split_beta)
qed

lemma restore_subscriptions_alone [alone]:
  "run_task (restore_subscriptions_task x) w = ((), restore_subscriptions x w)"
proof -
  have "run_task (restore_subs_task x is) w =
      ((), fold (\<lambda>sub_id w. snd (restore_connections_by_subscription x sub_id w)) is w)" for "is" w
    by (induction "is" arbitrary: w) (simp_all add: alone split_beta)
  then show ?thesis by (simp add: restore_subscriptions_task_def restore_subscriptions_def split_beta)
qed

lemma post_subscription_alone [alone]:
  "run_task (post_subscription_task x req bonus codes) w = post_subscription_handler x req bonus codes w"
  by (simp add: post_subscription_task_def post_subscription_handler_def alone split_beta Let_def
      split: option.split outcome.split status.split)

lemma add_node_alone [alone]: "run_task (add_node_task x i n) w = add_node x i n w"
  by (simp add: add_node_task_def add_node_def split_beta split: sum.split)

lemma sync_node_status_alone [alone]: "run_task (sync_node_status_task x u e st) w = sync_node_status x u e st w"
  by (simp add: sync_node_status_task_def sync_node_status_def split_beta split: option.split sum.split)

lemma post_node_alone [alone]: "run_task (post_node_task x req) w = post_node_handler x req w"
  by (simp add: post_node_task_def post_node_handler_def alone split_beta Let_def split: outcome.split status.split)

section \<open>The server\<close>

text \<open>A pool has requests, which end with an answer, and rounds of the background tasks, which do not.
  What the code does under one lock, or in one statement, is one action: the handlers at the end, and
  the reload.\<close>

definition answered :: "('s, 'a) task \<Rightarrow> ('s, 'a option) task" where
  "answered t = task_bind t (\<lambda>a. Return (Some a))"

definition silent :: "('s, 'b) task \<Rightarrow> ('s, 'a option) task" where
  "silent t = task_bind t (\<lambda>_. Return None)"

type_synonym server_task = "(world \<times> email_store, (error, reply) outcome option) task"

inductive_set server_tasks :: "ext \<Rightarrow> codec \<Rightarrow> mail_ext \<Rightarrow> server_task set" for x k m where
  task_create: "answered (on_fst (create_connection_task x cq net)) \<in> server_tasks x k m"
| task_remove: "answered (on_fst (delete_connection_handler_task x i)) \<in> server_tasks x k m"
| task_post_sub: "answered (on_fst (post_subscription_task x sq bonus codes)) \<in> server_tasks x k m"
| task_activate: "answered (on_fst (post_activate_key_task x code i)) \<in> server_tasks x k m"
| task_trial: "answered (post_trial_task x m cfg tq) \<in> server_tasks x k m"
| task_node: "answered (on_fst (post_node_task x nq)) \<in> server_tasks x k m"
| task_cleanup_conns: "silent (on_fst (cleanup_connections_task x)) \<in> server_tasks x k m"
| task_cleanup_subs: "silent (on_fst (cleanup_subscriptions_task x)) \<in> server_tasks x k m"
| task_restore_subs: "silent (on_fst (restore_subscriptions_task x)) \<in> server_tasks x k m"
| task_sync: "answered (on_fst (atomically (get_connections_handler x ct))) \<in> server_tasks x k m"
| task_put_sub: "answered (on_fst (atomically (put_subscription_handler x i sq))) \<in> server_tasks x k m"
| task_validate: "answered (on_fst (atomically (get_key_validate_handler x k code secret))) \<in> server_tasks x k m"
| task_post_key: "answered (on_fst (atomically (post_key_handler x k days dist secret))) \<in> server_tasks x k m"
| task_reload: "silent (on_fst (atomically (get_state_from_db x))) \<in> server_tasks x k m"
| task_time: "silent (on_fst (atomically (\<lambda>w. ((), tick w)))) \<in> server_tasks x k m"

lemma run_answered [simp]: "run_task (answered t) s = map_prod Some id (run_task t s)"
  by (simp add: answered_def split_beta map_prod_def)

lemma run_silent [simp]: "run_task (silent t) s = (None, snd (run_task t s))"
  by (simp add: silent_def split_beta)

text \<open>Every step of the server of \<open>HandlerInv\<close> is one of these tasks, run alone.\<close>

lemma srv_step_task:
  assumes "srv_step x k m ws ws'"
  obtains t where "t \<in> server_tasks x k m" "snd (run_task t ws) = ws'"
proof -
  have "\<exists>t \<in> server_tasks x k m. snd (run_task t ws) = ws'"
    using assms by cases (rule server_tasks.intros [THEN rev_bexI], simp add: alone split_beta; fail)+
  then show ?thesis using that by blast
qed

lemma srv_step_pool:
  assumes "srv_step x k m ws ws'"
  shows "\<exists>a. (pool_step (server_tasks x k m))\<^sup>*\<^sup>* (ts, ws) (ts @ [Return a], ws')"
proof -
  obtain t where t: "t \<in> server_tasks x k m" "snd (run_task t ws) = ws'" by (rule srv_step_task [OF assms])
  have "pool_step (server_tasks x k m) (ts, ws) (ts @ [t], ws)" using t(1) by (rule pool_spawn)
  moreover obtain n where "schedule (replicate n (length ts)) (ts @ [t], ws) = (ts @ [Return (fst (run_task t ws))], ws')"
    using schedule_alone [of "length ts" "ts @ [t]" t ws] t(2) by auto
  then have "(pool_step (server_tasks x k m))\<^sup>*\<^sup>* (ts @ [t], ws) (ts @ [Return (fst (run_task t ws))], ws')"
    by (metis schedule_reach)
  ultimately show ?thesis by (meson converse_rtranclp_into_rtranclp)
qed

end
