(* ===== verification/RaceProps.thy ===== *)
theory RaceProps
  imports Races
begin

text \<open>
  What interleaving the server's requests keeps and what it does not. Kept: every connection in memory
  has its row, no connection or row is lost, and a connection a client was told of is there. Not
  kept: two requests that interleave can be given the same WireGuard address, spend the same key or
  get two trials for one address, and a deletion and a restoration can leave memory and table apart.
\<close>

section \<open>What every action keeps\<close>

text \<open>What a connection's row says of it, apart from the flag of deletion and the time of the last
  change.\<close>

definition core :: "ext \<Rightarrow> uuid \<Rightarrow> conn \<Rightarrow> conn_columns" where
  "core x i c = row_core (columns_of_row (x_v6_str x) (conn_row_of i c))"

definition stored :: "ext \<Rightarrow> uuid \<Rightarrow> conn \<Rightarrow> world \<Rightarrow> bool" where
  "stored x i c w = (\<exists>t. hm_get (db_table w) i = Some t \<and> row_core t = core x i c)"

definition known :: "ext \<Rightarrow> uuid \<Rightarrow> conn \<Rightarrow> world \<Rightarrow> bool" where
  "known x i c w = (\<exists>d. hm_get (mem_conns w) i = Some d \<and> core x i d = core x i c)"

definition conc_inv :: "ext \<Rightarrow> world \<Rightarrow> bool" where
  "conc_inv x w = (ext_ok x \<and> hm_wf (mem_conns w) \<and> hm_wf (db_table w) \<and> rows_ok (x_v6_str x) (w_db w) \<and>
     (\<forall>i c. hm_get (mem_conns w) i = Some c \<longrightarrow> stored x i c w))"

definition conc_guar :: "ext \<Rightarrow> world \<Rightarrow> world \<Rightarrow> bool" where
  "conc_guar x w w' = (\<forall>i c. (stored x i c w \<longrightarrow> stored x i c w') \<and> (known x i c w \<longrightarrow> known x i c w'))"

definition kept :: "ext \<Rightarrow> world \<Rightarrow> world \<Rightarrow> bool" where
  "kept x w w' = (conc_inv x w' \<and> conc_guar x w w')"

lemma stable_facts [simp, intro]: "unaffected (conc_guar x) (known x i c)" "unaffected (conc_guar x) (stored x i c)"
  "unaffected (conc_guar x) (\<lambda>_. True)"
  by (auto simp: unaffected_def conc_guar_def)

lemma srv_conc_inv: "srv_inv x w \<Longrightarrow> ext_ok x \<Longrightarrow> conc_inv x w"
  by (auto simp: srv_inv_def api_inv_def conc_inv_def db_wf_def stored_def core_def conn_backed_def
      dest: conns_okD split: option.splits)

lemma kept_same:
  assumes "conc_inv x w" and "mem_conns w' = mem_conns w" and "db_table w' = db_table w"
  shows "kept x w w'"
  using assms by (auto simp: kept_def conc_inv_def conc_guar_def stored_def known_def rows_ok_def)

lemma kept_insert:
  assumes "conc_inv x w" and "run_db x (\<lambda>fails _. pg_conn_insert fails (x_uuid_str x) (x_v6_str x) (conn_row_of i c)) w = (r, w')"
  shows "kept x w w'" and "r = Inr u \<Longrightarrow> stored x i c w'"
proof -
  have d: "w_db w' = snd (pg_conn_insert (x_db_fails x (w_tick w)) (x_uuid_str x) (x_v6_str x) (conn_row_of i c) (w_db w))"
    and m: "w_mem w' = w_mem w"
    and r: "r = fst (pg_conn_insert (x_db_fails x (w_tick w)) (x_uuid_str x) (x_v6_str x) (conn_row_of i c) (w_db w))"
    using run_dbD [OF assms(2)] by (auto simp: prod_eq_iff)
  have st: "stored x j e w \<Longrightarrow> stored x j e w'" for j e
    by (auto simp: stored_def d pg_conn_insert_conns)
  moreover have "hm_wf (db_table w')"
    using assms(1) by (auto simp: d conc_inv_def pg_conn_insert_def split: option.splits)
  ultimately show "kept x w w'"
    using assms(1) by (auto simp: kept_def conc_inv_def conc_guar_def m known_def d rows_ok_insert)
  show "stored x i c w'" if "r = Inr u"
    using that by (auto simp: r d stored_def core_def pg_conn_insert_def conn_row_of_def split: if_splits option.splits)
qed

lemma kept_flag:
  assumes "conc_inv x w" and "mem_conns w' = mem_conns w"
    and "w_db w' = (w_db w)\<lparr>db_conns := hm_modify i (\<lambda>t. t\<lparr>t_is_deleted := b\<rparr>) (db_table w)\<rparr>"
  shows "kept x w w'"
proof -
  have st: "stored x j e w \<longleftrightarrow> stored x j e w'" for j e
    by (auto simp: stored_def assms(3) split: if_splits)
  moreover have "rows_ok (x_v6_str x) (w_db w')"
    using assms(1) by (auto simp: conc_inv_def rows_ok_def assms(3) split: if_splits)
  ultimately show ?thesis
    using assms by (auto simp: kept_def conc_inv_def conc_guar_def known_def)
qed

lemma kept_mark:
  assumes "conc_inv x w" shows "kept x w (mark b x i w)"
proof -
  have m: "core x j (set_modified_at t (set_deleted b c)) = core x j c" for j t c
    unfolding core_def by (rule row_core_marked [OF markedI])
  have k: "known x j e w \<Longrightarrow> known x j e (mark b x i w)" for j e
    by (auto simp: known_def mark_def m)
  have "stored x j e (mark b x i w) \<longleftrightarrow> stored x j e w" for j e by (simp add: stored_def mark_def)
  moreover have "stored x j e w" if "hm_get (mem_conns (mark b x i w)) j = Some e" for j e
    using that assms by (auto simp: mark_def conc_inv_def stored_def m split: if_splits)
  ultimately show ?thesis
    using assms k by (auto simp: kept_def conc_inv_def conc_guar_def mark_def)
qed

lemma kept_cache:
  assumes "conc_inv x w" and "stored x i c w"
  shows "kept x w (set_conns (snd (conns_add i c (mem_conns w))) w)" (is "kept x w ?w")
    and "known x i c (set_conns (snd (conns_add i c (mem_conns w))) w)"
proof -
  have st: "stored x j e ?w \<longleftrightarrow> stored x j e w" for j e by (simp add: stored_def)
  have g: "hm_get (mem_conns ?w) j = (if j = i \<and> hm_get (mem_conns w) i = None then Some c else hm_get (mem_conns w) j)" for j
    by (auto simp: conns_add_def split: option.splits)
  have k: "known x j e w \<Longrightarrow> known x j e ?w" for j e
    unfolding known_def g by auto
  show "kept x w ?w"
    using assms k st g by (auto simp: kept_def conc_inv_def conc_guar_def split: if_splits)
  show "known x i c ?w"
  proof (cases "hm_get (mem_conns w) i")
    case (Some d)
    with assms have "stored x i d w" by (simp add: conc_inv_def)
    with assms(2) have "core x i d = core x i c" by (auto simp: stored_def)
    with Some show ?thesis unfolding known_def g by auto
  qed (unfold known_def g, simp)
qed

lemma kept_reload:
  assumes "conc_inv x w" shows "kept x w (snd (get_state_from_db x w))"
proof (cases "get_state_from_db x w")
  case (Pair r w')
  then show ?thesis
  proof (cases rule: get_state_cases)
    case (failed e)
    then show ?thesis using Pair kept_same [OF assms] by simp
  next
    case (loaded ns cs ss rows)
    have g: "get_state_from_db x w = (Inr (), w')" and wf: "hm_wf (db_table w)"
      using Pair loaded assms by (auto simp: conc_inv_def)
    note get = get_state_conns [OF g wf] and dom = get_state_conns_dom [OF g wf]
    have st: "stored x j e w' \<longleftrightarrow> stored x j e w" for j e by (simp add: stored_def loaded(2))
    have src: "stored x j e w'" if "hm_get (mem_conns w') j = Some e" for j e
    proof -
      from that obtain t where t: "hm_get (db_table w) j = Some t" "conn_of_row (row_of_columns (x_v6_parse x) j t) = Inr e"
        using get(2) by blast
      with assms obtain c0 where "row_core t = row_core (columns_of_row (x_v6_str x) (conn_row_of j c0))"
        unfolding conc_inv_def rows_ok_def by blast
      then have "core x j e = row_core t"
        unfolding core_def using row_core_reload [OF _ _ t(2)] assms by (simp add: conc_inv_def ext_ok_def)
      with t(1) show ?thesis by (simp add: stored_def loaded(2))
    qed
    have "known x j e w'" if "known x j e w" for j e
    proof -
      from that obtain d where d: "hm_get (mem_conns w) j = Some d" "core x j d = core x j e" by (auto simp: known_def)
      with assms have s: "stored x j d w" by (simp add: conc_inv_def)
      then obtain d' where d': "hm_get (mem_conns w') j = Some d'" using dom [of j] by (auto simp: stored_def)
      with src [of j d'] s st have "core x j d' = core x j d" by (auto simp: stored_def)
      with d d' show ?thesis by (auto simp: known_def)
    qed
    with assms st src get(1) loaded(2) Pair show ?thesis
      by (auto simp: kept_def conc_inv_def conc_guar_def)
  qed
qed

section \<open>What every task keeps\<close>

abbreviation csat :: "ext \<Rightarrow> ('a \<Rightarrow> world \<Rightarrow> bool) \<Rightarrow> (world \<Rightarrow> bool) \<Rightarrow> (world, 'a) task \<Rightarrow> bool" where
  "csat x \<equiv> sat (conc_inv x) (conc_guar x)"

abbreviation safe :: "ext \<Rightarrow> (world, 'a) task \<Rightarrow> bool" where
  "safe x t \<equiv> csat x (\<lambda>_ _. True) (\<lambda>_. True) t"

named_theorems task_safe

lemma csat_atomically:
  assumes "\<And>w. conc_inv x w \<Longrightarrow> J w \<Longrightarrow> kept x w (snd (f w)) \<and> Q (fst (f w)) (snd (f w))"
    and "\<And>a. unaffected (conc_guar x) (Q a)"
  shows "csat x Q J (atomically f)"
  using assms by (intro sat_atomically) (auto simp: kept_def)

lemma safe_return [task_safe]: "csat x (\<lambda>_ _. True) J (Return a)"
  by (rule sat_return) simp

lemma safe_same [task_safe]:
  assumes "\<And>w. mem_conns (snd (f w)) = mem_conns w \<and> db_table (snd (f w)) = db_table w"
  shows "csat x (\<lambda>_ _. True) J (atomically f)"
  by (rule csat_atomically) (auto intro: kept_same simp: assms)

lemma csat_add_conn:
  "csat x (\<lambda>r w. case r of Ret (Ok j) \<Rightarrow> j = i \<and> known x i c w | _ \<Rightarrow> True) (\<lambda>_. True) (add_conn_task x i c)"
  (is "csat x ?Q _ _")
proof -
  let ?S = "\<lambda>r w. case r of Inr _ \<Rightarrow> stored x i c w | Inl _ \<Rightarrow> True"
  have st: "unaffected (conc_guar x) (?Q r)" for r
    by (cases r) (auto simp: unaffected_def conc_guar_def split: status.splits)
  have st': "unaffected (conc_guar x) (?S r)" for r :: "error + unit"
    by (cases r) auto
  have ins: "csat x ?S (\<lambda>_. True) (atomically (run_db x (\<lambda>fails _. pg_conn_insert fails (x_uuid_str x) (x_v6_str x)
      (conn_row_of i c))))"
    by (rule csat_atomically [OF _ st']) (auto split: sum.split intro: kept_insert [OF _ surjective_pairing])
  have cache: "csat x ?Q (stored x i c) (atomically (\<lambda>w. case conns_add i c (mem_conns w) of (st, m) \<Rightarrow>
        ((case st of Ok i \<Rightarrow> Ret (Ok i) | AlreadyExist i \<Rightarrow> Ret (Ok i) | BadRequest i msg \<Rightarrow> Ret (BadRequest i msg)
          | _ \<Rightarrow> Err (SMemory unexpected)), set_conns m w)))"
  proof (rule csat_atomically [OF _ st], goal_cases)
    case (1 w)
    obtain s m where a: "conns_add i c (mem_conns w) = (s, m)" by force
    then have "s = Ok i \<or> s = AlreadyExist i" by (auto simp: conns_add_def split: option.splits)
    with kept_cache [OF 1] a show ?case by auto
  qed
  show ?thesis
    unfolding add_conn_task_def
    by (rule sat_bind [OF ins]) (auto simp: cache split: sum.split intro: sat_return)
qed

lemma csat_delete:
  "csat x (\<lambda>r _. case r of Ret (Ok j) \<Rightarrow> j = i | _ \<Rightarrow> True) J (delete_connection_task x i c)"
proof -
  let ?Q = "\<lambda>(r :: (sync_error, status) outcome) (_ :: world). case r of Ret (Ok j) \<Rightarrow> j = i | _ \<Rightarrow> True"
  have row: "csat x (\<lambda>_ _. True) (\<lambda>_. True) (atomically (run_db x (\<lambda>fails _. pg_conn_delete fails i)))"
    by (rule csat_atomically)
       (auto simp: pg_conn_delete_def run_db_def split_beta intro: kept_flag kept_same)
  have m: "csat x ?Q (\<lambda>_. True) (atomically (\<lambda>w. (Ret (Ok i), mark True x i w)))"
    by (rule csat_atomically) (auto intro: kept_mark simp: unaffected_def)
  have p: "csat x ?Q (\<lambda>_. True) (task_bind (atomically (publish x t msg)) (\<lambda>r. case r of
      Inl e \<Rightarrow> Return (Err e) | Inr _ \<Rightarrow> atomically (\<lambda>w. (Ret (Ok i), mark True x i w))))" for t msg
    by (rule sat_seq [OF safe_same]) (auto simp: publish_def m split: sum.split intro: sat_return)
  have d: "csat x ?Q (\<lambda>_. True) (task_bind (atomically (run_db x (\<lambda>fails _. pg_conn_delete fails i))) (\<lambda>r. case r of
      Inl e \<Rightarrow> Return (Err (SDatabase e)) | Inr _ \<Rightarrow> task_bind (atomically (publish x t msg)) (\<lambda>r. case r of
        Inl e \<Rightarrow> Return (Err e) | Inr _ \<Rightarrow> atomically (\<lambda>w. (Ret (Ok i), mark True x i w)))))" for t msg
    by (rule sat_seq [OF row]) (auto simp: p split: sum.split intro: sat_return)
  show ?thesis
    unfolding delete_connection_task_def
    by (rule sat_seq [OF safe_same]) (auto simp: d split: option.split intro: sat_return)
qed

lemma safe_post: "csat x Q (\<lambda>_. True) t \<Longrightarrow> csat x (\<lambda>_ _. True) J t"
  by (rule sat_weaken [OF sat_post]) simp_all

lemmas safe_add_conn [task_safe] = safe_post [OF csat_add_conn] and safe_delete [task_safe] = safe_post [OF csat_delete]

lemma safe_mark [task_safe]: "csat x (\<lambda>_ _. True) J (atomically (\<lambda>w. (a, mark b x i w)))"
  by (rule csat_atomically) (auto intro: kept_mark)

lemma safe_restore_row [task_safe]: "csat x (\<lambda>_ _. True) J (atomically (run_db x (\<lambda>fails _. pg_conn_restore fails i)))"
  by (rule csat_atomically) (auto simp: pg_conn_restore_def run_db_def split_beta intro: kept_flag kept_same)

lemma safe_reload [task_safe]: "csat x (\<lambda>_ _. True) J (atomically (get_state_from_db x))"
  by (rule csat_atomically) (auto intro: kept_reload)

lemma safe_publish [task_safe]: "csat x (\<lambda>_ _. True) J (atomically (publish x t msg))"
  by (rule safe_same) (simp add: publish_def)

lemma same_announce: "mem_conns (snd (announce x i c w)) = mem_conns w \<and> db_table (snd (announce x i c w)) = db_table w"
  by (simp add: announce_def publish_def split: option.split)

lemma same_new_proto: "mem_conns (snd (new_proto x net tag w)) = mem_conns w \<and> db_table (snd (new_proto x net tag w)) = db_table w"
  by (simp add: new_proto_def)

text \<open>A task made of safe pieces is safe.\<close>

lemma safe_restore [task_safe]: "csat x (\<lambda>_ _. True) J (restore_connection_task x i)"
  unfolding restore_connection_task_def
  by (rule sat_seq [OF safe_same]) (auto split: option.split sum.split intro!: sat_seq task_safe)

lemma safe_restore_task [task_safe]: "csat x (\<lambda>_ _. True) J (restore_task_task x ic)"
  by (auto simp: restore_task_task_def split: prod.split sum.split outcome.split status.split intro!: sat_seq task_safe)

lemma safe_restore_tasks [task_safe]: "csat x (\<lambda>_ _. True) J (restore_tasks_task x ics)"
  by (induction ics arbitrary: J) (auto intro!: sat_seq task_safe)

lemma safe_restore_connections [task_safe]: "csat x (\<lambda>_ _. True) J (restore_connections_task x i)"
  unfolding restore_connections_task_def by (rule sat_seq [OF safe_same]) (auto intro!: sat_seq task_safe)

lemma safe_delete_all [task_safe]: "csat x (\<lambda>_ _. True) J (delete_all_task x ics)"
  by (induction ics arbitrary: J) (auto intro!: sat_seq task_safe)

lemma safe_rounds [task_safe]:
  "csat x (\<lambda>_ _. True) J (cleanup_connections_task x)" "csat x (\<lambda>_ _. True) J (cleanup_subscriptions_task x)"
  "csat x (\<lambda>_ _. True) J (restore_subscriptions_task x)"
proof -
  have "csat x (\<lambda>_ _. True) J (delete_subs_task x is)" for "is" J
    by (induction "is" arbitrary: J) (auto intro!: sat_seq [OF safe_same] sat_seq [OF safe_delete_all] task_safe)
  moreover have "csat x (\<lambda>_ _. True) J (restore_subs_task x is)" for "is" J
    by (induction "is" arbitrary: J) (auto intro!: sat_seq task_safe)
  ultimately show "csat x (\<lambda>_ _. True) J (cleanup_connections_task x)" "csat x (\<lambda>_ _. True) J (cleanup_subscriptions_task x)"
      "csat x (\<lambda>_ _. True) J (restore_subscriptions_task x)"
    unfolding cleanup_connections_task_def cleanup_subscriptions_task_def restore_subscriptions_task_def
    by (auto intro!: sat_seq [OF safe_same] task_safe simp: filter_subs_frame)
qed

lemma safe_add_days [task_safe]: "csat x (\<lambda>_ _. True) J (add_days_task x i days)"
  unfolding add_days_task_def
  apply (rule sat_seq [OF safe_same], simp)
  apply (rule sat_seq [OF safe_same], simp add: Let_def split: option.split)
  apply (simp split: option.split, intro conjI impI allI)
   apply (rule sat_seq [OF safe_same], simp add: split_beta)
   apply (auto split: outcome.split intro!: sat_seq task_safe)
  done

section \<open>Answers\<close>

text \<open>An answer that names a connection: it is in memory under the identifier given.\<close>

definition ans_ok :: "ext \<Rightarrow> (error, reply) outcome \<Rightarrow> world \<Rightarrow> bool" where
  "ans_ok x a w = (case a of
      Ret r \<Rightarrow> (case r_response r of Some (i, IConnection c) \<Rightarrow> known x i c w | _ \<Rightarrow> True)
    | _ \<Rightarrow> True)"

lemma ans_ok_stable: "unaffected (conc_guar x) (ans_ok x a)"
  by (cases a) (auto simp: ans_ok_def unaffected_def conc_guar_def split: option.splits instance_data.splits)

lemma ans_ok_simps [simp]: "ans_ok x Panic w" "ans_ok x (Err e) w" "ans_ok x (Ret (bad_request s)) w"
  "ans_ok x (Ret (not_found s)) w" "ans_ok x (Ret (not_modified s)) w" "ans_ok x (Ret (internal_error s)) w"
  "ans_ok x (Ret (success_response s (Some i) (IConnection c))) w = known x i c w"
  "ans_ok x (Ret (success_response s u (IKey k))) w" "ans_ok x (Ret (success_response s u (ISubscription sb))) w"
  "ans_ok x (Ret (success_response s u (ICount n))) w" "ans_ok x (Ret (success_response s u IId)) w"
  "ans_ok x (Ret (success_response s u INone)) w"
  by (simp_all add: ans_ok_def reply_defs)

lemma csat_return: "(\<And>w. J w \<Longrightarrow> Q a w) \<Longrightarrow> csat x Q J (Return a)"
  by (rule sat_return)

lemma same_create_prepare:
  "mem_conns (snd (create_prepare x req net w)) = mem_conns w \<and> db_table (snd (create_prepare x req net w)) = db_table w"
  using same_new_proto [of x net "cq_proto req"]
  by (auto simp: create_prepare_def Let_def split_beta split: option.split sum.split)

lemma create_prepare_ans:
  assumes "fst (create_prepare x req net w) = Inl a"
  shows "ans_ok x a w'"
proof -
  have "ans_ok x (Ret r) w'" if "sub_check x i v = Some r" for i v r
    using that by (auto simp: sub_check_def split: option.splits if_splits)
  then show ?thesis
    using assms by (auto simp: create_prepare_def Let_def split_beta split: option.splits sum.splits)
qed

lemma known_announce: "known x i c (snd (announce x j d w)) = known x i c w"
  by (simp add: known_def same_announce)

lemma csat_create_finish:
  "csat x (ans_ok x) (\<lambda>w. case st of Ret (Ok j) \<Rightarrow> j = i \<and> known x i c w | _ \<Rightarrow> True) (create_finish x i c st)"
proof (cases "st = Ret (Ok i)")
  case True
  have "csat x (\<lambda>_ w. known x i c w) (\<lambda>w. known x i c w) (atomically (announce x i c))"
    using same_announce by (intro csat_atomically) (auto intro: kept_same simp: known_announce)
  with True show ?thesis
    unfolding create_finish_def by (auto intro!: sat_bind split: sum.split)
next
  case False
  show ?thesis
  proof (cases st)
    case (Ret s)
    with False show ?thesis by (cases s) (simp_all add: create_finish_def sat_vacuous)
  qed (simp_all add: create_finish_def)
qed

lemma csat_create: "csat x (ans_ok x) (\<lambda>_. True) (create_connection_task x req net)"
proof -
  have "csat x (\<lambda>r _. case r of Inl a \<Rightarrow> \<forall>w. ans_ok x a w | Inr _ \<Rightarrow> True) (\<lambda>_. True)
      (atomically (create_prepare x req net))"
    using same_create_prepare create_prepare_ans
    by (intro csat_atomically) (auto intro!: kept_same simp: unaffected_def split: sum.split)
  then show ?thesis
    unfolding create_connection_task_def
    by (rule sat_bind) (auto intro!: sat_bind [OF csat_add_conn csat_create_finish] split: sum.split)
qed

lemma csat_delete_handler: "csat x (ans_ok x) (\<lambda>_. True) (delete_connection_handler_task x i)"
proof -
  have read: "csat x (\<lambda>found w. case found of Some c \<Rightarrow> known x i c w | None \<Rightarrow> True) (\<lambda>_. True)
      (atomically (\<lambda>w. (hm_get (mem_conns w) i, w)))"
  proof (rule csat_atomically)
    show "unaffected (conc_guar x) (\<lambda>w. case found of Some c \<Rightarrow> known x i c w | None \<Rightarrow> True)" for found
      by (cases found) auto
  qed (auto intro: kept_same simp: known_def split: option.split)
  have ok: "ans_ok x (delete_finish x i c st) w"
    if "case st of Ret (Ok j) \<Rightarrow> j = i | _ \<Rightarrow> True" "known x i c w" for c st w
  proof (cases st)
    case (Ret s)
    with that show ?thesis by (cases s) (simp_all add: delete_finish_def)
  qed (simp_all add: delete_finish_def)
  have "csat x (ans_ok x) (known x i c) (task_bind (delete_connection_task x i c) (\<lambda>st. Return (delete_finish x i c st)))" for c
    using sat_keep [OF csat_delete [of x i "\<lambda>_. True" c], of "known x i c"]
    by (intro sat_bind) (auto simp: ok)
  then show ?thesis
    unfolding delete_connection_handler_task_def
    by (intro sat_bind [OF read]) (auto split: option.split)
qed

lemma csat_activate: "csat x (ans_ok x) (\<lambda>_. True) (post_activate_key_task x code i)"
  unfolding post_activate_key_task_def activate_finish_def
  by (rule sat_seq [OF safe_same], simp)
     (auto split: option.split outcome.split status.split sum.split intro!: sat_seq [OF safe_add_days] sat_seq [OF safe_same]
       simp: Let_def split_beta)

lemma safe_add_sub [task_safe]: "csat x (\<lambda>_ _. True) J (add_sub_task x s)"
  unfolding add_sub_task_def
  by (rule sat_seq [OF safe_same]) (auto split: sum.split intro!: safe_same simp: split_beta)

lemma safe_reward [task_safe]: "csat x (\<lambda>_ _. True) J (reward_task x i days)"
  by (auto simp: reward_task_def split: option.split intro!: sat_seq task_safe)

lemma safe_trial_conn [task_safe]: "csat x (\<lambda>_ _. True) J (trial_conn_task x net i et)"
  using same_new_proto [of x net] same_announce
  by (auto simp: trial_conn_task_def split_beta split: prod.split sum.split outcome.split status.split
      intro!: sat_seq [OF safe_same] sat_seq [OF safe_add_conn])

lemma safe_trial_conns [task_safe]: "csat x (\<lambda>_ _. True) J (trial_conns_task x net i ets)"
  by (induction ets arbitrary: J) (auto intro!: sat_seq [OF safe_trial_conn] split: option.split)

lemma csat_post_sub: "csat x (ans_ok x) (\<lambda>_. True) (post_subscription_task x req bonus codes)"
  unfolding post_subscription_task_def Let_def
  by (rule sat_seq [OF safe_same], simp)
     (auto split: option.split outcome.split status.split
       intro!: sat_seq [OF safe_reward] sat_seq [OF safe_add_sub] sat_seq [OF safe_same])

lemma safe_nodes [task_safe]: "csat x (\<lambda>_ _. True) J (add_node_task x i n)"
  "csat x (\<lambda>_ _. True) J (sync_node_status_task x i e st)"
  unfolding add_node_task_def sync_node_status_task_def
  by (rule sat_seq [OF safe_same];
      auto split: sum.split option.split intro!: safe_same sat_seq [OF safe_same] simp: split_beta)+

lemma csat_post_node: "csat x (ans_ok x) (\<lambda>_. True) (post_node_task x req)"
  unfolding post_node_task_def Let_def
  by (rule sat_seq [OF safe_same], simp, rule sat_seq [OF safe_nodes(1)])
     (auto split: outcome.split status.split intro!: sat_seq [OF safe_nodes(2)])

text \<open>Handlers that are one action.\<close>

lemma csat_single:
  assumes "\<And>w. mem_conns (snd (f w)) = mem_conns w \<and> db_table (snd (f w)) = db_table w \<and> ans_ok x (fst (f w)) (snd (f w))"
  shows "csat x (ans_ok x) (\<lambda>_. True) (atomically f)"
  using assms by (intro csat_atomically ans_ok_stable) (auto intro: kept_same)

lemma csat_singles:
  "csat x (ans_ok x) (\<lambda>_. True) (atomically (get_connections_handler x ct))"
  "csat x (ans_ok x) (\<lambda>_. True) (atomically (put_subscription_handler x i sq))"
  "csat x (ans_ok x) (\<lambda>_. True) (atomically (get_key_validate_handler x k code secret))"
  "csat x (ans_ok x) (\<lambda>_. True) (atomically (post_key_handler x k days dist secret))"
proof -
  show "csat x (ans_ok x) (\<lambda>_. True) (atomically (get_connections_handler x ct))"
    by (rule csat_single) (auto simp: get_connections_handler_def publish_def Let_def split_beta split: sum.split)
  show "csat x (ans_ok x) (\<lambda>_. True) (atomically (put_subscription_handler x i sq))"
    using update_sub_frame [of x i sq]
    by (intro csat_single) (auto simp: put_subscription_handler_def split_beta split: outcome.split status.split)
  show "csat x (ans_ok x) (\<lambda>_. True) (atomically (get_key_validate_handler x k code secret))"
    by (rule csat_single) (auto simp: get_key_validate_handler_def split_beta split: option.split)
  show "csat x (ans_ok x) (\<lambda>_. True) (atomically (post_key_handler x k days dist secret))"
    by (rule csat_single) (auto simp: post_key_handler_def Let_def split_beta split: option.split sum.split)
qed

section \<open>Any number of requests\<close>

abbreviation ssat :: "ext \<Rightarrow> ('a \<Rightarrow> world \<times> email_store \<Rightarrow> bool) \<Rightarrow> (world \<times> email_store \<Rightarrow> bool) \<Rightarrow>
    (world \<times> email_store, 'a) task \<Rightarrow> bool" where
  "ssat x \<equiv> sat (\<lambda>s. conc_inv x (fst s)) (\<lambda>s s'. conc_guar x (fst s) (fst s'))"

lemma ssat_on_fst: "csat x Q (\<lambda>_. True) t \<Longrightarrow> ssat x (\<lambda>a s. Q a (fst s)) (\<lambda>_. True) (on_fst t)"
  by (drule sat_on_fst) simp

lemma kept_id: "conc_inv x w \<Longrightarrow> conc_guar x w w"
  by (simp add: conc_guar_def)

lemma save_trial_tick: "fst (save_trial x m who i t r ws) = fst ws \<or> fst (save_trial x m who i t r ws) = tick (fst ws)"
  by (simp add: save_trial_def split: option.split)

lemma ssat_trial: "ssat x (\<lambda>a s. ans_ok x a (fst s)) (\<lambda>_. True) (post_trial_task x m cfg req)"
proof -
  have ask: "ssat x (\<lambda>_ _. True) (\<lambda>_. True) (atomically (\<lambda>ws. (trial_requested m req (snd ws), ws)))"
    by (rule sat_atomically) (simp_all add: kept_id unaffected_def)
  have tick: "kept x w (tick w)" "kept x w (tick (tick w))" "kept x w w" if "conc_inv x w" for w
    using that by (auto intro!: kept_same)
  have save: "ssat x (\<lambda>a s. ans_ok x a (fst s)) (\<lambda>_. True) (atomically (\<lambda>ws. (Ret (success_response msg (Some i) INone),
      save_trial x m u i now rb (save_trial x m v i now rb ws))))" for msg u v i now rb
  proof (rule sat_atomically, goal_cases)
    case (1 s)
    let ?s = "save_trial x m v i now rb s"
    from save_trial_tick [of x m v i now rb s] save_trial_tick [of x m u i now rb ?s] tick [OF 1(1)]
    show ?case by (auto simp: kept_def)
  qed (use ans_ok_stable in \<open>auto simp: unaffected_def\<close>)
  note on = safe_same [THEN ssat_on_fst] safe_reward [THEN ssat_on_fst] safe_add_sub [THEN ssat_on_fst]
    safe_trial_conns [THEN ssat_on_fst]
  show ?thesis
    unfolding post_trial_task_def post_trial_rest_def Let_def
    by (auto split: prod.split option.split outcome.split status.split
        intro!: sat_seq [OF ask] sat_seq [OF on(1)] sat_seq [OF on(2)] sat_seq [OF on(3)] sat_seq [OF on(4)] save)
qed

definition promise :: "ext \<Rightarrow> (error, reply) outcome option \<Rightarrow> world \<times> email_store \<Rightarrow> bool" where
  "promise x a s = (case a of Some b \<Rightarrow> ans_ok x b (fst s) | None \<Rightarrow> True)"

lemma ssat_answered: "ssat x (\<lambda>a s. ans_ok x a (fst s)) J t \<Longrightarrow> ssat x (promise x) J (answered t)"
  unfolding answered_def by (rule sat_bind) (auto simp: promise_def)

lemma ssat_silent: "ssat x (\<lambda>_ _. True) J t \<Longrightarrow> ssat x (promise x) J (silent t)"
  unfolding silent_def by (rule sat_bind) (simp_all add: promise_def)

interpretation conc: concurrent "\<lambda>s. conc_inv x (fst s)" "\<lambda>s s'. conc_guar x (fst s) (fst s')" "promise x" "server_tasks x k m"
  for x k m
proof
  fix t
  assume "t \<in> server_tasks x k m"
  then show "ssat x (promise x) (\<lambda>_. True) t"
    by cases (auto intro!: ssat_answered ssat_silent ssat_trial ssat_on_fst csat_create csat_delete_handler csat_activate
        csat_post_sub csat_post_node csat_singles safe_rounds safe_reload safe_same)
qed




text \<open>Two requests for a WireGuard connection of the server of \<open>ReachProps\<close>, taking turns.\<close>

definition race_task :: server_task where
  "race_task = answered (on_fst (create_connection_task sample_ext (sample_request Wireguard) sample_net))"

definition race_pool :: "(world \<times> email_store, (error, reply) outcome option) pool" where
  "race_pool = schedule [0, 1, 0, 0, 0, 1, 1, 1] ([race_task, race_task], (run_0, empty_store))"

lemma race_reach:
  "(pool_step (server_tasks sample_ext k m))\<^sup>*\<^sup>* ([], (run_0, empty_store)) (fst race_pool, (fst (snd race_pool), snd (snd race_pool)))"
proof -
  have "set [race_task, race_task] \<subseteq> server_tasks sample_ext k m" by (simp add: race_task_def task_create)
  from rtranclp_trans [OF spawn_reach [OF this, of "[]"] schedule_reach]
  have "(pool_step (server_tasks sample_ext k m))\<^sup>*\<^sup>* ([], (run_0, empty_store)) race_pool" by (simp only: race_pool_def append_Nil)
  then show ?thesis by simp
qed


section \<open>Two requests for a WireGuard connection\<close>

lemma turn_act:
  "turn 0 ([answered (on_fst (task_bind (atomically f) g)), u], (w, st)) = ([answered (on_fst (g (fst (f w)))), u], (snd (f w), st))"
  "turn 1 ([u, answered (on_fst (task_bind (atomically f) g))], (w, st)) = ([u, answered (on_fst (g (fst (f w))))], (snd (f w), st))"
  by (simp_all add: turn_def answered_def atomically_def split_beta)

definition wg_conn :: "ext \<Rightarrow> conn_create_request \<Rightarrow> u32 \<Rightarrow> nat \<Rightarrow> conn" where
  "wg_conn x q ip n = conn_new (x_clock x (n + 3)) (cq_env q) (cq_subscription_id q)
     (ProtoWireguard \<lparr>keys = \<lparr>privkey = x_privkey x (n + 2)\<rparr>, wg_address = \<lparr>address = V4 ip, cidr = 32\<rparr>\<rparr>) None"

lemma prepare_wg:
  assumes "cq_proto q = Wireguard" and "cq_days q = None" and "alloc_wg net (mem_conns w) = Inr ip"
    and "sub_check x (cq_subscription_id q) (w\<lparr>w_tick := w_tick w + 1\<rparr>) = None"
  shows "create_prepare x q net w =
    (Inr (x_new_uuid x (w_tick w + 4), wg_conn x q ip (w_tick w)), w\<lparr>w_tick := w_tick w + 5\<rparr>)"
  using assms by (simp add: create_prepare_def requested_expiry_def new_proto_def tick_def utc_now_def wg_conn_def
      numeral_eq_Suc)

text \<open>The rest of a request, when nothing fails.\<close>

lemma finish_create:
  assumes "n < length ts" and "ts ! n = answered (on_fst (task_bind (add_conn_task x i c) (create_finish x i c)))"
    and "healthy_from x (w_tick w)" and "hm_get (db_table w) i = None" and "hm_get (mem_conns w) i = None"
  obtains r w' where "schedule [n, n, n] (ts, (w, st)) = (ts[n := Return (Some (Ret r))], (w', st))" "r_status r = 200"
    "mem_conns w' = hm_insert i c (mem_conns w)" "\<forall>j. j \<noteq> i \<longrightarrow> hm_get (db_table w') j = hm_get (db_table w) j"
    "w_tick w \<le> w_tick w'"
proof -
  have h: "\<not> x_db_fails x (w_tick w)" "\<not> x_ser_fails x (w_tick w + 1)" "\<not> x_send_fails x (w_tick w + 1)"
    using assms(3) by (auto simp: healthy_from_def healthy_at_def)
  let ?d = "(w_db w)\<lparr>db_conns := hm_insert i (columns_of_row (x_v6_str x) (conn_row_of i c)) (db_table w)\<rparr>"
  let ?w = "(w\<lparr>w_db := ?d, w_tick := w_tick w + 1\<rparr>)"
  have id: "cr_conn_id (conn_row_of i c) = i" by (simp add: conn_row_of_def)
  have ins: "run_db x (\<lambda>fails _. pg_conn_insert fails (x_uuid_str x) (x_v6_str x) (conn_row_of i c)) w = (Inr (), ?w)"
    using h assms(4) by (simp add: run_db_def pg_conn_insert_def id tick_def)
  have add: "conns_add i c (mem_conns w) = (Ok i, hm_insert i c (mem_conns w))"
    using assms(5) by (simp add: conns_add_def)
  let ?v = "set_conns (hm_insert i c (mem_conns w)) ?w"
  have "fst (announce x i c ?v) = Inr ()" using h by (simp add: announce_def)
  then obtain w' where an: "announce x i c ?v = (Inr (), w')" by (metis prod.collapse)
  have tick: "w_tick w' = w_tick w + 2"
    using an h by (auto simp: announce_def publish_def tick_def split: option.splits)
  have run: "schedule [n, n, n] (ts, (w, st)) = (ts[n := Return (Some (Ret (success_response
      (''Connection '' @ x_uuid_str x i @ '' has been created'') (Some i) (IConnection c))))], (w', st))"
    using assms(1,2) an
    by (simp add: turn_def answered_def add_conn_task_def create_finish_def atomically_def ins add del: append_Cons)
  show ?thesis
    by (rule that [OF run]) (use announce_frame(1,2) [OF an] tick in \<open>simp_all add: reply_defs\<close>)
qed

text \<open>C7. Two requests for a WireGuard connection that interleave are given the same address: when both
  have read the last address before either has stored its connection, both are answered with
  success, and memory has two connections with that address.\<close>

theorem wg_race:
  fixes x :: ext and q :: conn_create_request and net :: ip_addr_mask and w :: world and st :: email_store
  defines "t \<equiv> answered (on_fst (create_connection_task x q net))"
  assumes "cq_proto q = Wireguard" and "cq_days q = None" and "alloc_wg net (mem_conns w) = Inr ip"
    and "sub_check x (cq_subscription_id q) (w\<lparr>w_tick := w_tick w + 1\<rparr>) = None"
    and "sub_check x (cq_subscription_id q) (w\<lparr>w_tick := w_tick w + 6\<rparr>) = None"
    and "healthy_from x (w_tick w)" and "coherent w"
    and "hm_get (db_table w) (x_new_uuid x (w_tick w + 4)) = None" and "hm_get (db_table w) (x_new_uuid x (w_tick w + 9)) = None"
    and "x_new_uuid x (w_tick w + 4) \<noteq> x_new_uuid x (w_tick w + 9)"
  shows "\<exists>r s w'. schedule [0, 1, 0, 0, 0, 1, 1, 1] ([t, t], (w, st)) = ([Return (Some (Ret r)), Return (Some (Ret s))], (w', st)) \<and>
    r_status r = 200 \<and> r_status s = 200 \<and> \<not> wg_unique (mem_conns w') \<and>
    (\<exists>c d. hm_get (mem_conns w') (x_new_uuid x (w_tick w + 4)) = Some c \<and> wg_ip c = Some ip \<and>
      hm_get (mem_conns w') (x_new_uuid x (w_tick w + 9)) = Some d \<and> wg_ip d = Some ip)"
proof -
  let ?i = "x_new_uuid x (w_tick w + 4)" and ?j = "x_new_uuid x (w_tick w + 9)"
    and ?c = "wg_conn x q ip (w_tick w)" and ?d = "wg_conn x q ip (w_tick w + 5)"
  let ?rest = "\<lambda>i c. answered (on_fst (task_bind (add_conn_task x i c) (create_finish x i c))) :: server_task"
  define w1 where "w1 = w\<lparr>w_tick := w_tick w + 5\<rparr>"
  define w2 where "w2 = w\<lparr>w_tick := w_tick w + 10\<rparr>"
  have p1: "create_prepare x q net w = (Inr (?i, ?c), w1)"
    unfolding w1_def using assms by (intro prepare_wg) simp_all
  have p2: "create_prepare x q net w1 = (Inr (?j, ?d), w2)"
    using prepare_wg [of q net w1 ip x] assms by (simp add: w1_def w2_def numeral_eq_Suc)
  have first: "schedule [0, 1] ([t, t], (w, st)) = ([?rest ?i ?c, ?rest ?j ?d], (w2, st))"
    by (simp add: t_def create_connection_task_def turn_act [unfolded One_nat_def] p1 p2)
  have two: "0 < length [a, b]" "[a, b] ! 0 = a" "1 < length [a, b]" "[a, b] ! 1 = b" for a b :: server_task by simp_all
  have fresh: "hm_get (mem_conns w2) ?i = None" "hm_get (mem_conns w) ?j = None" "hm_get (db_table w2) ?i = None"
      "hm_get (db_table w2) ?j = None" "mem_conns w2 = mem_conns w"
    using assms(9,10) iffD2 [OF spec [OF assms(8) [unfolded coherent_def]]] by (simp_all add: w2_def)
  have h: "healthy_from x (w_tick w2)" by (rule healthy_from_mono [OF assms(7)]) (simp add: w2_def)
  obtain r w3 where r: "schedule [0, 0, 0] ([?rest ?i ?c, ?rest ?j ?d], (w2, st)) =
        ([?rest ?i ?c, ?rest ?j ?d][0 := Return (Some (Ret r))], (w3, st))"
      "r_status r = 200" "mem_conns w3 = hm_insert ?i ?c (mem_conns w2)"
      "\<forall>j. j \<noteq> ?i \<longrightarrow> hm_get (db_table w3) j = hm_get (db_table w2) j" "w_tick w2 \<le> w_tick w3"
    by (rule finish_create [OF two(1,2) h fresh(3,1)])
  have h3: "healthy_from x (w_tick w3)" using h r(5) by (rule healthy_from_mono)
  have fresh3: "hm_get (db_table w3) ?j = None" "hm_get (mem_conns w3) ?j = None"
    using r(3,4) fresh assms(11) by (simp_all add: eq_commute)
  obtain s w' where s: "schedule [1, 1, 1] ([Return (Some (Ret r)), ?rest ?j ?d], (w3, st)) =
      ([Return (Some (Ret r)), ?rest ?j ?d][1 := Return (Some (Ret s))], (w', st))"
      "r_status s = 200" "mem_conns w' = hm_insert ?j ?d (mem_conns w3)"
    by (rule finish_create [OF two(3,4) h3 fresh3])
  have "schedule ([0, 1] @ [0, 0, 0] @ [1, 1, 1]) ([t, t], (w, st)) = ([Return (Some (Ret r)), Return (Some (Ret s))], (w', st))"
    unfolding schedule_simps(3) first using r(1) s(1) by simp
  moreover have ip: "wg_ip ?c = Some ip" "wg_ip ?d = Some ip"
    by (simp_all add: wg_ip_def wg_conn_def conn_new_def as_ipv4_def)
  moreover have g: "hm_get (mem_conns w') ?i = Some ?c" "hm_get (mem_conns w') ?j = Some ?d"
    using assms(11) by (simp_all add: s(3) r(3))
  moreover have "\<not> wg_unique (mem_conns w')" using g ip assms(11) unfolding wg_unique_def by blast
  ultimately show ?thesis using r(2) s(2) by auto
qed

theorem wg_race_witness:
  "\<not> wg_unique (mem_conns (fst (snd race_pool)))"
proof -
  have "alloc_wg sample_net (mem_conns run_0) = Inr 0x0A000006" "w_tick run_0 = 3"
    "sub_check sample_ext (Some 7) (run_0\<lparr>w_tick := 4\<rparr>) = None" "sub_check sample_ext (Some 7) (run_0\<lparr>w_tick := 9\<rparr>) = None"
    "hm_get (db_table run_0) 1007 = None" "hm_get (db_table run_0) 1012 = None"
    by code_simp+
  moreover have "coherent run_0"
    using srv_start_inv [OF run_0_start sample_ext_ok] by (simp add: srv_inv_def wg_inv_def)
  moreover have "x_new_uuid sample_ext n = of_nat (n + 1000)" for n by (simp add: sample_ext_def)
  ultimately show ?thesis
    using wg_race [where q = "sample_request Wireguard" and net = sample_net and w = run_0 and x = sample_ext
        and st = empty_store and ip = "0x0A000006"]
    unfolding race_pool_def race_task_def by (fastforce simp: sample_request_def simp del: schedule_simps)
qed

section \<open>Two requests with the same key\<close>

text \<open>A subscription with the same expiry in memory and in its row.\<close>

definition subscribed :: "datetime \<Rightarrow> world \<Rightarrow> uuid \<Rightarrow> bool" where
  "subscribed e w i = ((\<exists>s. hm_get (mem_subs w) i = Some s \<and> \<not> s_is_deleted s \<and> s_expires_at s = Some e) \<and>
     (\<exists>row. hm_get (db_subs (w_db w)) i = Some row \<and> s_expires_at row = Some e))"

lemma add_days_active:
  assumes "subscribed e w i" and "\<forall>n. x_clock x n < e" and "x_plus_days x e days = Some e'" and "e \<le> e'"
    and "healthy_from x (w_tick w)"
  obtains u w' where "add_days x i days w = (Ret (Updated u), w')" "subscribed e' w' i" "w_tick w \<le> w_tick w'"
    "\<forall>k. k \<noteq> i \<longrightarrow> hm_get (mem_subs w') k = hm_get (mem_subs w) k \<and> hm_get (db_subs (w_db w')) k = hm_get (db_subs (w_db w)) k"
proof -
  obtain s row where s: "hm_get (mem_subs w) i = Some s" "\<not> s_is_deleted s" "s_expires_at s = Some e"
      "hm_get (db_subs (w_db w)) i = Some row" "s_expires_at row = Some e"
    using assms(1) by (auto simp: subscribed_def)
  have h: "\<not> x_db_fails x (w_tick w + n)" for n using assms(5) by (simp add: healthy_from_def healthy_at_def)
  have c: "\<not> e' \<le> x_clock x n" for n using assms(2,4) by (meson less_le_trans not_le)
  let ?m = "hm_insert i (s\<lparr>s_expires_at := Some e', s_updated_at := x_clock x (w_tick w + 3)\<rparr>) (mem_subs w)"
  let ?d = "hm_insert i (row\<lparr>s_expires_at := Some e', s_updated_at := x_clock x (w_tick w + 4)\<rparr>) (db_subs (w_db w))"
  let ?w = "w\<lparr>w_mem := (w_mem w)\<lparr>subscriptions := ?m\<rparr>, w_db := (w_db w)\<lparr>db_subs := ?d\<rparr>, w_tick := w_tick w + 6\<rparr>"
  have "add_days x i days w = (Ret (Updated (s_id row)), ?w)"
    using s assms(2,3) h [of 4] h [of 5] c
    by (simp add: add_days_def is_active_def extended_expiry_def set_sub_expires_at_def pg_sub_add_days_def run_db_def
        utc_now_def tick_def Let_def numeral_eq_Suc)
  then show ?thesis
    by (rule that) (use s in \<open>simp_all add: subscribed_def\<close>)
qed

lemma finish_activate:
  assumes "n < length ts" and "ts ! n = answered (on_fst (task_bind (add_days_task x i (sint (k_days ky))) (activate_finish x i ky)))"
    and "subscribed e w i" and "\<forall>n. x_clock x n < e" and "x_plus_days x e (sint (k_days ky)) = Some e'" and "e \<le> e'"
    and "healthy_from x (w_tick w)"
  obtains l r w' where "schedule (replicate l n) (ts, (w, st)) = (ts[n := Return (Some (Ret r))], (w', st))" "r_status r = 200"
    "subscribed e' w' i" "w_tick w \<le> w_tick w'"
    "\<forall>k. k \<noteq> i \<longrightarrow> hm_get (mem_subs w') k = hm_get (mem_subs w) k \<and> hm_get (db_subs (w_db w')) k = hm_get (db_subs (w_db w)) k"
  using assms(3-7)
proof (rule add_days_active)
  fix u v
  assume a: "add_days x i (sint (k_days ky)) w = (Ret (Updated u), v)" "subscribed e' v i" "w_tick w \<le> w_tick v"
    "\<forall>k. k \<noteq> i \<longrightarrow> hm_get (mem_subs v) k = hm_get (mem_subs w) k \<and> hm_get (db_subs (w_db v)) k = hm_get (db_subs (w_db w)) k"
  let ?k = "key_activate (utc_now x v) i ky"
  have h: "\<not> x_db_fails x (Suc (w_tick v))" using assms(7) a(3) by (simp add: healthy_from_def healthy_at_def)
  obtain l where l: "schedule (replicate l n) (ts, (w, st)) = (ts[n := Return (fst (run_task (ts ! n) (w, st)))],
      snd (run_task (ts ! n) (w, st)))"
    using schedule_alone [OF assms(1) refl] by blast
  let ?w = "snd (run_db x (\<lambda>fails now. pg_key_activate fails now ?k) (tick v))"
  have run: "run_task (ts ! n) (w, st) = (Some (Ret (success_response
      (''Key '' @ x_uuid_str x (k_id ?k) @ '' activated'') (Some (k_id ?k)) (IKey ?k))), (?w, st))"
    using h by (simp add: assms(2) alone a(1) activate_finish_def Let_def split_beta run_db_def pg_key_activate_def)
  show ?thesis
    by (rule that [OF l [unfolded run fst_conv snd_conv]])
       (use a in \<open>simp_all add: reply_defs subscribed_def run_db_def pg_key_activate_def split_beta\<close>)
qed

text \<open>C8. Two requests that interleave can spend the same key: when both have read the key before
  either has marked it, both are answered with success, and both subscriptions have the days.\<close>

theorem key_race:
  fixes x :: ext and code :: string and w :: world and st :: email_store
  defines "t k \<equiv> answered (on_fst (post_activate_key_task x code k))"
  assumes "pg_key_get False code (w_db w) = Some ky" and "\<not> k_activated ky" and "i \<noteq> j"
    and "subscribed e w i" and "\<forall>n. x_clock x n < e" and "x_plus_days x e (sint (k_days ky)) = Some e'" and "e \<le> e'"
    and "subscribed f w j" and "\<forall>n. x_clock x n < f" and "x_plus_days x f (sint (k_days ky)) = Some f'" and "f \<le> f'"
    and "healthy_from x (w_tick w)"
  shows "\<exists>is r s w'. schedule is ([t i, t j], (w, st)) = ([Return (Some (Ret r)), Return (Some (Ret s))], (w', st)) \<and>
    r_status r = 200 \<and> r_status s = 200 \<and> subscribed e' w' i \<and> subscribed f' w' j"
proof -
  let ?rest = "\<lambda>k. answered (on_fst (task_bind (add_days_task x k (sint (k_days ky))) (activate_finish x k ky))) :: server_task"
  define w2 where "w2 = tick (tick w)"
  have h: "\<not> x_db_fails x (w_tick w)" "\<not> x_db_fails x (Suc (w_tick w))"
    using assms(13) by (simp_all add: healthy_from_def healthy_at_def)
  have get: "run_db x (\<lambda>fails _ d. (pg_key_get fails code d, d)) v = (Some ky, tick v)"
    if "\<not> x_db_fails x (w_tick v)" "w_db v = w_db w" for v
    using that assms(2) by (simp add: run_db_def)
  have first: "schedule [0, 1] ([t i, t j], (w, st)) = ([?rest i, ?rest j], (w2, st))"
    using get [of w] get [of "tick w"] h assms(3)
    by (simp add: t_def post_activate_key_task_def turn_act [unfolded One_nat_def] w2_def)
  have two: "0 < length [a, b]" "[a, b] ! 0 = a" "1 < length [a, b]" "[a, b] ! 1 = b" for a b :: server_task by simp_all
  have h2: "healthy_from x (w_tick w2)" by (rule healthy_from_mono [OF assms(13)]) (simp add: w2_def)
  have s2: "subscribed e w2 i" "subscribed f w2 j" using assms(5,9) by (simp_all add: subscribed_def w2_def)
  obtain l r w3 where r: "schedule (replicate l 0) ([?rest i, ?rest j], (w2, st)) =
        ([?rest i, ?rest j][0 := Return (Some (Ret r))], (w3, st))" "r_status r = 200"
      "subscribed e' w3 i" "w_tick w2 \<le> w_tick w3"
      "\<forall>k. k \<noteq> i \<longrightarrow> hm_get (mem_subs w3) k = hm_get (mem_subs w2) k \<and> hm_get (db_subs (w_db w3)) k = hm_get (db_subs (w_db w2)) k"
    by (rule finish_activate [OF two(1,2) s2(1) assms(6-8) h2])
  have h3: "healthy_from x (w_tick w3)" using h2 r(4) by (rule healthy_from_mono)
  have s3: "subscribed f w3 j" using s2(2) r(5) assms(4) by (simp add: subscribed_def)
  obtain l' s w' where s: "schedule (replicate l' 1) ([Return (Some (Ret r)), ?rest j], (w3, st)) =
        ([Return (Some (Ret r)), ?rest j][1 := Return (Some (Ret s))], (w', st))" "r_status s = 200" "subscribed f' w' j"
      "\<forall>k. k \<noteq> j \<longrightarrow> hm_get (mem_subs w') k = hm_get (mem_subs w3) k \<and> hm_get (db_subs (w_db w')) k = hm_get (db_subs (w_db w3)) k"
    by (rule finish_activate [OF two(3,4) s3 assms(10-12) h3])
  have "schedule ([0, 1] @ replicate l 0 @ replicate l' 1) ([t i, t j], (w, st)) =
      ([Return (Some (Ret r)), Return (Some (Ret s))], (w', st))"
    unfolding schedule_simps(3) first using r(1) s(1) by simp
  moreover have "subscribed e' w' i" using r(3) s(4) assms(4) by (simp add: subscribed_def)
  ultimately show ?thesis using r(2) s(2,3) by blast
qed

definition two_subs_world :: world where
  "two_subs_world = sample_world\<lparr>w_mem := (w_mem sample_world)\<lparr>subscriptions := [(7, sample_sub), (8, sample_sub\<lparr>s_id := 8\<rparr>)]\<rparr>,
     w_db := sample_db\<lparr>db_subs := [(7, sample_sub), (8, sample_sub\<lparr>s_id := 8\<rparr>)]\<rparr>\<rparr>"

theorem key_race_witness:
  "\<exists>is ts w'. schedule is ([answered (on_fst (post_activate_key_task still_ext ''CODE'' 7)),
       answered (on_fst (post_activate_key_task still_ext ''CODE'' 8))], (two_subs_world, empty_store)) = (ts, (w', empty_store)) \<and>
     subscribed (sample_now + 1030 * day) w' 7 \<and> subscribed (sample_now + 1030 * day) w' 8"
proof -
  let ?e = "sample_now + 1000 * day" and ?f = "sample_now + 1030 * day"
  have k: "pg_key_get False ''CODE'' (w_db two_subs_world) = Some sample_key" "\<not> k_activated sample_key"
    by (simp_all add: two_subs_world_def sample_db_def pg_key_get_def sample_key_def)
  have s: "subscribed ?e two_subs_world 7" "subscribed ?e two_subs_world 8"
    by (simp_all add: subscribed_def two_subs_world_def sample_sub_def)
  have c: "\<forall>n. x_clock still_ext n < ?e" by (simp add: still_ext_def day_def)
  have d: "x_plus_days still_ext ?e (sint (k_days sample_key)) = Some ?f"
    by (simp add: still_ext_def sample_ext_def sample_plus_days_def sample_key_def)
  have h: "healthy_from still_ext (w_tick two_subs_world)"
    by (simp add: healthy_from_def healthy_at_def still_ext_def sample_ext_def)
  have le: "?e \<le> ?f" by (simp add: day_def)
  have "(7 :: uuid) \<noteq> 8" by simp
  from key_race [OF k this s(1) c d le s(2) c d le h] show ?thesis by blast
qed

section \<open>Two requests for a trial\<close>

text \<open>After its test, a request for a trial no longer looks at the record of trials.\<close>

definition blind :: "(world \<times> email_store, 'a) task \<Rightarrow> bool" where
  "blind t = (\<forall>w st st'. fst (run_task t (w, st)) = fst (run_task t (w, st')) \<and>
     fst (snd (run_task t (w, st))) = fst (snd (run_task t (w, st'))))"

lemma blind_intros:
  "blind (Return a)" "blind (on_fst u)" "blind t \<Longrightarrow> (\<And>a. blind (k a)) \<Longrightarrow> blind (task_bind t k)"
proof -
  show "blind (Return a)" "blind (on_fst u)" by (simp_all add: blind_def split_beta)
  assume t: "blind t" and k: "\<And>a. blind (k a)"
  show "blind (task_bind t k)"
    unfolding blind_def
  proof (intro allI)
    fix w st st'
    obtain a v u where r: "run_task t (w, st) = (a, v, u)" by (metis prod_cases3)
    then obtain u' where r': "run_task t (w, st') = (a, v, u')"
      using t unfolding blind_def by (metis fst_conv prod.collapse snd_conv)
    show "fst (run_task (task_bind t k) (w, st)) = fst (run_task (task_bind t k) (w, st')) \<and>
        fst (snd (run_task (task_bind t k) (w, st))) = fst (snd (run_task (task_bind t k) (w, st')))"
      using k [of a] by (simp add: r r' blind_def)
  qed
qed

lemma blind_save: "blind (atomically (\<lambda>ws. (a, save_trial x m u i now rb (save_trial x m v i now rb ws))))"
  by (simp add: blind_def save_trial_def split: option.split)

lemma trial_rest_blind: "blind (post_trial_rest x m cfg req)"
  unfolding post_trial_rest_def Let_def
  by (auto intro!: blind_intros blind_save split: prod.split option.split outcome.split status.split)

lemma trial_passed:
  assumes "post_trial_handler x m cfg req (w, st) = (Ret r, ws)" and "r_status r = 200"
  shows "\<not> (tr_user req \<noteq> None \<and> tr_email req \<noteq> None)" "\<not> trial_requested m req st"
    "run_task (post_trial_rest x m cfg req) (w, st) = (Ret r, ws)"
proof -
  show a: "\<not> (tr_user req \<noteq> None \<and> tr_email req \<noteq> None)" "\<not> trial_requested m req st"
    using assms by (auto simp: post_trial_handler_def reply_defs split: if_splits)
  have "run_task (post_trial_task x m cfg req) (w, st) = (Ret r, ws)" using assms(1) by (simp only: alone)
  with a show "run_task (post_trial_rest x m cfg req) (w, st) = (Ret r, ws)" by (auto simp: post_trial_task_def)
qed

text \<open>C9. Two requests for a trial of the same address that interleave both get one: when both have
  passed the test before either is recorded, the second is answered as it would have been without
  the first.\<close>

theorem trial_race:
  fixes x :: ext and m :: mail_ext and cfg :: trial_config and req :: trial_req and w :: world and st :: email_store
  defines "t \<equiv> answered (post_trial_task x m cfg req)"
  assumes "post_trial_handler x m cfg req (w, st) = (Ret r, w1, st1)" and "r_status r = 200"
    and "post_trial_handler x m cfg req (w1, st) = (Ret s, w2, st2)" and "r_status s = 200"
  shows "\<exists>is st'. schedule is ([t, t], (w, st)) = ([Return (Some (Ret r)), Return (Some (Ret s))], (w2, st'))"
proof -
  let ?rest = "answered (post_trial_rest x m cfg req)"
  note p = trial_passed [OF assms(2,3)] and q = trial_passed [OF assms(4,5)]
  have "turn 0 ([t, t], (w, st)) = ([?rest, t], (w, st))" "turn 1 ([?rest, t], (w, st)) = ([?rest, ?rest], (w, st))"
    using p(1,2) by (auto simp: t_def post_trial_task_def turn_def answered_def atomically_def)
  then have first: "schedule [0, 1] ([t, t], (w, st)) = ([?rest, ?rest], (w, st))" by simp
  obtain l where l: "schedule (replicate l 0) ([?rest, ?rest], (w, st)) = ([Return (Some (Ret r)), ?rest], (w1, st1))"
    using schedule_alone [of 0 "[?rest, ?rest]" ?rest "(w, st)"] p(3) by auto
  have "run_task ?rest (w1, st1) = (Some (Ret s), w2, snd (snd (run_task (post_trial_rest x m cfg req) (w1, st1))))"
    using trial_rest_blind [of x m cfg req, unfolded blind_def, rule_format, of w1 st1 st] q(3) by (simp add: prod_eq_iff)
  then obtain k st' where k: "schedule (replicate k 1) ([Return (Some (Ret r)), ?rest], (w1, st1)) =
      ([Return (Some (Ret r)), Return (Some (Ret s))], (w2, st'))"
    using schedule_alone [of 1 "[Return (Some (Ret r)), ?rest]" ?rest "(w1, st1)"] by auto
  have "schedule ([0, 1] @ replicate l 0 @ replicate k 1) ([t, t], (w, st)) =
      ([Return (Some (Ret r)), Return (Some (Ret s))], (w2, st'))"
    unfolding schedule_simps(3) first l k ..
  then show ?thesis by blast
qed

theorem trial_race_witness:
  "let t = answered (post_trial_task sample_ext trial_mail sample_trial_config sample_trial) in
   \<exists>is r s ws. schedule is ([t, t], (sample_world, empty_store)) = ([Return (Some (Ret r)), Return (Some (Ret s))], ws) \<and>
     r_status r = 200 \<and> r_status s = 200"
proof -
  let ?h = "post_trial_handler sample_ext trial_mail sample_trial_config sample_trial"
  let ?a = "?h (sample_world, empty_store)"
  let ?b = "?h (fst (snd ?a), empty_store)"
  have "(case fst ?a of Ret r \<Rightarrow> r_status r | _ \<Rightarrow> 0) = 200" "(case fst ?b of Ret r \<Rightarrow> r_status r | _ \<Rightarrow> 0) = 200"
    by code_simp+
  then obtain r s where rs: "fst ?a = Ret r" "r_status r = 200" "fst ?b = Ret s" "r_status s = 200"
    by (auto split: outcome.splits)
  then have "?a = (Ret r, fst (snd ?a), snd (snd ?a))" "?b = (Ret s, fst (snd ?b), snd (snd ?b))"
    by (metis prod.collapse)+
  from trial_race [OF this(1) rs(2) this(2) rs(4)] rs show ?thesis unfolding Let_def by blast
qed

section \<open>A deletion that does not last\<close>

lemma pending_Return [simp]: "answered (Return a) = Return (Some a)" "silent (Return b) = Return None"
  by (simp_all add: answered_def silent_def)

lemma turn3:
  "turn 0 ([answered (on_fst (task_bind (atomically f) g)), u, v], (w, st)) = ([answered (on_fst (g (fst (f w)))), u, v], (snd (f w), st))"
  "turn (Suc 0) ([u, answered (on_fst (task_bind (atomically f) g)), v], (w, st)) = ([u, answered (on_fst (g (fst (f w)))), v], (snd (f w), st))"
  "turn 2 ([u, v, silent (on_fst (task_bind (atomically h) k))], (w, st)) = ([u, v, silent (on_fst (k (fst (h w))))], (snd (h w), st))"
  by (simp_all add: turn_def answered_def silent_def atomically_def split_beta)

text \<open>C10. That a connection which is deleted in memory is deleted in the table is lost when requests
  interleave. Two requests delete a connection and both pass their checks; the first completes;
  a round of \<open>restore_subscriptions\<close> brings the connection back in the table between the second
  request's statement and its change of the memory. The second client is told that the connection
  has been deleted, memory says so, and the row says that it is not, so a reload brings it back.\<close>

theorem interleaved_delete_lost:
  fixes x :: ext and i :: uuid and w :: world and st :: email_store
  defines "t \<equiv> answered (on_fst (delete_connection_handler_task x i))"
  assumes "mem_conns w = [(i, c)]" and "\<not> c_is_deleted c" and "c_subscription_id c = Some s" and "mem_subs w = [(s, sub)]"
    and "\<forall>n. is_active (x_clock x n) sub" and "hm_get (db_table w) i = Some row" and "\<forall>n. healthy_at x n"
  shows "\<exists>q r w' d. schedule [0, 0, 1, 1, 0, 0, 0, 2, 2, 2, 2, 1, 2, 2, 1, 1]
      ([t, t, silent (on_fst (restore_subscriptions_task x))], (w, st)) =
      ([Return (Some (Ret q)), Return (Some (Ret r)), Return None], (w', st)) \<and> r_status r = 200 \<and>
    hm_get (mem_conns w') i = Some d \<and> c_is_deleted d \<and> map_option t_is_deleted (hm_get (db_table w') i) = Some False \<and>
    \<not> conn_backed (x_v6_str x) (w_db w') i d"
  using assms(2-7) assms(8) [unfolded healthy_at_def]
  by (simp add: t_def delete_connection_handler_task_def turn3 delete_connection_task_def run_db_def pg_conn_delete_def publish_def
      mark_def restore_subscriptions_task_def restore_connections_task_def restore_connection_task_def restore_task_task_def
      conns_to_restore_def get_by_subscription_id_def pg_conn_restore_def delete_finish_def reply_defs hm_modify_def
      tick_def utc_now_def set_deleted_def set_modified_at_def conn_backed_def)

definition lone_world :: world where
  "lone_world = sample_world\<lparr>w_mem := (w_mem sample_world)\<lparr>connections := [(1, sample_conn)]\<rparr>\<rparr>"

theorem interleaved_delete_lost_witness:
  "\<exists>is ts w' d. schedule is ([answered (on_fst (delete_connection_handler_task still_ext 1)),
       answered (on_fst (delete_connection_handler_task still_ext 1)), silent (on_fst (restore_subscriptions_task still_ext))],
       (lone_world, empty_store)) = (ts, (w', empty_store)) \<and>
     hm_get (mem_conns w') 1 = Some d \<and> c_is_deleted d \<and> map_option t_is_deleted (hm_get (db_table w') 1) = Some False"
proof -
  have "mem_conns lone_world = [(1, sample_conn)]" "\<not> c_is_deleted sample_conn" "c_subscription_id sample_conn = Some 7"
    "mem_subs lone_world = [(7, sample_sub)]" "hm_get (db_table lone_world) 1 = Some (snd (row_of 1 sample_conn))"
    by (simp_all add: lone_world_def sample_db_def row_of_def) (simp add: sample_conn_def)
  moreover have "\<forall>n. is_active (x_clock still_ext n) sample_sub"
    by (simp add: is_active_def still_ext_def sample_sub_def day_def)
  moreover have "\<forall>n. healthy_at still_ext n" by (simp add: healthy_at_def still_ext_def sample_ext_def)
  ultimately show ?thesis
    using interleaved_delete_lost [of lone_world 1 sample_conn 7 sample_sub still_ext _ empty_store] by blast
qed

end
