(* ===== verification/Spec2Isabelle.thy ===== *)
theory Spec2Isabelle
  imports RunProps RaceProps
begin

text \<open>
  \<^bold>\<open>Fcore (pony): a verification development\<close>

  The repository is a control plane for proxy servers. An API server (\<open>src/src/bin/api\<close>) keeps
  connections, subscriptions, activation keys and nodes in PostgreSQL and in memory, answers HTTP
  requests and publishes every change on a ZeroMQ bus. Nodes (\<open>src/src/bin/node\<close>) subscribe to their
  environment and drive Xray and WireGuard; the authentication service (\<open>src/src/bin/auth\<close>)
  subscribes to Hysteria2 connections and checks tokens. The library the three share is the rest
  of \<open>src/src\<close>. All paths below are relative to \<open>src/src\<close>.

  \<^bold>\<open>How the code is modelled\<close>

  A Rust struct is a \<open>record\<close>, an enum a \<open>datatype\<close>, an integer a word of its width or an \<open>int\<close>
  where no overflow can happen, a \<open>String\<close> the list of its bytes, a \<open>HashMap\<close> an association list
  without duplicate keys, whose order is the order an iteration would visit it in. \<open>Result\<close> is a sum
  type; where a function can also panic it is the type \<open>outcome\<close> with \<open>Ret\<close>, \<open>Err\<close> and \<open>Panic\<close>.
  Integer arithmetic follows the release profile. An operation of the API server is a function on
  the \<open>world\<close> (memory, tables, published messages, a counter of external events), an operation of
  a node a function on its \<open>node_state\<close> (memory, calls to the back ends, counter). Everything that
  comes from outside the repository is a parameter: the records \<open>ext\<close>, \<open>codec\<close>, \<open>mail_ext\<close>,
  \<open>agent_ext\<close>, \<open>link_ext\<close>, \<open>http_ext\<close>, \<open>metric_ext\<close>, \<open>float_ext\<close> and \<open>boot_ext\<close> hold the clock, random
  values, the failures of statements, sends and requests, base32, base64, HMAC and X25519, the text
  of UUIDs and IPv6 addresses, chrono's calendar arithmetic, URLs, floating-point operations, the
  parsers of configuration files and the answers of Xray and WireGuard. They are indexed by the
  counter of events, so that no two events are forced to agree. What a property
  needs of them is a named hypothesis (\<open>uuid_laws\<close>, \<open>v6_laws\<close>, \<open>code_laws\<close>, \<open>plus_days_laws\<close>,
  \<open>timestamp_laws\<close>, \<open>mail_laws\<close>, \<open>url_laws\<close>, \<open>ext_ok\<close>, \<open>healthy_from\<close>, \<open>agent_healthy\<close>), and
  \<open>Sample\<close> and the property theories give instances. All definitions are executable. Most loops run
  over a list. The loops that repeat a request until it succeeds may never end: \<open>retry\<close> in \<open>Prelude\<close> is
  a \<open>partial_function\<close> into \<open>option\<close>, and the properties of both starts show that they do end when one
  request gets through. The publisher gives up after six attempts (\<open>publisher_init\<close>, with a
  termination proof). No fuel is used. The features \<open>xray\<close> and \<open>wireguard\<close> are taken as compiled in.

  \<^bold>\<open>Theories, with the code they model\<close>

  \<^item> \<open>Prelude\<close>, \<open>Decimal\<close>: types, results, strings, the hash map as an interface
    (\<open>hash_map\<close>), steps that keep an invariant (\<open>preserved\<close>), decimal numbers.
  \<^item> \<open>Tags\<close>: \<open>memory/{tag,env,stat}.rs\<close>, \<open>zmq/topic.rs\<close>. \<open>Addresses\<close>:
    \<open>memory/connection/wireguard.rs\<close>. \<open>KeyCode\<close>: \<open>memory/key.rs\<close>.
  \<^item> \<open>Conn\<close>, \<open>ConnStore\<close>: connections, their messages and their store
    (\<open>memory/connection\<close>, \<open>zmq/message.rs\<close>, \<open>memory/storage/connection.rs\<close>); the accessors are the
    locale \<open>conn_ops\<close>, interpreted for both connection types.
  \<^item> \<open>Upsert\<close>, \<open>Subs\<close>, \<open>NodeStore\<close>: the stores of subscriptions and nodes
    (\<open>memory/{subscription,node}.rs\<close>, \<open>memory/storage\<close>) as interpretations of \<open>upsert_store\<close>.
  \<^item> \<open>Database\<close>: the tables and statements of \<open>bin/api/postgres\<close>.
  \<^item> \<open>Sync\<close>, \<open>SyncLaws\<close>: \<open>bin/api/{service,sync}\<close>, the operations that keep memory, tables
    and bus together, and what each does on every branch.
  \<^item> \<open>ApiTasks\<close>: the background rounds of \<open>bin/api/tasks.rs\<close> and the reload of the tables; the
    locales \<open>batch\<close> and \<open>sub_batch\<close> carry the proofs for deleting and restoring rounds alike.
  \<^item> \<open>ApiInv\<close>, \<open>ApiRun\<close>: the invariant \<open>api_inv\<close> of the server and the step relation
    \<open>api_step\<close> of its operations.
  \<^item> \<open>Email\<close>, \<open>Handlers\<close>, \<open>HandlerInv\<close>: \<open>bin/api/email.rs\<close> and the handlers of
    \<open>bin/api/http/handlers\<close> that change state, the step relation \<open>srv_step\<close> of the whole server
    and its invariant \<open>srv_inv\<close>.
  \<^item> \<open>Mail\<close>: the mail that follows a trial (\<open>bin/api/email.rs\<close>), with its text and the attempts to
    send it.
  \<^item> \<open>Resumption\<close>, \<open>Races\<close>: concurrency. \<open>Resumption\<close> has tasks that do one action at a time, pools of
    them that take turns in any order, and a rely-guarantee rule (locale \<open>concurrent\<close>). \<open>Races\<close> splits
    every operation of \<open>Sync\<close> and \<open>ApiTasks\<close> and every handler that changes state into the actions it is made of:
    what runs under the lock of the memory, one statement, one send. The lemmas \<open>alone\<close> show that a
    task by itself is the operation it splits; \<open>server_tasks\<close> are the tasks of the whole server.
  \<^item> \<open>Backends\<close>, \<open>Agents\<close>, \<open>AgentLaws\<close>, \<open>NodeBoot\<close>: Xray and WireGuard as a node drives them
    (\<open>proto\<close>, \<open>bin/node/stats.rs\<close>), the subscribers of \<open>bin/{auth,node}/tasks.rs\<close> (locale
    \<open>subscriber\<close>) with snapshots, and how a node and the authentication service join
    (\<open>bin/node/{node,http}.rs\<close>, \<open>bin/auth/{service,http}.rs\<close>).
  \<^item> \<open>Links\<close>, \<open>Views\<close>: client links and Clash configurations (\<open>config/{inbound,clash}.rs\<close>) and
    the handlers that only read. \<open>Settings\<close>: \<open>config/{settings,wireguard,h2}.rs\<close>.
  \<^item> \<open>Routes\<close>: the table of routes (\<open>bin/api/http/{routes,mod}.rs\<close>, \<open>http/filters.rs\<close>,
    \<open>bin/api/http/handlers/metrics.rs\<close>): a request is tried on one route after the other.
  \<^item> \<open>Metrics\<close>, \<open>NodeMetrics\<close>, \<open>SysMetrics\<close>: \<open>metrics/{storage,impls}.rs\<close>,
    \<open>bin/api/metrics.rs\<close>, \<open>bin/node/metrics.rs\<close> and the rounds that collect them.
  \<^item> \<open>Wiring\<close>: how each program starts (\<open>bin/node/{config,node}.rs\<close>, \<open>bin/auth/service.rs\<close>,
    \<open>bin/api/main.rs\<close>), the files of snapshots (\<open>memory/snapshot.rs\<close>), the set-up of the sockets
    (\<open>zmq/{publisher,subscriber}.rs\<close>) and the PostgreSQL client (\<open>bin/api/postgres/pg.rs\<close>).

  \<^bold>\<open>Properties\<close>

  \<^item> \<open>ReachProps\<close>: in every state the server reaches, by any sequence of requests, rounds and
    reloads and whatever fails on the way, the memory is a cache of the tables, no WireGuard
    address is used twice, and a restart brings back every connection.
    These states are reached by handling one request after the other (\<open>srv_step\<close>).
  \<^item> \<open>RaceProps\<close>: the same server with requests and rounds that interleave action by action. That is
    more than handling them in a row, which is one of the interleavings. In all of them memory holds
    nothing the tables do not have and a connection a client was told of is never lost. Not all of
    the sequential properties survive: two requests can be given one WireGuard address, spend one
    key or get two trials, and a deletion can be undone in the table only.
  \<^item> \<open>ServerProps\<close>: deletion and its repetition after a failure, the background rounds, the
    reload. \<open>BillingProps\<close>: creating connections, adding days, keys and trials that are good for one
    use, and the error paths on which memory and tables part.
  \<^item> \<open>AgentProps\<close>: which messages reach whom, the authentication service as a map of tokens, the
    life of a Hysteria2 connection from request to token check, batches on a node, what a node has
    after a start, and the deletions it misses while it is down.
  \<^item> \<open>ViewProps\<close>: links and overview of a subscription, the metrics storage, the addresses a node
    hands out.
  \<^item> \<open>HttpProps\<close>: every request is a sequence of steps of the server, so that the invariants hold
    for any traffic, and a request without the token changes nothing but trials and keys.
  \<^item> \<open>RunProps\<close>: what a trial gives and what its mail says, a node has what its settings ask for, snapshots survive crashes, trials are
    refused across restarts, and measured values arrive in the server's storage.
  \<^item> \<open>DataProps\<close>: round trips of codes, masks and topics, network arithmetic and stores.

  A hypothesis about failures is only there where the property needs one: the invariants hold
  whatever fails, the rounds and the start of a node are stated for an environment in which nothing
  fails, and the error properties say what a failure leaves behind.

  \<^bold>\<open>Not modelled\<close>

  Sockets, the matching of paths and bodies inside warp, SMTP, gRPC and PostgreSQL wire formats, the
  archive format of rkyv and the parsers of TOML, YAML and JSON are outside of the repository. Task
  spawning and sleeping are not modelled. The handlers and rounds are modelled twice, as functions
  that run without interruption and as tasks that interleave; the programs of a node and of the
  authentication service only as functions (each works through its messages in one loop). The order in which
  the tasks of one \<open>join_all\<close> run is that of the list. \<open>proto/conn.rs\<close> is not part of
  the build (no module declares it). The text of library errors is left out, and so are \<open>main.rs\<close> of
  the node and the authentication service (arguments, tracing, the tokio runtime).
\<close>

end
